theory Spec2Isabelle
  imports Complex_Main
begin

section \<open>UrbanTrack server: rider telemetry and gamification engine\<close>

text \<open>
  A shallow embedding of \<^verbatim>\<open>src/server/index.js\<close>: the functions
  \<^verbatim>\<open>haversineMeters\<close>, \<^verbatim>\<open>checkAndAwardBadges\<close>, \<^verbatim>\<open>awardPointsPerKm\<close>,
  \<^verbatim>\<open>updateChallengesForRider\<close> and \<^verbatim>\<open>handlePosition\<close>, over the in-memory table
  \<^verbatim>\<open>DATA\<close>.

  Conventions of the embedding.
  \<^item> JavaScript numbers that hold coordinates and distances are real numbers: the
    embedding computes in exact arithmetic (the rounding of IEEE doubles and the
    infinities are not modelled). In exact arithmetic no distance is \<^verbatim>\<open>NaN\<close>; the
    rounded computation of the runtime can produce one, and what lines 38 and 165 to 167
    do with it is modelled apart, in the subsection on numbers that are not numbers.
    Timestamps, the score and the kilometre counts are integers.
  \<^item> Every mutation is explicit state passing: a function takes the rider (or the whole
    table) and returns the updated one.
  \<^item> \<^verbatim>\<open>x || 0\<close> on a field that always holds a number other than \<^verbatim>\<open>NaN\<close> is the
    identity; on the field
    \<^verbatim>\<open>suspicious\<close>, which the login route never initialises, it is a case split on an
    optional value.
  \<^item> The calls into the JavaScript runtime (\<^verbatim>\<open>Math\<close>, \<^verbatim>\<open>Date\<close>, number to string
    conversion) are modelled by the definitions of the first subsections.
  \<^item> An object used as a dictionary is a map from its own keys (the properties that a
    JavaScript object inherits are not modelled).
\<close>

subsection \<open>Constants\<close>

definition MAX_SPEED_KMH :: real where
  "MAX_SPEED_KMH = 140"

definition POINTS_PER_KM :: int where
  "POINTS_PER_KM = 10"

definition BADGE_MILESTONES_METERS :: "nat list" where
  "BADGE_MILESTONES_METERS = [1000, 5000, 10000, 25000, 50000, 100000]"

subsection \<open>Runtime: numbers to strings\<close>

definition digit_char :: "nat \<Rightarrow> char" where
  "digit_char n = ''0123456789'' ! (n mod 10)"

text \<open>The decimal numeral of a natural number, as \<^verbatim>\<open>'' + m\<close> gives it for an integer.\<close>

fun string_of_nat :: "nat \<Rightarrow> string" where
  "string_of_nat n =
     (if n < 10 then [digit_char n] else string_of_nat (n div 10) @ [digit_char n])"

declare string_of_nat.simps [simp del]

text \<open>A number on \<open>w\<close> digits, zero padded (the fields of \<^verbatim>\<open>toISOString\<close>).\<close>

fun pad_digits :: "nat \<Rightarrow> nat \<Rightarrow> string" where
  "pad_digits 0 n = []"
| "pad_digits (Suc w) n = pad_digits w (n div 10) @ [digit_char n]"

subsection \<open>Runtime: \<^verbatim>\<open>Math\<close>\<close>

text \<open>\<^verbatim>\<open>Math.atan2(y, x)\<close>: the angle of the point \<open>(x, y)\<close>, in \<open>(-pi, pi]\<close>.\<close>

definition atan2 :: "real \<Rightarrow> real \<Rightarrow> real" where
  "atan2 y x =
     (if 0 < x then arctan (y / x)
      else if x < 0 then (if 0 \<le> y then arctan (y / x) + pi else arctan (y / x) - pi)
      else if 0 < y then pi / 2
      else if y < 0 then - (pi / 2)
      else 0)"

text \<open>\<^verbatim>\<open>Math.round\<close>: the nearest integer, halves upwards.\<close>

definition js_round :: "real \<Rightarrow> int" where
  "js_round x = \<lfloor>x + 1 / 2\<rfloor>"

subsection \<open>Great-circle distance\<close>

record coord =
  lat :: real
  lon :: real

definition toRad :: "real \<Rightarrow> real" where
  "toRad d = d * pi / 180"

text \<open>
  The distance in exact arithmetic, where \<^verbatim>\<open>inside\<close> is between 0 and 1 and both square
  roots exist. What lines 38 and 39 return when the rounded \<^verbatim>\<open>inside\<close> exceeds 1 is in the
  subsection on numbers that are not numbers.
\<close>

definition haversineMeters :: "coord \<Rightarrow> coord \<Rightarrow> real" where
  "haversineMeters a b =
     (let R = 6371000;
          dLat = toRad (lat b - lat a);
          dLon = toRad (lon b - lon a);
          lat1 = toRad (lat a);
          lat2 = toRad (lat b);
          sinDlat = sin (dLat / 2);
          sinDlon = sin (dLon / 2);
          inside = sinDlat * sinDlat + cos lat1 * cos lat2 * sinDlon * sinDlon;
          c = 2 * atan2 (sqrt inside) (sqrt (1 - inside))
      in R * c)"

subsection \<open>The data model\<close>

text \<open>\<^verbatim>\<open>rider.last\<close>: the last stored fix.\<close>

record last_fix =
  fix_lat :: real
  fix_lon :: real
  fix_ts :: int

record history_entry =
  h_lat :: real
  h_lon :: real
  h_ts :: int
  h_meters :: int

text \<open>
  \<^verbatim>\<open>rider.challenges[cid]\<close>. \<^verbatim>\<open>lastReset\<close> is \<^verbatim>\<open>null\<close> until the first reset,
  \<^verbatim>\<open>completedAt\<close> is absent until the first completion.
\<close>

record progress =
  progressMeters :: real
  lastReset :: "string option"
  completed :: bool
  completedAt :: "int option"

text \<open>
  The source compares \<^verbatim>\<open>chal.period\<close> with \<^verbatim>\<open>'daily'\<close>, then with \<^verbatim>\<open>'weekly'\<close>,
  and does nothing for any other value.
\<close>

datatype period = Daily | Weekly | OtherPeriod

record challenge =
  c_id :: string
  c_name :: string
  c_period :: period
  targetMeters :: real

record rider =
  r_id :: string
  r_name :: string
  r_last :: "last_fix option"
  r_history :: "history_entry list"
  distance :: real
  score :: int
  badges :: "string list"
  r_challenges :: "string \<rightharpoonup> progress"
  createdAt :: int
  visible :: bool
  suspicious :: "nat option"
  updatedAt :: "int option"

text \<open>
  \<^verbatim>\<open>DATA\<close>. \<^verbatim>\<open>DATA.challenges\<close> is an object that the source walks with
  \<^verbatim>\<open>Object.entries\<close>: an association list in iteration order.
\<close>

record data =
  riders :: "string \<rightharpoonup> rider"
  challenges :: "(string \<times> challenge) list"

subsection \<open>Badges and points\<close>

record badge =
  b_id :: string
  b_label :: string

definition badgeId :: "nat \<Rightarrow> string" where
  "badgeId m = ''badge_'' @ string_of_nat m"

text \<open>
  \<^verbatim>\<open>(m/1000) + ' km'\<close>; every milestone of the source is a multiple of 1000, so the
  quotient prints as an integer.
\<close>

definition badgeLabel :: "nat \<Rightarrow> string" where
  "badgeLabel m = string_of_nat (m div 1000) @ '' km''"

text \<open>The body of the loop over the milestones, on the pair (rider, newly).\<close>

definition badgeStep :: "real \<Rightarrow> real \<Rightarrow> rider \<times> badge list \<Rightarrow> nat \<Rightarrow> rider \<times> badge list" where
  "badgeStep prevDistance newDistance acc m =
     (let (rider, newly) = acc in
      if prevDistance < real m \<and> newDistance \<ge> real m then
        (let bid = badgeId m in
         if bid \<notin> set (badges rider) then
           (rider\<lparr>badges := badges rider @ [bid]\<rparr>,
            newly @ [\<lparr>b_id = bid, b_label = badgeLabel m\<rparr>])
         else (rider, newly))
      else (rider, newly))"

definition checkAndAwardBadges :: "rider \<Rightarrow> real \<Rightarrow> real \<Rightarrow> rider \<times> badge list" where
  "checkAndAwardBadges rider prevDistance newDistance =
     foldl (badgeStep prevDistance newDistance) (rider, []) BADGE_MILESTONES_METERS"

text \<open>Returns the rider and the pair \<^verbatim>\<open>{ kmsGained, pointsGained }\<close>.\<close>

definition awardPointsPerKm :: "rider \<Rightarrow> real \<Rightarrow> real \<Rightarrow> rider \<times> int \<times> int" where
  "awardPointsPerKm rider prevDistance newDistance =
     (let prevKm = \<lfloor>prevDistance / 1000\<rfloor>;
          newKm = \<lfloor>newDistance / 1000\<rfloor>;
          kmsGained = max 0 (newKm - prevKm);
          pointsGained = kmsGained * POINTS_PER_KM
      in (if pointsGained \<noteq> 0 then rider\<lparr>score := score rider + pointsGained\<rparr> else rider,
          kmsGained, pointsGained))"

subsection \<open>Runtime: \<^verbatim>\<open>Date\<close>\<close>

text \<open>
  A \<^verbatim>\<open>Date\<close> holds a time value, milliseconds since 1970-01-01T00:00:00Z, which is
  valid up to 8.64e15 in absolute value; \<^verbatim>\<open>toISOString\<close> raises \<^verbatim>\<open>RangeError\<close> on an
  invalid one. The calendar is the proleptic Gregorian one.
\<close>

definition MS_PER_DAY :: int where
  "MS_PER_DAY = 86400000"

definition validTime :: "int \<Rightarrow> bool" where
  "validTime t \<longleftrightarrow> \<bar>t\<bar> \<le> 8640000000000000"

text \<open>Year, month (1 to 12) and day of the month of a day number (days since the epoch).\<close>

definition civil_from_days :: "int \<Rightarrow> int \<times> int \<times> int" where
  "civil_from_days n =
     (let z = n + 719468;
          era = z div 146097;
          doe = z mod 146097;
          yoe = (doe - doe div 1460 + doe div 36524 - doe div 146096) div 365;
          y = yoe + era * 400;
          doy = doe - (365 * yoe + yoe div 4 - yoe div 100);
          mp = (5 * doy + 2) div 153;
          d = doy - (153 * mp + 2) div 5 + 1;
          m = (if mp < 10 then mp + 3 else mp - 9)
      in (if m \<le> 2 then y + 1 else y, m, d))"

text \<open>The day of the week of a day number, 0 for Sunday; day 0 was a Thursday.\<close>

definition weekday :: "int \<Rightarrow> int" where
  "weekday n = (n + 4) mod 7"

text \<open>
  The first ten characters of \<^verbatim>\<open>toISOString()\<close> for a valid time value:
  \<^verbatim>\<open>YYYY-MM-DD\<close> in UTC for the years 0 to 9999; outside them the year is printed with
  a sign and six digits, and ten characters end after the month.
\<close>

definition isoDate10 :: "int \<Rightarrow> string" where
  "isoDate10 t =
     (let (y, m, d) = civil_from_days (t div MS_PER_DAY) in
      if 0 \<le> y \<and> y \<le> 9999
      then pad_digits 4 (nat y) @ ''-'' @ pad_digits 2 (nat m) @ ''-'' @ pad_digits 2 (nat d)
      else (if y < 0 then ''-'' else ''+'') @ pad_digits 6 (nat \<bar>y\<bar>) @ ''-'' @ pad_digits 2 (nat m))"

text \<open>\<^verbatim>\<open>new Date(t).toISOString().slice(0,10)\<close>; \<open>None\<close> is the \<^verbatim>\<open>RangeError\<close>.\<close>

definition toISOString_slice :: "int \<Rightarrow> string option" where
  "toISOString_slice t = (if validTime t then Some (isoDate10 t) else None)"

text \<open>
  \<^verbatim>\<open>getDay()\<close> reads the day of the week in the server's local time. \<open>tz\<close> is the
  offset of local time from UTC in minutes (a fixed offset; no daylight saving changes).
\<close>

definition getDay :: "int \<Rightarrow> int \<Rightarrow> int" where
  "getDay tz t = weekday ((t + tz * 60000) div MS_PER_DAY)"

subsection \<open>Challenges\<close>

record challenge_event =
  e_challengeId :: string
  e_riderId :: string
  e_bonusPoints :: int

definition dayKey :: "int \<Rightarrow> string option" where
  "dayKey t = toISOString_slice t"

text \<open>
  \<^verbatim>\<open>start.setDate(now.getDate()-diff)\<close> moves the local date back by \<open>diff\<close> days and
  keeps the local time of day: the time value decreases by \<open>diff\<close> days (and becomes
  invalid when it leaves the valid range).
\<close>

definition weekKey :: "int \<Rightarrow> int \<Rightarrow> string option" where
  "weekKey tz t =
     (if validTime t then
        (let day = getDay tz t;
             diff = (day + 6) mod 7;
             start = t - diff * MS_PER_DAY
         in toISOString_slice start)
      else None)"

definition freshProgress :: progress where
  "freshProgress = \<lparr>progressMeters = 0, lastReset = None, completed = False, completedAt = None\<rparr>"

text \<open>Line 133 and 134: the progress of the rider for a challenge, created when absent.\<close>

definition storedProgress :: "rider \<Rightarrow> string \<Rightarrow> progress" where
  "storedProgress rider cid =
     (case r_challenges rider cid of None \<Rightarrow> freshProgress | Some prog \<Rightarrow> prog)"

text \<open>The reset of lines 137 and 141, for the key \<open>k\<close> of the sample.\<close>

definition rollover :: "string \<Rightarrow> progress \<Rightarrow> progress" where
  "rollover k prog =
     (if lastReset prog \<noteq> Some k
      then prog\<lparr>progressMeters := 0, lastReset := Some k, completed := False\<rparr>
      else prog)"

text \<open>
  Lines 135 to 142: the reset for the period of the challenge. \<open>None\<close> is the
  \<^verbatim>\<open>RangeError\<close> of \<^verbatim>\<open>toISOString\<close>.
\<close>

definition resetWindow :: "int \<Rightarrow> period \<Rightarrow> int \<Rightarrow> progress \<Rightarrow> progress option" where
  "resetWindow tz per t prog =
     (case per of
        Daily \<Rightarrow> map_option (\<lambda>dayKey. rollover dayKey prog) (dayKey t)
      | Weekly \<Rightarrow> map_option (\<lambda>weekKey. rollover weekKey prog) (weekKey tz t)
      | OtherPeriod \<Rightarrow> Some prog)"

text \<open>
  One iteration of the loop over \<^verbatim>\<open>Object.entries(DATA.challenges)\<close>, on the pair
  (rider, events). \<open>Inl\<close> is the rider as it stands when \<^verbatim>\<open>toISOString\<close> raises.
  \<open>clock\<close> is \<^verbatim>\<open>Date.now()\<close>, \<open>t\<close> the time value of \<^verbatim>\<open>now\<close>.
\<close>

definition challengeStep ::
  "int \<Rightarrow> int \<Rightarrow> real \<Rightarrow> int \<Rightarrow> rider \<times> challenge_event list \<Rightarrow> string \<times> challenge
     \<Rightarrow> rider + rider \<times> challenge_event list" where
  "challengeStep tz clock addedMeters t acc entry =
     (let (rider, events) = acc;
          (cid, chal) = entry;
          prog0 = storedProgress rider cid;
          store = (\<lambda>prog. rider\<lparr>r_challenges := (r_challenges rider)(cid \<mapsto> prog)\<rparr>)
      in case resetWindow tz (c_period chal) t prog0 of
           None \<Rightarrow> Inl (store prog0)
         | Some prog1 \<Rightarrow>
             if completed prog1 then Inr (store prog1, events)
             else
               (let prog2 = prog1\<lparr>progressMeters := progressMeters prog1 + addedMeters\<rparr> in
                if progressMeters prog2 \<ge> targetMeters chal then
                  (let prog3 = prog2\<lparr>completed := True, completedAt := Some clock\<rparr>;
                       bonus = \<lfloor>targetMeters chal / 1000\<rfloor> * 5
                   in Inr ((store prog3)\<lparr>score := score rider + bonus\<rparr>,
                           events @ [\<lparr>e_challengeId = cid, e_riderId = r_id rider,
                                      e_bonusPoints = bonus\<rparr>]))
                else Inr (store prog2, events)))"

fun challengeLoop ::
  "int \<Rightarrow> int \<Rightarrow> real \<Rightarrow> int \<Rightarrow> rider \<times> challenge_event list \<Rightarrow> (string \<times> challenge) list
     \<Rightarrow> rider + rider \<times> challenge_event list" where
  "challengeLoop tz clock addedMeters t acc [] = Inr acc"
| "challengeLoop tz clock addedMeters t acc (entry # entries) =
     (case challengeStep tz clock addedMeters t acc entry of
        Inl rider \<Rightarrow> Inl rider
      | Inr acc' \<Rightarrow> challengeLoop tz clock addedMeters t acc' entries)"

text \<open>
  \<open>chals\<close> is \<^verbatim>\<open>DATA.challenges\<close>; \<^verbatim>\<open>new Date(ts||Date.now())\<close> takes the clock when
  \<open>ts\<close> is 0.
\<close>

definition updateChallengesForRider ::
  "int \<Rightarrow> int \<Rightarrow> (string \<times> challenge) list \<Rightarrow> rider \<Rightarrow> real \<Rightarrow> int
     \<Rightarrow> rider + rider \<times> challenge_event list" where
  "updateChallengesForRider tz clock chals rider addedMeters ts =
     challengeLoop tz clock addedMeters (if ts = 0 then clock else ts) (rider, []) chals"

subsection \<open>Processing a position sample\<close>

text \<open>
  The payload of a \<^verbatim>\<open>position\<close> message. A coordinate that is missing or not a
  number is \<open>None\<close>; a missing (or otherwise falsy) id is the empty string; \<^verbatim>\<open>ts\<close> is
  optional.
\<close>

record payload =
  p_id :: string
  p_lat :: "real option"
  p_lon :: "real option"
  p_ts :: "int option"

datatype reason = invalid | unknown_rider | speed

datatype ack = Rejected reason | Accepted string

text \<open>What a call does: it returns an acknowledgment, or \<^verbatim>\<open>RangeError\<close> escapes from it.\<close>

datatype outcome = Returned ack | Thrown

text \<open>The objects handed to \<^verbatim>\<open>broadcastJSON\<close>.\<close>

datatype broadcast =
    rider_update string string real real int int
  | game_event string string int int "badge list" "challenge_event list"

definition push_history :: "history_entry list \<Rightarrow> history_entry \<Rightarrow> history_entry list" where
  "push_history h e = (let h' = h @ [e] in if length h' > 200 then tl h' else h')"

text \<open>\<^verbatim>\<open>payload.ts || now\<close>.\<close>

definition sampleTs :: "int \<Rightarrow> payload \<Rightarrow> int" where
  "sampleTs now p = (case p_ts p of None \<Rightarrow> now | Some t \<Rightarrow> if t = 0 then now else t)"

text \<open>\<^verbatim>\<open>rider.suspicious || 0\<close>.\<close>

definition suspiciousCount :: "rider \<Rightarrow> nat" where
  "suspiciousCount rider = (case suspicious rider of None \<Rightarrow> 0 | Some n \<Rightarrow> n)"

text \<open>Lines 180 and 181.\<close>

definition refresh :: "int \<Rightarrow> real \<Rightarrow> real \<Rightarrow> int \<Rightarrow> rider \<Rightarrow> rider" where
  "refresh now plat plon ts rider =
     rider\<lparr>r_last := Some \<lparr>fix_lat = plat, fix_lon = plon, fix_ts = ts\<rparr>, updatedAt := Some now\<rparr>"

text \<open>Line 165: the speed in km/h that a distance implies between two timestamps.\<close>

definition impliedSpeedKmh :: "real \<Rightarrow> int \<Rightarrow> int \<Rightarrow> real" where
  "impliedSpeedKmh meters ts lastTs =
     (let dt = real_of_int (ts - lastTs) / 1000;
          speedMs = (if dt > 0 then meters / dt else 0);
          speedKmh = speedMs * 3.6
      in speedKmh)"

text \<open>
  Lines 167 to 174: the updates for a movement that passed the speed test. The result
  is the rider with \<^verbatim>\<open>kmsGained\<close>, \<^verbatim>\<open>pointsGained\<close>, \<^verbatim>\<open>newlyBadges\<close> and
  \<^verbatim>\<open>challengeEvents\<close>, or \<open>Inl\<close> with the rider as it stands when \<^verbatim>\<open>RangeError\<close>
  is raised.
\<close>

definition processMove ::
  "int \<Rightarrow> int \<Rightarrow> (string \<times> challenge) list \<Rightarrow> rider \<Rightarrow> real \<Rightarrow> real \<Rightarrow> int \<Rightarrow> real
     \<Rightarrow> rider + rider \<times> int \<times> int \<times> badge list \<times> challenge_event list" where
  "processMove tz now chals rider plat plon ts meters =
     (let r1 = rider\<lparr>distance := distance rider + meters\<rparr>;
          r2 = r1\<lparr>r_history := push_history (r_history r1)
                 \<lparr>h_lat = plat, h_lon = plon, h_ts = ts, h_meters = js_round meters\<rparr>\<rparr>;
          prevDistance = distance r2 - meters;
          (r3, kmsGained, pointsGained) = awardPointsPerKm r2 prevDistance (distance r2);
          (r4, newlyBadges) = checkAndAwardBadges r3 prevDistance (distance r3)
      in case updateChallengesForRider tz now chals r4 meters ts of
           Inl r5 \<Rightarrow> Inl r5
         | Inr (r5, challengeEvents) \<Rightarrow>
             Inr (r5, kmsGained, pointsGained, newlyBadges, challengeEvents))"

text \<open>
  \<open>now\<close> is \<^verbatim>\<open>Date.now()\<close>, taken once for the whole call. The result is what the call
  does, \<^verbatim>\<open>DATA\<close> afterwards, and the broadcasts in order.
\<close>

definition handlePosition ::
  "int \<Rightarrow> int \<Rightarrow> data \<Rightarrow> payload \<Rightarrow> outcome \<times> data \<times> broadcast list" where
  "handlePosition tz now D p =
     (case (p_lat p, p_lon p) of
        (Some plat, Some plon) \<Rightarrow>
          if p_id p = [] then (Returned (Rejected invalid), D, [])
          else
            (let ts = sampleTs now p;
                 rid = p_id p
             in case riders D rid of
                  None \<Rightarrow> (Returned (Rejected unknown_rider), D, [])
                | Some rider \<Rightarrow>
                   (case r_last rider of
                      Some last' \<Rightarrow>
                        if fix_ts last' \<noteq> 0 \<and> ts > fix_ts last' then
                          (let meters = haversineMeters \<lparr>lat = fix_lat last', lon = fix_lon last'\<rparr>
                                                        \<lparr>lat = plat, lon = plon\<rparr>;
                               speedKmh = impliedSpeedKmh meters ts (fix_ts last')
                           in if speedKmh > MAX_SPEED_KMH then
                                (Returned (Rejected speed),
                                 D\<lparr>riders := (riders D)(rid \<mapsto>
                                      rider\<lparr>suspicious := Some (suspiciousCount rider + 1)\<rparr>)\<rparr>,
                                 [])
                              else
                                (case processMove tz now (challenges D) rider plat plon ts meters of
                                   Inl r5 \<Rightarrow> (Thrown, D\<lparr>riders := (riders D)(rid \<mapsto> r5)\<rparr>, [])
                                 | Inr (r5, kmsGained, pointsGained, newlyBadges, challengeEvents) \<Rightarrow>
                                     (Returned (Accepted (r_id r5)),
                                      D\<lparr>riders := (riders D)(rid \<mapsto> refresh now plat plon ts r5)\<rparr>,
                                      rider_update (r_id r5) (r_name r5) plat plon
                                         (js_round (distance r5)) (score r5)
                                      # (if kmsGained > 0 \<or> newlyBadges \<noteq> [] \<or> challengeEvents \<noteq> []
                                         then [game_event (r_id r5) (r_name r5) kmsGained
                                                 pointsGained newlyBadges challengeEvents]
                                         else []))))
                        else (Returned (Accepted (r_id rider)),
                              D\<lparr>riders := (riders D)(rid \<mapsto> refresh now plat plon ts rider)\<rparr>, [])
                    | None \<Rightarrow> (Returned (Accepted (r_id rider)),
                                D\<lparr>riders := (riders D)(rid \<mapsto> refresh now plat plon ts rider)\<rparr>, [])))
      | _ \<Rightarrow> (Returned (Rejected invalid), D, []))"

text \<open>
  A sequence of messages, each with the clock at its arrival, processed in order. A call
  from which \<^verbatim>\<open>RangeError\<close> escapes leaves \<^verbatim>\<open>DATA\<close> as it stands at that point.
\<close>

fun handleAll :: "int \<Rightarrow> data \<Rightarrow> (int \<times> payload) list \<Rightarrow> data" where
  "handleAll tz D [] = D"
| "handleAll tz D ((now, p) # rest) = handleAll tz (fst (snd (handlePosition tz now D p))) rest"

subsection \<open>Numbers that are not numbers\<close>

text \<open>
  In the double arithmetic of the runtime the sum of line 37 is rounded, and for two
  points that are nearly antipodal it can exceed 1: for the points (8, 0) and (-8, 180)
  it is \<open>1 + 1 / 2 ^ 52\<close> (printed \<^verbatim>\<open>1.0000000000000002\<close>), where the exact sum is 1.
  \<^verbatim>\<open>Math.sqrt\<close> of a negative number is \<^verbatim>\<open>NaN\<close>; \<^verbatim>\<open>NaN\<close> passes through
  \<^verbatim>\<open>Math.atan2\<close>, the products, the quotients and the sums, compares false with every
  number, and is falsy. The definitions of this subsection are lines 38 and 39 and lines
  165 to 167 on numbers that may be \<^verbatim>\<open>NaN\<close>.
\<close>

datatype jsnum = NaN | Num real

text \<open>\<^verbatim>\<open>Math.sqrt\<close>.\<close>

definition js_sqrt :: "real \<Rightarrow> jsnum" where
  "js_sqrt x = (if x < 0 then NaN else Num (sqrt x))"

text \<open>Lines 38 and 39, on the value of \<^verbatim>\<open>inside\<close> that line 37 has computed.\<close>

definition metersOfInside :: "real \<Rightarrow> jsnum" where
  "metersOfInside inside =
     (case (js_sqrt inside, js_sqrt (1 - inside)) of
        (Num y, Num x) \<Rightarrow> Num (6371000 * (2 * atan2 y x))
      | _ \<Rightarrow> NaN)"

text \<open>Line 165, on a distance that may be \<^verbatim>\<open>NaN\<close>.\<close>

definition speedKmhOf :: "jsnum \<Rightarrow> int \<Rightarrow> int \<Rightarrow> jsnum" where
  "speedKmhOf meters ts lastTs =
     (let dt = real_of_int (ts - lastTs) / 1000;
          speedMs = (if dt > 0 then (case meters of NaN \<Rightarrow> NaN | Num m \<Rightarrow> Num (m / dt))
                     else Num 0);
          speedKmh = (case speedMs of NaN \<Rightarrow> NaN | Num s \<Rightarrow> Num (s * 3.6))
      in speedKmh)"

text \<open>The test of line 166, \<^verbatim>\<open>speedKmh > MAX_SPEED_KMH\<close>.\<close>

definition exceedsMaxSpeed :: "jsnum \<Rightarrow> bool" where
  "exceedsMaxSpeed speedKmh \<longleftrightarrow>
     (case speedKmh of NaN \<Rightarrow> False | Num s \<Rightarrow> s > MAX_SPEED_KMH)"

text \<open>Line 167, \<^verbatim>\<open>(rider.distance||0) + meters\<close>, on the stored distance and the new one.\<close>

definition addMeters :: "jsnum \<Rightarrow> jsnum \<Rightarrow> jsnum" where
  "addMeters stored meters =
     (case ((case stored of NaN \<Rightarrow> Num 0 | Num x \<Rightarrow> Num x), meters) of
        (Num x, Num m) \<Rightarrow> Num (x + m)
      | _ \<Rightarrow> NaN)"

text \<open>
  Lines 165 to 167 for a sample that is compared with the stored fix: \<open>None\<close> is the
  rejection for speed, otherwise the result is the new value of \<^verbatim>\<open>rider.distance\<close>.
\<close>

definition acceptedDistance :: "jsnum \<Rightarrow> jsnum \<Rightarrow> int \<Rightarrow> int \<Rightarrow> jsnum option" where
  "acceptedDistance stored meters ts lastTs =
     (if exceedsMaxSpeed (speedKmhOf meters ts lastTs) then None
      else Some (addMeters stored meters))"

subsection \<open>Notions used in the statements\<close>

text \<open>The rider that the login route creates (line 74).\<close>

definition newRider :: "string \<Rightarrow> string \<Rightarrow> int \<Rightarrow> rider" where
  "newRider i pseudo t =
     \<lparr>r_id = i, r_name = pseudo, r_last = None, r_history = [], distance = 0, score = 0,
      badges = [], r_challenges = Map.empty, createdAt = t, visible = True,
      suspicious = None, updatedAt = None\<rparr>"

text \<open>The entry pushed on \<^verbatim>\<open>newly\<close> for a milestone, and the test that guards the push.\<close>

definition badgeOf :: "nat \<Rightarrow> badge" where
  "badgeOf m = \<lparr>b_id = badgeId m, b_label = badgeLabel m\<rparr>"

definition qualifies :: "rider \<Rightarrow> real \<Rightarrow> real \<Rightarrow> nat \<Rightarrow> bool" where
  "qualifies rider prevDistance newDistance m \<longleftrightarrow>
     prevDistance < real m \<and> real m \<le> newDistance \<and> badgeId m \<notin> set (badges rider)"

text \<open>Successive badge checks for one rider, each with its pair of distances.\<close>

fun checkAll :: "rider \<Rightarrow> (real \<times> real) list \<Rightarrow> rider" where
  "checkAll rider [] = rider"
| "checkAll rider ((prevDistance, newDistance) # rest) =
     checkAll (fst (checkAndAwardBadges rider prevDistance newDistance)) rest"

text \<open>
  The window key of a sample for a period, where the period has windows and the date can
  be printed.
\<close>

definition windowKey :: "int \<Rightarrow> period \<Rightarrow> int \<Rightarrow> string option" where
  "windowKey tz per t =
     (case per of Daily \<Rightarrow> dayKey t | Weekly \<Rightarrow> weekKey tz t | OtherPeriod \<Rightarrow> None)"

text \<open>Lines 143 to 150 on the progress that the reset leaves, and what they emit.\<close>

definition accumulate :: "int \<Rightarrow> real \<Rightarrow> challenge \<Rightarrow> progress \<Rightarrow> progress" where
  "accumulate clock addedMeters chal prog =
     (if completed prog then prog
      else if progressMeters prog + addedMeters \<ge> targetMeters chal
      then prog\<lparr>progressMeters := progressMeters prog + addedMeters, completed := True,
                completedAt := Some clock\<rparr>
      else prog\<lparr>progressMeters := progressMeters prog + addedMeters\<rparr>)"

definition completes :: "real \<Rightarrow> challenge \<Rightarrow> progress \<Rightarrow> bool" where
  "completes addedMeters chal prog \<longleftrightarrow>
     \<not> completed prog \<and> progressMeters prog + addedMeters \<ge> targetMeters chal"

definition bonusOf :: "challenge \<Rightarrow> int" where
  "bonusOf chal = \<lfloor>targetMeters chal / 1000\<rfloor> * 5"

definition completionEvents ::
  "int \<Rightarrow> real \<Rightarrow> int \<Rightarrow> rider \<Rightarrow> string \<times> challenge \<Rightarrow> challenge_event list" where
  "completionEvents tz addedMeters t rider entry =
     (case resetWindow tz (c_period (snd entry)) t (storedProgress rider (fst entry)) of
        None \<Rightarrow> []
      | Some prog \<Rightarrow>
          if completes addedMeters (snd entry) prog
          then [\<lparr>e_challengeId = fst entry, e_riderId = r_id rider,
                 e_bonusPoints = bonusOf (snd entry)\<rparr>]
          else [])"

text \<open>The rider after one iteration of the challenge loop that did not raise.\<close>

definition stepRider :: "int \<Rightarrow> real \<Rightarrow> challenge \<Rightarrow> string \<Rightarrow> progress \<Rightarrow> rider \<Rightarrow> rider" where
  "stepRider clock d chal cid prog1 r =
     r\<lparr>r_challenges := (r_challenges r)(cid \<mapsto> accumulate clock d chal prog1),
       score := score r + (if completes d chal prog1 then bonusOf chal else 0)\<rparr>"

text \<open>
  The test of line 163, which decides whether a sample is compared with the stored fix,
  and the distance and the speed that lines 164 and 165 compute then.
\<close>

definition moves :: "int \<Rightarrow> rider \<Rightarrow> payload \<Rightarrow> bool" where
  "moves now rider p \<longleftrightarrow>
     (case r_last rider of
        None \<Rightarrow> False
      | Some l \<Rightarrow> fix_ts l \<noteq> 0 \<and> sampleTs now p > fix_ts l)"

definition sampleMeters :: "rider \<Rightarrow> payload \<Rightarrow> real" where
  "sampleMeters rider p =
     (case (r_last rider, p_lat p, p_lon p) of
        (Some l, Some plat, Some plon) \<Rightarrow>
           haversineMeters \<lparr>lat = fix_lat l, lon = fix_lon l\<rparr> \<lparr>lat = plat, lon = plon\<rparr>
      | _ \<Rightarrow> 0)"

definition sampleSpeedKmh :: "int \<Rightarrow> rider \<Rightarrow> payload \<Rightarrow> real" where
  "sampleSpeedKmh now rider p =
     (case r_last rider of
        None \<Rightarrow> 0
      | Some l \<Rightarrow> impliedSpeedKmh (sampleMeters rider p) (sampleTs now p) (fix_ts l))"

text \<open>The rider that enters the challenge loop (lines 167 to 173).\<close>

definition scoredRider :: "rider \<Rightarrow> real \<Rightarrow> real \<Rightarrow> int \<Rightarrow> real \<Rightarrow> rider" where
  "scoredRider rider plat plon ts meters =
     rider\<lparr>distance := distance rider + meters,
           r_history := push_history (r_history rider)
              \<lparr>h_lat = plat, h_lon = plon, h_ts = ts, h_meters = js_round meters\<rparr>,
           score := score rider
              + max 0 (\<lfloor>(distance rider + meters) / 1000\<rfloor> - \<lfloor>distance rider / 1000\<rfloor>) * 10,
           badges := badges rider @ map badgeId
              (filter (qualifies rider (distance rider) (distance rider + meters))
                 BADGE_MILESTONES_METERS)\<rparr>"

text \<open>The challenges that the server seeds at startup (lines 49 to 54).\<close>

definition defaultChallenges :: "(string \<times> challenge) list" where
  "defaultChallenges =
     [(''daily_1km'', \<lparr>c_id = ''daily_1km'', c_name = ''1 km par jour'', c_period = Daily,
                        targetMeters = 1000\<rparr>),
      (''weekly_5km'', \<lparr>c_id = ''weekly_5km'', c_name = ''5 km par semaine'', c_period = Weekly,
                         targetMeters = 5000\<rparr>)]"

text \<open>A rider whose last fix is given, and a table with the seeded challenges and one rider.\<close>

definition riderAt :: "real \<Rightarrow> real \<Rightarrow> int \<Rightarrow> rider" where
  "riderAt la lo t =
     (newRider ''r1'' ''Ada'' 1)\<lparr>r_last := Some \<lparr>fix_lat = la, fix_lon = lo, fix_ts = t\<rparr>\<rparr>"

text \<open>The same rider with a stored progress for the daily or for the weekly challenge.\<close>

definition riderDaily :: "real \<Rightarrow> real \<Rightarrow> int \<Rightarrow> progress \<Rightarrow> rider" where
  "riderDaily la lo t prog = (riderAt la lo t)\<lparr>r_challenges := [''daily_1km'' \<mapsto> prog]\<rparr>"

definition riderWeekly :: "real \<Rightarrow> real \<Rightarrow> int \<Rightarrow> progress \<Rightarrow> rider" where
  "riderWeekly la lo t prog = (riderAt la lo t)\<lparr>r_challenges := [''weekly_5km'' \<mapsto> prog]\<rparr>"

definition oneRider :: "rider \<Rightarrow> data" where
  "oneRider rider = \<lparr>riders = [''r1'' \<mapsto> rider], challenges = defaultChallenges\<rparr>"

definition sample :: "real \<Rightarrow> real \<Rightarrow> int \<Rightarrow> payload" where
  "sample la lo t = \<lparr>p_id = ''r1'', p_lat = Some la, p_lon = Some lo, p_ts = Some t\<rparr>"

text \<open>
  A sample that is not newer than the stored fix of its rider: a duplicate or an
  out-of-order sample.
\<close>

definition stale :: "int \<Rightarrow> data \<Rightarrow> payload \<Rightarrow> bool" where
  "stale now D p \<longleftrightarrow>
     p_lat p \<noteq> None \<and> p_lon p \<noteq> None \<and> p_id p \<noteq> [] \<and>
     (case riders D (p_id p) of
        None \<Rightarrow> False
      | Some rider \<Rightarrow>
          (case r_last rider of None \<Rightarrow> False | Some l \<Rightarrow> sampleTs now p \<le> fix_ts l))"

text \<open>Every message of the sequence is such a sample when its turn comes.\<close>

fun allStale :: "int \<Rightarrow> data \<Rightarrow> (int \<times> payload) list \<Rightarrow> bool" where
  "allStale tz D [] = True"
| "allStale tz D ((now, p) # rest) =
     (stale now D p \<and> allStale tz (fst (snd (handlePosition tz now D p))) rest)"

text \<open>What the calls of a sequence do, and what they broadcast.\<close>

fun outcomes :: "int \<Rightarrow> data \<Rightarrow> (int \<times> payload) list \<Rightarrow> outcome list" where
  "outcomes tz D [] = []"
| "outcomes tz D ((now, p) # rest) =
     fst (handlePosition tz now D p) # outcomes tz (fst (snd (handlePosition tz now D p))) rest"

fun broadcasts :: "int \<Rightarrow> data \<Rightarrow> (int \<times> payload) list \<Rightarrow> broadcast list" where
  "broadcasts tz D [] = []"
| "broadcasts tz D ((now, p) # rest) =
     snd (snd (handlePosition tz now D p))
     @ broadcasts tz (fst (snd (handlePosition tz now D p))) rest"

text \<open>
  Successive calls of \<^verbatim>\<open>updateChallengesForRider\<close> for one rider, each with the clock,
  the added distance and the timestamp of its sample; the events of all calls in order.
\<close>

fun updateAll ::
  "int \<Rightarrow> (string \<times> challenge) list \<Rightarrow> rider \<Rightarrow> (int \<times> real \<times> int) list
     \<Rightarrow> rider + rider \<times> challenge_event list" where
  "updateAll tz chals rider [] = Inr (rider, [])"
| "updateAll tz chals rider ((clock, addedMeters, ts) # rest) =
     (case updateChallengesForRider tz clock chals rider addedMeters ts of
        Inl r \<Rightarrow> Inl r
      | Inr (rider1, events1) \<Rightarrow>
          (case updateAll tz chals rider1 rest of
             Inl r \<Rightarrow> Inl r
           | Inr (rider2, events2) \<Rightarrow> Inr (rider2, events1 @ events2)))"

text \<open>The stored progress of the rider for the challenge is completed under the key \<open>k\<close>.\<close>

definition completedIn :: "string \<Rightarrow> rider \<Rightarrow> string \<Rightarrow> bool" where
  "completedIn k rider cid \<longleftrightarrow>
     (case r_challenges rider cid of
        None \<Rightarrow> False
      | Some prog \<Rightarrow> lastReset prog = Some k \<and> completed prog)"

text \<open>The value of \<^verbatim>\<open>inside\<close> (line 37) in exact arithmetic.\<close>

definition haversineInside :: "coord \<Rightarrow> coord \<Rightarrow> real" where
  "haversineInside a b =
     (let dLat = toRad (lat b - lat a);
          dLon = toRad (lon b - lon a);
          lat1 = toRad (lat a);
          lat2 = toRad (lat b);
          sinDlat = sin (dLat / 2);
          sinDlon = sin (dLon / 2)
      in sinDlat * sinDlat + cos lat1 * cos lat2 * sinDlon * sinDlon)"

text \<open>
  The stored fix of the rider \<open>rid\<close> after a sequence of accepted messages, from the fix
  \<open>l\<close> before them: line 180 stores the position and the timestamp of each sample of
  the rider.
\<close>

fun fixAfter :: "string \<Rightarrow> last_fix option \<Rightarrow> (int \<times> payload) list \<Rightarrow> last_fix option" where
  "fixAfter rid l [] = l"
| "fixAfter rid l ((now, p) # rest) =
     fixAfter rid
       (if p_id p = rid then
          (case (p_lat p, p_lon p) of
             (Some plat, Some plon) \<Rightarrow>
               Some \<lparr>fix_lat = plat, fix_lon = plon, fix_ts = sampleTs now p\<rparr>
           | _ \<Rightarrow> l)
        else l)
       rest"

text \<open>The \<^verbatim>\<open>challenge_completed\<close> events that a broadcast carries.\<close>

fun challengeEventsOf :: "broadcast \<Rightarrow> challenge_event list" where
  "challengeEventsOf (rider_update rid name plat plon meters points) = []"
| "challengeEventsOf (game_event rid name kmsGained pointsGained newlyBadges challengeEvents) =
     challengeEvents"

section \<open>Properties\<close>

subsection \<open>Distances are not negative\<close>

lemma atan2_nonneg: "0 \<le> y \<Longrightarrow> 0 \<le> atan2 y x"
proof -
  assume y: "0 \<le> y"
  have "x < 0 \<Longrightarrow> 0 \<le> arctan (y / x) + pi"
    using arctan_lbound [of "y / x"] pi_gt_zero by linarith
  moreover have "0 < x \<Longrightarrow> 0 \<le> arctan (y / x)"
    using y by simp
  ultimately show ?thesis
    using y by (simp add: atan2_def)
qed

lemma hav_inside_nonneg:
  fixes a b u :: real
  shows "0 \<le> sin ((b - a) / 2) * sin ((b - a) / 2) + cos a * cos b * sin u * sin u"
proof -
  let ?p = "sin ((b - a) / 2) * sin ((b - a) / 2)"
  let ?s = "sin u * sin u"
  have s0: "0 \<le> ?s" by simp
  have s1: "?s \<le> 1"
    using sin_squared_eq [of u] zero_le_power2 [of "cos u"] by (simp add: power2_eq_square)
  have p0: "0 \<le> ?p" by simp
  have "2 * ((b - a) / 2) = b - a" by simp
  then have cd: "cos (b - a) = 1 - 2 * ?p"
    using cos_double_sin [of "(b - a) / 2"] by (simp only: power2_eq_square)
  have "cos (b - a) + cos (b + a) = 2 * (cos a * cos b)"
    by (simp add: cos_diff cos_add)
  moreover have "- 1 \<le> cos (b + a)" by simp
  ultimately have k: "- ?p \<le> cos a * cos b"
    using cd by linarith
  have "- ?p * ?s \<le> cos a * cos b * ?s"
    using k s0 by (rule mult_right_mono)
  moreover have "?p * ?s \<le> ?p * 1"
    using s1 p0 by (rule mult_left_mono)
  ultimately show ?thesis by (simp add: algebra_simps)
qed

text \<open>
  The argument of the second square root is not negative either: both square roots of
  \<^verbatim>\<open>haversineMeters\<close> are taken of numbers between 0 and 1.
\<close>

lemma hav_inside_le_one:
  fixes a b u :: real
  shows "sin ((b - a) / 2) * sin ((b - a) / 2) + cos a * cos b * sin u * sin u \<le> 1"
proof -
  let ?p = "sin ((b - a) / 2) * sin ((b - a) / 2)"
  let ?s = "sin u * sin u"
  have s0: "0 \<le> ?s" by simp
  have s1: "?s \<le> 1"
    using sin_squared_eq [of u] zero_le_power2 [of "cos u"] by (simp add: power2_eq_square)
  have p1: "?p \<le> 1"
    using sin_squared_eq [of "(b - a) / 2"] zero_le_power2 [of "cos ((b - a) / 2)"]
    by (simp add: power2_eq_square)
  have "2 * ((b - a) / 2) = b - a" by simp
  then have cd: "cos (b - a) = 1 - 2 * ?p"
    using cos_double_sin [of "(b - a) / 2"] by (simp only: power2_eq_square)
  have "cos (b - a) + cos (b + a) = 2 * (cos a * cos b)"
    by (simp add: cos_diff cos_add)
  moreover have "cos (b + a) \<le> 1" by simp
  ultimately have k: "cos a * cos b \<le> 1 - ?p"
    using cd by linarith
  have "cos a * cos b * ?s \<le> (1 - ?p) * ?s"
    using k s0 by (rule mult_right_mono)
  moreover have "(1 - ?p) * ?s \<le> (1 - ?p) * 1"
    using s1 p1 by (intro mult_left_mono) simp_all
  ultimately show ?thesis by (simp add: algebra_simps)
qed

lemma haversineMeters_nonneg: "0 \<le> haversineMeters a b"
proof -
  have eq: "toRad (lat b - lat a) = toRad (lat b) - toRad (lat a)"
    by (simp add: toRad_def algebra_simps diff_divide_distrib)
  have "0 \<le> sin (toRad (lat b - lat a) / 2) * sin (toRad (lat b - lat a) / 2)
           + cos (toRad (lat a)) * cos (toRad (lat b))
             * sin (toRad (lon b - lon a) / 2) * sin (toRad (lon b - lon a) / 2)"
    unfolding eq by (rule hav_inside_nonneg)
  then have "0 \<le> atan2 (sqrt (sin (toRad (lat b - lat a) / 2) * sin (toRad (lat b - lat a) / 2)
           + cos (toRad (lat a)) * cos (toRad (lat b))
             * sin (toRad (lon b - lon a) / 2) * sin (toRad (lon b - lon a) / 2))) x" for x
    by (intro atan2_nonneg) simp
  then show ?thesis
    by (simp add: haversineMeters_def Let_def)
qed

lemma haversine_same: "haversineMeters a a = 0"
  by (simp add: haversineMeters_def Let_def toRad_def atan2_def)

lemma haversine_half_turn:
  "haversineMeters \<lparr>lat = 0, lon = 0\<rparr> \<lparr>lat = 0, lon = 180\<rparr> = 6371000 * pi"
  by (simp add: haversineMeters_def Let_def toRad_def atan2_def)

subsection \<open>Distances that are not numbers\<close>

text \<open>
  In exact arithmetic \<^verbatim>\<open>inside\<close> is between 0 and 1, and lines 38 and 39 give the
  distance of the embedding. For the points (8, 0) and (-8, 180) it is exactly 1.
\<close>

lemma haversineInside_bounds: "0 \<le> haversineInside a b" "haversineInside a b \<le> 1"
proof -
  have eq: "toRad (lat b - lat a) = toRad (lat b) - toRad (lat a)"
    by (simp add: toRad_def algebra_simps diff_divide_distrib)
  show "0 \<le> haversineInside a b"
    unfolding haversineInside_def Let_def eq by (rule hav_inside_nonneg)
  show "haversineInside a b \<le> 1"
    unfolding haversineInside_def Let_def eq by (rule hav_inside_le_one)
qed

lemma metersOfInside_exact: "metersOfInside (haversineInside a b) = Num (haversineMeters a b)"
proof -
  have "haversineMeters a b
          = 6371000 * (2 * atan2 (sqrt (haversineInside a b)) (sqrt (1 - haversineInside a b)))"
    by (simp add: haversineMeters_def haversineInside_def Let_def)
  then show ?thesis
    using haversineInside_bounds [of a b] by (simp add: metersOfInside_def js_sqrt_def)
qed

lemma haversineInside_antipodes:
  "haversineInside \<lparr>lat = 8, lon = 0\<rparr> \<lparr>lat = - 8, lon = 180\<rparr> = 1"
proof -
  have a: "toRad (- 8 - 8) / 2 = - toRad 8" and b: "toRad (- 8) = - toRad 8"
    and c: "toRad (180 - 0) / 2 = pi / 2"
    by (simp_all add: toRad_def)
  have "sin (- toRad 8) * sin (- toRad 8)
          + cos (toRad 8) * cos (- toRad 8) * sin (pi / 2) * sin (pi / 2) = 1"
    using sin_cos_squared_add [of "toRad 8"] by (simp add: power2_eq_square)
  then show ?thesis
    unfolding haversineInside_def Let_def coord.simps a b c .
qed

text \<open>As soon as the computed sum exceeds 1, the distance is \<^verbatim>\<open>NaN\<close>.\<close>

lemma metersOfInside_above_one: "1 < x \<Longrightarrow> metersOfInside x = NaN"
  by (simp add: metersOfInside_def js_sqrt_def)

text \<open>On numbers, lines 165 to 167 are those of the embedding.\<close>

lemma speedKmhOf_Num: "speedKmhOf (Num m) ts lastTs = Num (impliedSpeedKmh m ts lastTs)"
proof (cases "real_of_int (ts - lastTs) / 1000 > 0")
  case True
  then show ?thesis
    unfolding speedKmhOf_def impliedSpeedKmh_def Let_def
    by (simp only: if_True jsnum.case)
next
  case False
  then show ?thesis
    unfolding speedKmhOf_def impliedSpeedKmh_def Let_def
    by (simp only: if_False jsnum.case)
qed

lemma speedKmhOf_NaN: "speedKmhOf NaN ts lastTs = NaN \<or> speedKmhOf NaN ts lastTs = Num 0"
  by (simp add: speedKmhOf_def Let_def)

lemma acceptedDistance_numbers:
  "acceptedDistance (Num x) (Num m) ts lastTs =
     (if impliedSpeedKmh m ts lastTs > MAX_SPEED_KMH then None else Some (Num (x + m)))"
  by (simp add: acceptedDistance_def exceedsMaxSpeed_def speedKmhOf_Num addMeters_def)

text \<open>A distance that is \<^verbatim>\<open>NaN\<close> is never rejected, and makes the stored distance \<^verbatim>\<open>NaN\<close>.\<close>

lemma acceptedDistance_NaN: "acceptedDistance stored NaN ts lastTs = Some NaN"
proof -
  have "\<not> exceedsMaxSpeed (speedKmhOf NaN ts lastTs)"
    using speedKmhOf_NaN [of ts lastTs]
    by (auto simp: exceedsMaxSpeed_def MAX_SPEED_KMH_def)
  then show ?thesis
    by (simp add: acceptedDistance_def addMeters_def split: jsnum.splits)
qed

subsection \<open>Points per kilometre\<close>

lemma awardPointsPerKm_eq:
  "awardPointsPerKm rider prevDistance newDistance =
     (let kmsGained = max 0 (\<lfloor>newDistance / 1000\<rfloor> - \<lfloor>prevDistance / 1000\<rfloor>);
          pointsGained = kmsGained * 10
      in (rider\<lparr>score := score rider + pointsGained\<rparr>, kmsGained, pointsGained))"
  by (simp add: awardPointsPerKm_def Let_def POINTS_PER_KM_def)

text \<open>
  Claim C8. For all distances, the points award returns
  \<open>kmsGained = max 0 (floor (newDistance / 1000) - floor (prevDistance / 1000))\<close> and
  \<open>pointsGained = kmsGained * 10\<close>, adds exactly \<open>pointsGained\<close> to the score of the
  rider and changes nothing else of the rider. When \<open>prevDistance \<le> newDistance\<close>, as
  for the non-negative distances of the claim, the maximum does not clamp:
  \<open>kmsGained\<close> is the difference of the two floors.
\<close>

theorem awardPointsPerKm_award:
  assumes "awardPointsPerKm rider prevDistance newDistance = (rider', kmsGained, pointsGained)"
  shows "kmsGained = max 0 (\<lfloor>newDistance / 1000\<rfloor> - \<lfloor>prevDistance / 1000\<rfloor>)
       \<and> pointsGained = kmsGained * 10
       \<and> score rider' = score rider + pointsGained
       \<and> rider' = rider\<lparr>score := score rider + pointsGained\<rparr>
       \<and> (prevDistance \<le> newDistance \<longrightarrow>
            kmsGained = \<lfloor>newDistance / 1000\<rfloor> - \<lfloor>prevDistance / 1000\<rfloor>)"
proof -
  have mono: "prevDistance \<le> newDistance \<longrightarrow>
                \<lfloor>prevDistance / 1000\<rfloor> \<le> \<lfloor>newDistance / 1000\<rfloor>"
    by (auto intro!: floor_mono)
  let ?k = "max 0 (\<lfloor>newDistance / 1000\<rfloor> - \<lfloor>prevDistance / 1000\<rfloor>)"
  from assms have "(rider\<lparr>score := score rider + ?k * 10\<rparr>, ?k, ?k * 10)
                     = (rider', kmsGained, pointsGained)"
    by (simp only: awardPointsPerKm_eq Let_def)
  then have e: "rider\<lparr>score := score rider + ?k * 10\<rparr> = rider'" "?k = kmsGained"
    "?k * 10 = pointsGained"
    by blast+
  note k = e(2) [symmetric]
  from e(2,3) have p: "pointsGained = kmsGained * 10" by (simp only:)
  from e(1,3) have r: "rider' = rider\<lparr>score := score rider + pointsGained\<rparr>" by (simp only:)
  from r have s: "score rider' = score rider + pointsGained" by simp
  from k mono have "prevDistance \<le> newDistance \<longrightarrow>
            kmsGained = \<lfloor>newDistance / 1000\<rfloor> - \<lfloor>prevDistance / 1000\<rfloor>"
    by (simp add: max_def)
  with k p s r show ?thesis by (intro conjI)
qed

theorem awardPointsPerKm_award_witness:
  "awardPointsPerKm (newRider ''r1'' ''Ada'' 1) 999 2000
     = ((newRider ''r1'' ''Ada'' 1)\<lparr>score := 20\<rparr>, 2, 20)
   \<and> (2::int) = max 0 (\<lfloor>2000 / 1000 :: real\<rfloor> - \<lfloor>999 / 1000 :: real\<rfloor>)
   \<and> (20::int) = 2 * 10
   \<and> score ((newRider ''r1'' ''Ada'' 1)\<lparr>score := 20\<rparr>) = score (newRider ''r1'' ''Ada'' 1) + 20
   \<and> (999::real) \<le> 2000"
proof -
  have f: "\<lfloor>2000 / 1000 :: real\<rfloor> = 2" "\<lfloor>999 / 1000 :: real\<rfloor> = 0"
    by (simp_all add: floor_eq_iff)
  have run: "awardPointsPerKm (newRider ''r1'' ''Ada'' 1) 999 2000
     = ((newRider ''r1'' ''Ada'' 1)\<lparr>score := 20\<rparr>, 2, 20)"
    by (simp add: awardPointsPerKm_eq f newRider_def)
  from awardPointsPerKm_award [OF run] run show ?thesis
    by (simp add: f newRider_def)
qed

subsection \<open>Badges\<close>

lemma badgeStep_cases:
  "badgeStep p n (r, nw) m =
     (if qualifies r p n m then (r\<lparr>badges := badges r @ [badgeId m]\<rparr>, nw @ [badgeOf m])
      else (r, nw))"
  by (simp add: badgeStep_def qualifies_def badgeOf_def Let_def)

lemma badge_fold:
  "distinct (map badgeId ms) \<Longrightarrow>
   foldl (badgeStep p n) (r, nw) ms =
     (r\<lparr>badges := badges r @ map badgeId (filter (qualifies r p n) ms)\<rparr>,
      nw @ map badgeOf (filter (qualifies r p n) ms))"
proof (induction ms arbitrary: r nw)
  case Nil
  show ?case by simp
next
  case (Cons m ms)
  from Cons.prems have dms: "distinct (map badgeId ms)"
    and fresh: "\<And>m'. m' \<in> set ms \<Longrightarrow> badgeId m' \<noteq> badgeId m"
    by (simp, metis distinct.simps(2) imageI list.simps(9) set_map)
  show ?case
  proof (cases "qualifies r p n m")
    case True
    let ?r1 = "r\<lparr>badges := badges r @ [badgeId m]\<rparr>"
    have same: "filter (qualifies ?r1 p n) ms = filter (qualifies r p n) ms"
      by (rule filter_cong) (auto simp: qualifies_def dest: fresh)
    show ?thesis
      using True by (simp add: badgeStep_cases Cons.IH [OF dms] same)
  next
    case False
    then show ?thesis
      by (simp add: badgeStep_cases Cons.IH [OF dms])
  qed
qed

lemma milestone_ids:
  "map badgeId BADGE_MILESTONES_METERS =
     [''badge_1000'', ''badge_5000'', ''badge_10000'', ''badge_25000'', ''badge_50000'',
      ''badge_100000'']"
  by (simp add: BADGE_MILESTONES_METERS_def badgeId_def string_of_nat.simps digit_char_def)

lemma milestone_ids_distinct: "distinct (map badgeId BADGE_MILESTONES_METERS)"
  unfolding milestone_ids by simp

lemma checkAndAwardBadges_eq:
  "checkAndAwardBadges rider p n =
     (rider\<lparr>badges := badges rider
               @ map badgeId (filter (qualifies rider p n) BADGE_MILESTONES_METERS)\<rparr>,
      map badgeOf (filter (qualifies rider p n) BADGE_MILESTONES_METERS))"
  by (simp add: checkAndAwardBadges_def badge_fold [OF milestone_ids_distinct])

lemma b_id_badgeOf: "map b_id (map badgeOf ms) = map badgeId ms"
  by (induction ms) (simp_all add: badgeOf_def)

lemma checkAndAwardBadges_distinct:
  assumes "distinct (badges rider)"
  shows "distinct (badges (fst (checkAndAwardBadges rider p n)))"
proof -
  have "distinct (map badgeId (filter (qualifies rider p n) BADGE_MILESTONES_METERS))"
    using milestone_ids_distinct by (rule distinct_map_filter)
  moreover have "set (map badgeId (filter (qualifies rider p n) BADGE_MILESTONES_METERS))
                   \<inter> set (badges rider) = {}"
    by (auto simp: qualifies_def)
  ultimately show ?thesis
    using assms by (auto simp: checkAndAwardBadges_eq)
qed

lemma checkAll_distinct:
  "distinct (badges rider) \<Longrightarrow> distinct (badges (checkAll rider calls))"
proof (induction calls arbitrary: rider)
  case Nil
  then show ?case by simp
next
  case (Cons c calls)
  obtain p n where c: "c = (p, n)" by (cases c)
  from Cons.prems have "distinct (badges (fst (checkAndAwardBadges rider p n)))"
    by (rule checkAndAwardBadges_distinct)
  then show ?case
    unfolding c by (simp add: Cons.IH)
qed

text \<open>
  Claim C9. For every milestone \<open>m\<close> of the list and all distances, the badge check
  awards \<open>badge_m\<close> exactly when \<open>prevDistance < m \<le> newDistance\<close> and \<open>badge_m\<close>
  is not yet among the rider's badges. Only milestone badges are awarded, the awarded ones
  are appended to the rider's badges and nothing else of the rider changes; no badge is
  awarded twice in a call, none that the rider already has, so a badge list without
  duplicates stays without duplicates, also through any number of further checks; and
  running the same check again on the result awards nothing and changes nothing.
\<close>

theorem checkAndAwardBadges_once:
  assumes run: "checkAndAwardBadges rider prevDistance newDistance = (rider', newly)"
  shows "(\<forall>m \<in> set BADGE_MILESTONES_METERS.
            badgeId m \<in> set (map b_id newly) \<longleftrightarrow>
              prevDistance < real m \<and> real m \<le> newDistance \<and> badgeId m \<notin> set (badges rider))
       \<and> set (map b_id newly) \<subseteq> badgeId ` set BADGE_MILESTONES_METERS
       \<and> rider' = rider\<lparr>badges := badges rider @ map b_id newly\<rparr>
       \<and> distinct (map b_id newly)
       \<and> set (map b_id newly) \<inter> set (badges rider) = {}
       \<and> (distinct (badges rider) \<longrightarrow> distinct (badges rider'))
       \<and> (distinct (badges rider) \<longrightarrow> distinct (badges (checkAll rider' calls)))
       \<and> checkAndAwardBadges rider' prevDistance newDistance = (rider', [])"
proof -
  let ?sel = "filter (qualifies rider prevDistance newDistance) BADGE_MILESTONES_METERS"
  from run have r': "rider' = rider\<lparr>badges := badges rider @ map badgeId ?sel\<rparr>"
    and nw: "newly = map badgeOf ?sel"
    by (simp_all add: checkAndAwardBadges_eq)
  have ids: "map b_id newly = map badgeId ?sel"
    unfolding nw by (rule b_id_badgeOf)
  have inj: "inj_on badgeId (set BADGE_MILESTONES_METERS)"
    using milestone_ids_distinct by (simp add: distinct_map)
  have dsel: "distinct (map badgeId ?sel)"
    using milestone_ids_distinct by (rule distinct_map_filter)
  have disj: "set (map badgeId ?sel) \<inter> set (badges rider) = {}"
    by (auto simp: qualifies_def)
  have c1: "\<forall>m \<in> set BADGE_MILESTONES_METERS.
            badgeId m \<in> set (map b_id newly) \<longleftrightarrow>
              prevDistance < real m \<and> real m \<le> newDistance \<and> badgeId m \<notin> set (badges rider)"
  proof
    fix m assume m: "m \<in> set BADGE_MILESTONES_METERS"
    have "badgeId m \<in> badgeId ` set ?sel \<longleftrightarrow> m \<in> set ?sel"
      using inj m by (auto simp: inj_on_def)
    then show "badgeId m \<in> set (map b_id newly) \<longleftrightarrow>
              prevDistance < real m \<and> real m \<le> newDistance \<and> badgeId m \<notin> set (badges rider)"
      using m by (simp add: ids qualifies_def)
  qed
  have c2: "set (map b_id newly) \<subseteq> badgeId ` set BADGE_MILESTONES_METERS"
    by (auto simp: ids)
  have c6: "distinct (badges rider) \<longrightarrow> distinct (badges rider')"
    using dsel disj by (auto simp: r')
  have none: "filter (qualifies rider' prevDistance newDistance) BADGE_MILESTONES_METERS = []"
    by (auto simp: filter_empty_conv qualifies_def r')
  have c7: "checkAndAwardBadges rider' prevDistance newDistance = (rider', [])"
    by (simp add: checkAndAwardBadges_eq none)
  have c3: "rider' = rider\<lparr>badges := badges rider @ map b_id newly\<rparr>"
    by (simp only: ids r')
  have c4: "distinct (map b_id newly)"
    by (simp only: ids dsel)
  have c5: "set (map b_id newly) \<inter> set (badges rider) = {}"
    by (simp only: ids disj)
  have c8: "distinct (badges rider) \<longrightarrow> distinct (badges (checkAll rider' calls))"
    using c6 by (auto intro: checkAll_distinct)
  show ?thesis
    by (intro conjI c1 c2 c3 c4 c5 c6 c8 c7)
qed


theorem checkAndAwardBadges_once_witness:
  "checkAndAwardBadges (newRider ''r1'' ''Ada'' 1) 500 6000 =
     ((newRider ''r1'' ''Ada'' 1)\<lparr>badges := [''badge_1000'', ''badge_5000'']\<rparr>,
      [\<lparr>b_id = ''badge_1000'', b_label = ''1 km''\<rparr>, \<lparr>b_id = ''badge_5000'', b_label = ''5 km''\<rparr>])
   \<and> 5000 \<in> set BADGE_MILESTONES_METERS
   \<and> badgeId 5000 \<in> set (map b_id
        [\<lparr>b_id = ''badge_1000'', b_label = ''1 km''\<rparr>, \<lparr>b_id = ''badge_5000'', b_label = ''5 km''\<rparr>])
   \<and> 10000 \<in> set BADGE_MILESTONES_METERS
   \<and> badgeId 10000 \<notin> set (map b_id
        [\<lparr>b_id = ''badge_1000'', b_label = ''1 km''\<rparr>, \<lparr>b_id = ''badge_5000'', b_label = ''5 km''\<rparr>])
   \<and> distinct (badges (newRider ''r1'' ''Ada'' 1))
   \<and> distinct (badges ((newRider ''r1'' ''Ada'' 1)\<lparr>badges := [''badge_1000'', ''badge_5000'']\<rparr>))
   \<and> checkAndAwardBadges ((newRider ''r1'' ''Ada'' 1)\<lparr>badges := [''badge_1000'', ''badge_5000'']\<rparr>)
        500 6000
      = ((newRider ''r1'' ''Ada'' 1)\<lparr>badges := [''badge_1000'', ''badge_5000'']\<rparr>, [])"
proof -
  have run: "checkAndAwardBadges (newRider ''r1'' ''Ada'' 1) 500 6000 =
     ((newRider ''r1'' ''Ada'' 1)\<lparr>badges := [''badge_1000'', ''badge_5000'']\<rparr>,
      [\<lparr>b_id = ''badge_1000'', b_label = ''1 km''\<rparr>, \<lparr>b_id = ''badge_5000'', b_label = ''5 km''\<rparr>])"
    by (simp add: checkAndAwardBadges_eq qualifies_def badgeOf_def newRider_def
        BADGE_MILESTONES_METERS_def badgeId_def badgeLabel_def string_of_nat.simps digit_char_def)
  have ms: "5000 \<in> set BADGE_MILESTONES_METERS" "10000 \<in> set BADGE_MILESTONES_METERS"
    by (simp_all add: BADGE_MILESTONES_METERS_def)
  have ids: "badgeId 5000 = ''badge_5000''" "badgeId 10000 = ''badge_10000''"
    by (simp_all add: badgeId_def string_of_nat.simps digit_char_def)
  show ?thesis
    using checkAndAwardBadges_once [OF run] run ms
    by (simp add: ids newRider_def)
qed

subsection \<open>The loop over the challenges\<close>

lemma challengeStep_Inr:
  assumes "resetWindow tz (c_period chal) t (storedProgress r cid) = Some prog1"
  shows "challengeStep tz clock d t (r, evs) (cid, chal) =
     Inr (r\<lparr>r_challenges := (r_challenges r)(cid \<mapsto> accumulate clock d chal prog1),
            score := score r + (if completes d chal prog1 then bonusOf chal else 0)\<rparr>,
          evs @ completionEvents tz d t r (cid, chal))"
  using assms
  by (simp add: challengeStep_def Let_def accumulate_def completes_def bonusOf_def
      completionEvents_def)

lemma challengeStep_Inl:
  assumes "resetWindow tz (c_period chal) t (storedProgress r cid) = None"
  shows "challengeStep tz clock d t (r, evs) (cid, chal) =
     Inl (r\<lparr>r_challenges := (r_challenges r)(cid \<mapsto> storedProgress r cid)\<rparr>)"
  using assms by (simp add: challengeStep_def Let_def)

lemma challengeLoop_Cons_Inr:
  assumes "challengeLoop tz clock d t (r, evs) ((cid, chal) # cs) = Inr res"
  obtains prog1 where "resetWindow tz (c_period chal) t (storedProgress r cid) = Some prog1"
    and "challengeLoop tz clock d t
           (stepRider clock d chal cid prog1 r, evs @ completionEvents tz d t r (cid, chal)) cs
         = Inr res"
proof (cases "resetWindow tz (c_period chal) t (storedProgress r cid)")
  case None
  with assms show ?thesis by (simp add: challengeStep_Inl)
next
  case (Some prog1)
  with assms that [of prog1] show ?thesis
    by (simp add: challengeStep_Inr stepRider_def)
qed

lemma storedProgress_stepRider:
  "cid' \<noteq> cid \<Longrightarrow> storedProgress (stepRider clock d chal cid prog1 r) cid' = storedProgress r cid'"
  by (simp add: storedProgress_def stepRider_def)

lemma r_id_stepRider: "r_id (stepRider clock d chal cid prog1 r) = r_id r"
  by (simp add: stepRider_def)

lemma completionEvents_stepRider:
  "fst e \<noteq> cid \<Longrightarrow>
   completionEvents tz d t (stepRider clock d chal cid prog1 r) e = completionEvents tz d t r e"
  by (simp add: completionEvents_def storedProgress_stepRider r_id_stepRider split: option.splits)

lemma completionEvents_map_stepRider:
  assumes "cid \<notin> fst ` set cs"
  shows "map (completionEvents tz d t (stepRider clock d chal cid prog1 r)) cs
         = map (completionEvents tz d t r) cs"
  using assms by (intro map_cong refl completionEvents_stepRider) auto

lemma challengeLoop_events:
  "distinct (map fst cs) \<Longrightarrow> challengeLoop tz clock d t (r, evs) cs = Inr (r', evs') \<Longrightarrow>
   evs' = evs @ concat (map (completionEvents tz d t r) cs)"
proof (induction cs arbitrary: r evs)
  case Nil
  then show ?case by simp
next
  case (Cons e cs)
  obtain cid chal where e: "e = (cid, chal)" by (cases e)
  from Cons.prems(1) have d: "distinct (map fst cs)" and nin: "cid \<notin> fst ` set cs"
    by (simp_all add: e)
  from Cons.prems(2) [unfolded e] obtain prog1 where
    loop: "challengeLoop tz clock d t
           (stepRider clock d chal cid prog1 r, evs @ completionEvents tz d t r (cid, chal)) cs
         = Inr (r', evs')"
    by (rule challengeLoop_Cons_Inr)
  from Cons.IH [OF d loop] show ?case
    by (simp add: e completionEvents_map_stepRider [OF nin])
qed

lemma completionEvents_bonus:
  "sum_list (map e_bonusPoints (completionEvents tz d t r (cid, chal))) =
     (case resetWindow tz (c_period chal) t (storedProgress r cid) of None \<Rightarrow> 0
      | Some prog1 \<Rightarrow> if completes d chal prog1 then bonusOf chal else 0)"
  by (simp add: completionEvents_def split: option.splits)

lemma challengeLoop_score:
  "distinct (map fst cs) \<Longrightarrow> challengeLoop tz clock d t (r, evs) cs = Inr (r', evs') \<Longrightarrow>
   score r' = score r + sum_list (map e_bonusPoints (concat (map (completionEvents tz d t r) cs)))"
proof (induction cs arbitrary: r evs)
  case Nil
  then show ?case by simp
next
  case (Cons e cs)
  obtain cid chal where e: "e = (cid, chal)" by (cases e)
  from Cons.prems(1) have d: "distinct (map fst cs)" and nin: "cid \<notin> fst ` set cs"
    by (simp_all add: e)
  from Cons.prems(2) [unfolded e] obtain prog1 where
    rw: "resetWindow tz (c_period chal) t (storedProgress r cid) = Some prog1" and
    loop: "challengeLoop tz clock d t
           (stepRider clock d chal cid prog1 r, evs @ completionEvents tz d t r (cid, chal)) cs
         = Inr (r', evs')"
    by (rule challengeLoop_Cons_Inr)
  have "score (stepRider clock d chal cid prog1 r)
        = score r + sum_list (map e_bonusPoints (completionEvents tz d t r (cid, chal)))"
    by (simp add: completionEvents_bonus rw) (simp add: stepRider_def)
  with Cons.IH [OF d loop] show ?case
    by (simp add: e completionEvents_map_stepRider [OF nin])
qed

lemma challengeLoop_frame:
  "challengeLoop tz clock d t (r, evs) cs = Inr (r', evs') \<Longrightarrow>
   r' = r\<lparr>r_challenges := r_challenges r', score := score r'\<rparr>"
proof (induction cs arbitrary: r evs)
  case Nil
  then show ?case by simp
next
  case (Cons e cs)
  obtain cid chal where e: "e = (cid, chal)" by (cases e)
  from Cons.prems [unfolded e] obtain prog1 where
    loop: "challengeLoop tz clock d t
           (stepRider clock d chal cid prog1 r, evs @ completionEvents tz d t r (cid, chal)) cs
         = Inr (r', evs')"
    by (rule challengeLoop_Cons_Inr)
  from Cons.IH [OF loop] show ?case
    by (simp add: stepRider_def)
qed

lemma challengeLoop_untouched:
  "challengeLoop tz clock d t (r, evs) cs = Inr (r', evs') \<Longrightarrow> cid \<notin> fst ` set cs \<Longrightarrow>
   r_challenges r' cid = r_challenges r cid"
proof (induction cs arbitrary: r evs)
  case Nil
  then show ?case by simp
next
  case (Cons e cs)
  obtain c chal where e: "e = (c, chal)" by (cases e)
  from Cons.prems(2) have ne: "c \<noteq> cid" and nin: "cid \<notin> fst ` set cs"
    by (auto simp: e)
  from Cons.prems(1) [unfolded e] obtain prog1 where
    loop: "challengeLoop tz clock d t
           (stepRider clock d chal c prog1 r, evs @ completionEvents tz d t r (c, chal)) cs
         = Inr (r', evs')"
    by (rule challengeLoop_Cons_Inr)
  from Cons.IH [OF loop nin] ne show ?case
    by (simp add: stepRider_def)
qed

lemma challengeLoop_progress:
  "distinct (map fst cs) \<Longrightarrow> challengeLoop tz clock d t (r, evs) cs = Inr (r', evs') \<Longrightarrow>
   (cid, chal) \<in> set cs \<Longrightarrow>
   \<exists>prog1. resetWindow tz (c_period chal) t (storedProgress r cid) = Some prog1
      \<and> r_challenges r' cid = Some (accumulate clock d chal prog1)"
proof (induction cs arbitrary: r evs)
  case Nil
  then show ?case by simp
next
  case (Cons e cs)
  obtain c ch where e: "e = (c, ch)" by (cases e)
  from Cons.prems(1) have d: "distinct (map fst cs)" and nin: "c \<notin> fst ` set cs"
    by (simp_all add: e)
  from Cons.prems(2) [unfolded e] obtain prog1 where
    rw: "resetWindow tz (c_period ch) t (storedProgress r c) = Some prog1" and
    loop: "challengeLoop tz clock d t
           (stepRider clock d ch c prog1 r, evs @ completionEvents tz d t r (c, ch)) cs
         = Inr (r', evs')"
    by (rule challengeLoop_Cons_Inr)
  show ?case
  proof (cases "(cid, chal) = (c, ch)")
    case True
    have "r_challenges r' c = r_challenges (stepRider clock d ch c prog1 r) c"
      using loop nin by (rule challengeLoop_untouched)
    with True rw show ?thesis by (simp add: stepRider_def)
  next
    case False
    with Cons.prems(3) have mem: "(cid, chal) \<in> set cs" by (auto simp: e)
    with nin have "cid \<noteq> c" by force
    with Cons.IH [OF d loop mem] show ?thesis
      by (simp add: storedProgress_stepRider)
  qed
qed

subsection \<open>The cases of \<^verbatim>\<open>handlePosition\<close>\<close>

lemma sampleTs_time: "(if sampleTs now p = 0 then now else sampleTs now p) = sampleTs now p"
  by (simp add: sampleTs_def split: option.splits)

lemma handlePosition_invalid:
  "p_lat p = None \<or> p_lon p = None \<or> p_id p = [] \<Longrightarrow>
   handlePosition tz now D p = (Returned (Rejected invalid), D, [])"
  by (auto simp: handlePosition_def split: option.splits)

lemma handlePosition_unknown:
  "p_lat p = Some plat \<Longrightarrow> p_lon p = Some plon \<Longrightarrow> p_id p \<noteq> [] \<Longrightarrow>
   riders D (p_id p) = None \<Longrightarrow>
   handlePosition tz now D p = (Returned (Rejected unknown_rider), D, [])"
  by (simp add: handlePosition_def)

lemma handlePosition_refresh:
  "p_lat p = Some plat \<Longrightarrow> p_lon p = Some plon \<Longrightarrow> p_id p \<noteq> [] \<Longrightarrow>
   riders D (p_id p) = Some rider \<Longrightarrow> \<not> moves now rider p \<Longrightarrow>
   handlePosition tz now D p =
     (Returned (Accepted (r_id rider)),
      D\<lparr>riders := (riders D)(p_id p \<mapsto> refresh now plat plon (sampleTs now p) rider)\<rparr>, [])"
  by (auto simp: handlePosition_def moves_def Let_def split: option.splits)

lemma handlePosition_checked:
  "p_lat p = Some plat \<Longrightarrow> p_lon p = Some plon \<Longrightarrow> p_id p \<noteq> [] \<Longrightarrow>
   riders D (p_id p) = Some rider \<Longrightarrow> moves now rider p \<Longrightarrow>
   handlePosition tz now D p =
     (if sampleSpeedKmh now rider p > MAX_SPEED_KMH then
        (Returned (Rejected speed),
         D\<lparr>riders := (riders D)(p_id p \<mapsto>
              rider\<lparr>suspicious := Some (suspiciousCount rider + 1)\<rparr>)\<rparr>, [])
      else
        (case processMove tz now (challenges D) rider plat plon (sampleTs now p)
                (sampleMeters rider p) of
           Inl r5 \<Rightarrow> (Thrown, D\<lparr>riders := (riders D)(p_id p \<mapsto> r5)\<rparr>, [])
         | Inr (r5, kmsGained, pointsGained, newlyBadges, challengeEvents) \<Rightarrow>
             (Returned (Accepted (r_id r5)),
              D\<lparr>riders := (riders D)(p_id p \<mapsto> refresh now plat plon (sampleTs now p) r5)\<rparr>,
              rider_update (r_id r5) (r_name r5) plat plon (js_round (distance r5)) (score r5)
              # (if kmsGained > 0 \<or> newlyBadges \<noteq> [] \<or> challengeEvents \<noteq> []
                 then [game_event (r_id r5) (r_name r5) kmsGained pointsGained newlyBadges
                         challengeEvents]
                 else []))))"
  by (cases "r_last rider")
     (simp_all add: handlePosition_def moves_def sampleSpeedKmh_def sampleMeters_def Let_def)

lemma handlePosition_speed:
  "p_lat p = Some plat \<Longrightarrow> p_lon p = Some plon \<Longrightarrow> p_id p \<noteq> [] \<Longrightarrow>
   riders D (p_id p) = Some rider \<Longrightarrow> moves now rider p \<Longrightarrow>
   sampleSpeedKmh now rider p > MAX_SPEED_KMH \<Longrightarrow>
   handlePosition tz now D p =
     (Returned (Rejected speed),
      D\<lparr>riders := (riders D)(p_id p \<mapsto>
           rider\<lparr>suspicious := Some (suspiciousCount rider + 1)\<rparr>)\<rparr>, [])"
  by (simp add: handlePosition_checked)

lemma handlePosition_move:
  "p_lat p = Some plat \<Longrightarrow> p_lon p = Some plon \<Longrightarrow> p_id p \<noteq> [] \<Longrightarrow>
   riders D (p_id p) = Some rider \<Longrightarrow> moves now rider p \<Longrightarrow>
   \<not> sampleSpeedKmh now rider p > MAX_SPEED_KMH \<Longrightarrow>
   handlePosition tz now D p =
     (case processMove tz now (challenges D) rider plat plon (sampleTs now p)
             (sampleMeters rider p) of
        Inl r5 \<Rightarrow> (Thrown, D\<lparr>riders := (riders D)(p_id p \<mapsto> r5)\<rparr>, [])
      | Inr (r5, kmsGained, pointsGained, newlyBadges, challengeEvents) \<Rightarrow>
          (Returned (Accepted (r_id r5)),
           D\<lparr>riders := (riders D)(p_id p \<mapsto> refresh now plat plon (sampleTs now p) r5)\<rparr>,
           rider_update (r_id r5) (r_name r5) plat plon (js_round (distance r5)) (score r5)
           # (if kmsGained > 0 \<or> newlyBadges \<noteq> [] \<or> challengeEvents \<noteq> []
              then [game_event (r_id r5) (r_name r5) kmsGained pointsGained newlyBadges
                      challengeEvents]
              else [])))"
  by (simp add: handlePosition_checked)

lemma qualifies_scored:
  "qualifies (r\<lparr>distance := a, r_history := h, score := s\<rparr>) p n = qualifies r p n"
  by (rule ext) (simp add: qualifies_def)

lemma processMove_eq:
  "processMove tz now chals rider plat plon ts meters =
     (case updateChallengesForRider tz now chals (scoredRider rider plat plon ts meters) meters ts of
        Inl r5 \<Rightarrow> Inl r5
      | Inr (r5, challengeEvents) \<Rightarrow>
          Inr (r5, max 0 (\<lfloor>(distance rider + meters) / 1000\<rfloor> - \<lfloor>distance rider / 1000\<rfloor>),
               max 0 (\<lfloor>(distance rider + meters) / 1000\<rfloor> - \<lfloor>distance rider / 1000\<rfloor>) * 10,
               map badgeOf (filter (qualifies rider (distance rider) (distance rider + meters))
                 BADGE_MILESTONES_METERS),
               challengeEvents))"
  by (simp add: processMove_def awardPointsPerKm_eq checkAndAwardBadges_eq Let_def
      scoredRider_def qualifies_scored split: sum.splits prod.splits)

subsection \<open>The speed gate\<close>

text \<open>
  The gate in exact arithmetic. Take a valid sample for a rider of the table who has a
  last fix (one with a timestamp that line 163 accepts as present: not 0), the timestamp
  of the sample being strictly greater than the stored one. If the exact haversine
  distance from the stored fix to the sample, divided by the elapsed seconds, times 3.6,
  exceeds 140, then \<^verbatim>\<open>handlePosition\<close> returns the rejection with reason \<open>speed\<close>,
  broadcasts nothing, and changes in the table only that rider: \<^verbatim>\<open>suspicious\<close> counts
  one more, and the last fix, the distance, the score, the badges, the challenge progress
  and the history are as before.
\<close>

theorem speed_gate:
  assumes "p_lat p = Some plat" and "p_lon p = Some plon" and "p_id p \<noteq> []"
    and "riders D (p_id p) = Some rider"
    and "r_last rider = Some l" and "fix_ts l \<noteq> 0" and "fix_ts l < sampleTs now p"
    and "haversineMeters \<lparr>lat = fix_lat l, lon = fix_lon l\<rparr> \<lparr>lat = plat, lon = plon\<rparr>
           / (real_of_int (sampleTs now p - fix_ts l) / 1000) * 3.6 > 140"
  shows "\<exists>rider'.
           handlePosition tz now D p =
             (Returned (Rejected speed), D\<lparr>riders := (riders D)(p_id p \<mapsto> rider')\<rparr>, [])
         \<and> suspiciousCount rider' = suspiciousCount rider + 1
         \<and> r_last rider' = r_last rider
         \<and> distance rider' = distance rider
         \<and> score rider' = score rider
         \<and> badges rider' = badges rider
         \<and> r_challenges rider' = r_challenges rider
         \<and> r_history rider' = r_history rider"
proof -
  have mv: "moves now rider p"
    using assms(5-7) by (simp add: moves_def)
  have dt: "0 < real_of_int (sampleTs now p - fix_ts l) / 1000"
    using assms(7) by simp
  have "sampleSpeedKmh now rider p =
          haversineMeters \<lparr>lat = fix_lat l, lon = fix_lon l\<rparr> \<lparr>lat = plat, lon = plon\<rparr>
           / (real_of_int (sampleTs now p - fix_ts l) / 1000) * 3.6"
    using assms(1,2,5) dt
    by (simp only: sampleSpeedKmh_def sampleMeters_def impliedSpeedKmh_def Let_def
        option.case prod.case if_True)
  with assms(8) have fast: "sampleSpeedKmh now rider p > MAX_SPEED_KMH"
    by (simp only: MAX_SPEED_KMH_def)
  let ?r = "rider\<lparr>suspicious := Some (suspiciousCount rider + 1)\<rparr>"
  have "handlePosition tz now D p =
          (Returned (Rejected speed), D\<lparr>riders := (riders D)(p_id p \<mapsto> ?r)\<rparr>, [])"
    using assms(1-4) mv fast by (rule handlePosition_speed)
  moreover have "suspiciousCount ?r = suspiciousCount rider + 1"
    by (simp add: suspiciousCount_def)
  ultimately show ?thesis
    by (intro exI [of _ ?r]) simp
qed

theorem speed_gate_witness:
  "\<exists>rider'.
      handlePosition 0 2000 (oneRider (riderAt 0 0 1000)) (sample 0 180 1001) =
        (Returned (Rejected speed),
         (oneRider (riderAt 0 0 1000))\<lparr>riders := (riders (oneRider (riderAt 0 0 1000)))(''r1'' \<mapsto> rider')\<rparr>,
         [])
    \<and> suspiciousCount rider' = 1
    \<and> r_last rider' = Some \<lparr>fix_lat = 0, fix_lon = 0, fix_ts = 1000\<rparr>
    \<and> distance rider' = 0 \<and> score rider' = 0 \<and> badges rider' = []
    \<and> r_challenges rider' = Map.empty \<and> r_history rider' = []"
proof -
  have speed: "haversineMeters \<lparr>lat = 0, lon = 0\<rparr> \<lparr>lat = 0, lon = 180\<rparr>
           / (real_of_int (sampleTs 2000 (sample 0 180 1001) - 1000) / 1000) * 3.6 > 140"
    using pi_ge_two by (simp add: haversine_half_turn sampleTs_def sample_def)
  show ?thesis
    using speed_gate [of "sample 0 180 1001" 0 180 "oneRider (riderAt 0 0 1000)" "riderAt 0 0 1000"
        "\<lparr>fix_lat = 0, fix_lon = 0, fix_ts = 1000\<rparr>" 2000 0] speed
    by (simp add: sample_def oneRider_def riderAt_def newRider_def sampleTs_def
        suspiciousCount_def)
qed

text \<open>
  Claim C1 (a sample that implies more than 140 km/h is rejected with reason \<open>speed\<close>,
  \<^verbatim>\<open>suspicious\<close> counts one more and the rider is otherwise unchanged) does not hold for
  the distance that the runtime computes. For the stored fix (8, 0) and the sample
  (-8, 180), half of the circumference apart, line 37 computes \<open>1 + 1 / 2 ^ 52\<close>. Then
  lines 38 and 39 return \<^verbatim>\<open>NaN\<close>, and whatever the stored distance and the two
  timestamps are, lines 165 to 167 do not reject the sample and store \<^verbatim>\<open>NaN\<close> as the
  distance of the rider: the test of line 166 lets \<^verbatim>\<open>NaN\<close> through.
\<close>

theorem nan_distance_passes_speed_gate:
  "metersOfInside (1 + 1 / 2 ^ 52) = NaN
   \<and> acceptedDistance stored (metersOfInside (1 + 1 / 2 ^ 52)) ts lastTs = Some NaN"
  by (simp add: metersOfInside_above_one acceptedDistance_NaN)

subsection \<open>Duplicate and out-of-order samples\<close>

lemma handlePosition_stale:
  assumes "stale now D p"
  obtains plat plon rider where "p_lat p = Some plat" and "p_lon p = Some plon"
    and "riders D (p_id p) = Some rider"
    and "handlePosition tz now D p =
           (Returned (Accepted (r_id rider)),
            D\<lparr>riders := (riders D)(p_id p \<mapsto> refresh now plat plon (sampleTs now p) rider)\<rparr>,
            [])"
proof -
  from assms obtain plat plon rider l where
    v: "p_lat p = Some plat" "p_lon p = Some plon" "p_id p \<noteq> []" and
    r: "riders D (p_id p) = Some rider" and l: "r_last rider = Some l" and
    le: "sampleTs now p \<le> fix_ts l"
    by (auto simp: stale_def split: option.splits)
  from l le have "\<not> moves now rider p" by (simp add: moves_def)
  with v r have "handlePosition tz now D p =
           (Returned (Accepted (r_id rider)),
            D\<lparr>riders := (riders D)(p_id p \<mapsto> refresh now plat plon (sampleTs now p) rider)\<rparr>,
            [])"
    by (simp add: handlePosition_refresh)
  with v r that show ?thesis by blast
qed

text \<open>
  The accepted sample replaces the stored fix, timestamp included: after a sample that
  is older than the stored fix, the stored timestamp is the older one.
\<close>

lemma stale_sample_replaces_fix:
  assumes "stale now D p"
  shows "\<exists>plat plon rider'.
           p_lat p = Some plat \<and> p_lon p = Some plon
         \<and> riders (fst (snd (handlePosition tz now D p))) (p_id p) = Some rider'
         \<and> r_last rider' = Some \<lparr>fix_lat = plat, fix_lon = plon, fix_ts = sampleTs now p\<rparr>"
proof -
  from assms obtain plat plon rider where
    "p_lat p = Some plat" "p_lon p = Some plon"
    "handlePosition tz now D p =
           (Returned (Accepted (r_id rider)),
            D\<lparr>riders := (riders D)(p_id p \<mapsto> refresh now plat plon (sampleTs now p) rider)\<rparr>,
            [])"
    by (rule handlePosition_stale)
  then show ?thesis by (simp add: refresh_def)
qed

text \<open>
  Claim C5, amended. A valid sample for a rider who has a last fix, with a timestamp less
  than or equal to the stored one, is accepted, adds no distance, and replaces the stored
  fix, timestamp included. More generally, take any sequence of messages each of which is
  such a sample when it is processed: every call returns an acceptance, nothing is
  broadcast, and every rider of the table has at the end the distance, the score, the
  badges, the challenge progress and the history that they had at the start, and as last
  fix the position and the timestamp of the last sample sent for them. So a sequence made
  only of such samples counts no distance again and takes none away; the next newer sample
  is compared with the replaced fix.
\<close>

theorem stale_samples_only_refresh:
  assumes "allStale tz D samples"
  shows "list_all (\<lambda>out. \<exists>i. out = Returned (Accepted i)) (outcomes tz D samples)
       \<and> broadcasts tz D samples = []
       \<and> (\<forall>rid rider. riders D rid = Some rider \<longrightarrow>
            (\<exists>rider'. riders (handleAll tz D samples) rid = Some rider'
               \<and> distance rider' = distance rider
               \<and> score rider' = score rider
               \<and> badges rider' = badges rider
               \<and> r_challenges rider' = r_challenges rider
               \<and> r_history rider' = r_history rider
               \<and> r_last rider' = fixAfter rid (r_last rider) samples))"
  using assms
proof (induction samples arbitrary: D)
  case Nil
  show ?case by simp
next
  case (Cons s samples)
  obtain now p where s: "s = (now, p)" by (cases s)
  from Cons.prems have st: "stale now D p"
    and rest: "allStale tz (fst (snd (handlePosition tz now D p))) samples"
    by (simp_all add: s)
  from st obtain plat plon rider0 where
    v: "p_lat p = Some plat" "p_lon p = Some plon" and
    r0: "riders D (p_id p) = Some rider0" and
    hp: "handlePosition tz now D p =
           (Returned (Accepted (r_id rider0)),
            D\<lparr>riders := (riders D)(p_id p \<mapsto> refresh now plat plon (sampleTs now p) rider0)\<rparr>,
            [])"
    by (rule handlePosition_stale)
  let ?D1 = "D\<lparr>riders := (riders D)(p_id p \<mapsto> refresh now plat plon (sampleTs now p) rider0)\<rparr>"
  from rest hp have rest1: "allStale tz ?D1 samples" by simp
  note ih = Cons.IH [OF rest1]
  have keep: "\<exists>rider'. riders (handleAll tz ?D1 samples) rid = Some rider'
               \<and> distance rider' = distance rider
               \<and> score rider' = score rider
               \<and> badges rider' = badges rider
               \<and> r_challenges rider' = r_challenges rider
               \<and> r_history rider' = r_history rider
               \<and> r_last rider' = fixAfter rid (r_last rider) ((now, p) # samples)"
    if "riders D rid = Some rider" for rid rider
  proof (cases "rid = p_id p")
    case True
    with that r0 have "rider = rider0" by simp
    moreover have "riders ?D1 rid = Some (refresh now plat plon (sampleTs now p) rider0)"
      using True by simp
    ultimately show ?thesis
      using ih True v by (force simp: refresh_def)
  next
    case False
    with that have "riders ?D1 rid = Some rider" by simp
    then show ?thesis using ih False by force
  qed
  from ih keep show ?case
    by (simp add: s hp)
qed

theorem stale_samples_only_refresh_witness:
  "allStale 0 (oneRider ((riderAt 0 0 1000)\<lparr>distance := 1500, score := 10\<rparr>))
     [(2000, sample 0 180 1000), (2001, sample 5 5 900)]
   \<and> list_all (\<lambda>out. \<exists>i. out = Returned (Accepted i))
        (outcomes 0 (oneRider ((riderAt 0 0 1000)\<lparr>distance := 1500, score := 10\<rparr>))
           [(2000, sample 0 180 1000), (2001, sample 5 5 900)])
   \<and> (\<exists>rider'.
         riders (handleAll 0 (oneRider ((riderAt 0 0 1000)\<lparr>distance := 1500, score := 10\<rparr>))
                   [(2000, sample 0 180 1000), (2001, sample 5 5 900)]) ''r1'' = Some rider'
       \<and> distance rider' = 1500 \<and> score rider' = 10 \<and> badges rider' = []
       \<and> r_history rider' = []
       \<and> r_last rider' = Some \<lparr>fix_lat = 5, fix_lon = 5, fix_ts = 900\<rparr>)"
proof -
  let ?r = "(riderAt 0 0 1000)\<lparr>distance := 1500, score := 10\<rparr>"
  let ?S = "[(2000, sample 0 180 1000), (2001, sample 5 5 900)]"
  have st: "allStale 0 (oneRider ?r) ?S"
    by (simp add: stale_def sample_def oneRider_def riderAt_def newRider_def sampleTs_def
        handlePosition_def refresh_def Let_def)
  have r: "riders (oneRider ?r) ''r1'' = Some ?r"
    by (simp add: oneRider_def)
  note t = stale_samples_only_refresh [OF st]
  from t have a: "list_all (\<lambda>out. \<exists>i. out = Returned (Accepted i)) (outcomes 0 (oneRider ?r) ?S)"
    by (rule conjunct1)
  from t have "\<forall>rid rider. riders (oneRider ?r) rid = Some rider \<longrightarrow>
            (\<exists>rider'. riders (handleAll 0 (oneRider ?r) ?S) rid = Some rider'
               \<and> distance rider' = distance rider
               \<and> score rider' = score rider
               \<and> badges rider' = badges rider
               \<and> r_challenges rider' = r_challenges rider
               \<and> r_history rider' = r_history rider
               \<and> r_last rider' = fixAfter rid (r_last rider) ?S)"
    by (elim conjE)
  from this [rule_format, OF r] obtain rider' where
    "riders (handleAll 0 (oneRider ?r) ?S) ''r1'' = Some rider'"
    "distance rider' = 1500" "score rider' = 10" "badges rider' = []" "r_history rider' = []"
    "r_last rider' = Some \<lparr>fix_lat = 5, fix_lon = 5, fix_ts = 900\<rparr>"
    by (auto simp: riderAt_def newRider_def sample_def sampleTs_def)
  with st a show ?thesis by blast
qed

subsection \<open>Evaluating dates\<close>

lemma pad_digits_2: "pad_digits 2 n = [digit_char (n div 10), digit_char n]"
proof -
  have "(2::nat) = Suc (Suc 0)" by simp
  then show ?thesis by (simp only: pad_digits.simps append_Nil append_Cons)
qed

lemma pad_digits_4:
  "pad_digits 4 n =
     [digit_char (n div 10 div 10 div 10), digit_char (n div 10 div 10), digit_char (n div 10),
      digit_char n]"
proof -
  have "(4::nat) = Suc (Suc (Suc (Suc 0)))" by simp
  then show ?thesis by (simp only: pad_digits.simps append_Nil append_Cons)
qed

lemma dayKey_2000: "dayKey 2000 = Some ''1970-01-01''"
  unfolding dayKey_def toISOString_slice_def validTime_def isoDate10_def MS_PER_DAY_def
    civil_from_days_def Let_def
  by (simp add: pad_digits_2 pad_digits_4 digit_char_def)

lemma weekKey_2000: "weekKey 0 2000 = Some ''1969-12-29''"
  unfolding weekKey_def getDay_def weekday_def toISOString_slice_def validTime_def
      isoDate10_def MS_PER_DAY_def civil_from_days_def Let_def
  by (simp add: pad_digits_2 pad_digits_4 digit_char_def)

subsection \<open>Broadcasts\<close>

lemma r_id_refresh: "r_id (refresh now plat plon ts r) = r_id r"
  and r_name_refresh: "r_name (refresh now plat plon ts r) = r_name r"
  and distance_refresh: "distance (refresh now plat plon ts r) = distance r"
  and score_refresh: "score (refresh now plat plon ts r) = score r"
  and badges_refresh: "badges (refresh now plat plon ts r) = badges r"
  and r_challenges_refresh: "r_challenges (refresh now plat plon ts r) = r_challenges r"
  by (simp_all add: refresh_def)

text \<open>
  Claim C3 says that every accepted sample, a rider's first one included, is followed by
  a \<^verbatim>\<open>rider_update\<close> broadcast. The first sample of a new rider is accepted and
  nothing is broadcast: the broadcasts of lines 175 to 178 are inside the branch of
  line 163.
\<close>

theorem first_sample_not_broadcast:
  "fst (handlePosition 0 2000 (oneRider (newRider ''r1'' ''Ada'' 1)) (sample 50 3 1000))
     = Returned (Accepted ''r1'')
   \<and> snd (snd (handlePosition 0 2000 (oneRider (newRider ''r1'' ''Ada'' 1)) (sample 50 3 1000)))
     = []"
  by (simp add: handlePosition_def oneRider_def newRider_def sample_def sampleTs_def refresh_def
      Let_def)

text \<open>
  Claim C3, amended. When \<^verbatim>\<open>handlePosition\<close> accepts a sample, the payload is valid
  and names a rider of the table, and the acknowledgment carries the id of the rider as
  stored afterwards.
  \<^item> If the sample was compared with a stored fix (line 163: the rider has a last fix with
    a timestamp that is not 0 and older than the sample's), the broadcasts are a
    \<^verbatim>\<open>rider_update\<close> with the rider's id, name, the new coordinates, the rounded
    cumulative distance and the score, all as stored after the call, followed by a
    \<^verbatim>\<open>game_event\<close> with \<^verbatim>\<open>kmsGained\<close>, \<^verbatim>\<open>pointsGained\<close>, the new badges and the
    challenge events if and only if \<^verbatim>\<open>kmsGained > 0\<close> or one of the two lists is not
    empty.
  \<^item> Otherwise (a first sample, or one not newer than the stored fix) only the last fix
    and \<^verbatim>\<open>updatedAt\<close> change and nothing is broadcast.

  When the call does not accept the sample (a rejection, or \<^verbatim>\<open>RangeError\<close>), nothing
  is broadcast.
\<close>

theorem accepted_broadcasts:
  assumes hp: "handlePosition tz now D p = (out, D', bs)"
  shows "(\<forall>i. out = Returned (Accepted i) \<longrightarrow>
           (\<exists>plat plon rider rider'.
               p_lat p = Some plat \<and> p_lon p = Some plon
             \<and> riders D (p_id p) = Some rider \<and> riders D' (p_id p) = Some rider'
             \<and> i = r_id rider'
             \<and> (moves now rider p \<longrightarrow>
                  (\<exists>r5 kmsGained pointsGained newlyBadges challengeEvents.
                      processMove tz now (challenges D) rider plat plon (sampleTs now p)
                          (sampleMeters rider p)
                        = Inr (r5, kmsGained, pointsGained, newlyBadges, challengeEvents)
                    \<and> rider' = refresh now plat plon (sampleTs now p) r5
                    \<and> bs = rider_update (r_id rider') (r_name rider') plat plon
                              (js_round (distance rider')) (score rider')
                           # (if kmsGained > 0 \<or> newlyBadges \<noteq> [] \<or> challengeEvents \<noteq> []
                              then [game_event (r_id rider') (r_name rider') kmsGained
                                      pointsGained newlyBadges challengeEvents]
                              else [])))
             \<and> (\<not> moves now rider p \<longrightarrow>
                  rider' = refresh now plat plon (sampleTs now p) rider \<and> bs = [])))
       \<and> ((\<forall>i. out \<noteq> Returned (Accepted i)) \<longrightarrow> bs = [])"
proof (cases "p_lat p = None \<or> p_lon p = None \<or> p_id p = []")
  case True
  from handlePosition_invalid [OF True, of tz now D] hp show ?thesis by simp
next
  case False
  then obtain plat plon where v: "p_lat p = Some plat" "p_lon p = Some plon" "p_id p \<noteq> []"
    by auto
  show ?thesis
  proof (cases "riders D (p_id p)")
    case None
    from handlePosition_unknown [OF v None, of tz now] hp show ?thesis by simp
  next
    case (Some rider)
    show ?thesis
    proof (cases "moves now rider p")
      case False
      from handlePosition_refresh [OF v Some False, of tz] hp
      have "out = Returned (Accepted (r_id rider))"
        and "D' = D\<lparr>riders := (riders D)(p_id p \<mapsto> refresh now plat plon (sampleTs now p) rider)\<rparr>"
        and "bs = []"
        by simp_all
      with v Some False show ?thesis
        by (simp add: r_id_refresh)
    next
      case True
      note chk = handlePosition_checked [OF v Some True, of tz]
      show ?thesis
      proof (cases "sampleSpeedKmh now rider p > MAX_SPEED_KMH")
        case True
        with chk hp show ?thesis by simp
      next
        case slow: False
        show ?thesis
        proof (cases "processMove tz now (challenges D) rider plat plon (sampleTs now p)
                        (sampleMeters rider p)")
          case (Inl r5)
          with chk hp slow show ?thesis by simp
        next
          case (Inr res)
          obtain r5 kmsGained pointsGained newlyBadges challengeEvents where
            res: "res = (r5, kmsGained, pointsGained, newlyBadges, challengeEvents)"
            by (cases res)
          let ?rider' = "refresh now plat plon (sampleTs now p) r5"
          from chk hp slow Inr res
          have o: "out = Returned (Accepted (r_id r5))"
            and d: "D' = D\<lparr>riders := (riders D)(p_id p \<mapsto> ?rider')\<rparr>"
            and b: "bs = rider_update (r_id r5) (r_name r5) plat plon (js_round (distance r5))
                      (score r5)
                   # (if kmsGained > 0 \<or> newlyBadges \<noteq> [] \<or> challengeEvents \<noteq> []
                      then [game_event (r_id r5) (r_name r5) kmsGained pointsGained newlyBadges
                              challengeEvents]
                      else [])"
            by simp_all
          have acc: "\<exists>plat' plon' rider0 rider'.
               p_lat p = Some plat' \<and> p_lon p = Some plon'
             \<and> riders D (p_id p) = Some rider0 \<and> riders D' (p_id p) = Some rider'
             \<and> r_id r5 = r_id rider'
             \<and> (moves now rider0 p \<longrightarrow>
                  (\<exists>r5 kmsGained pointsGained newlyBadges challengeEvents.
                      processMove tz now (challenges D) rider0 plat' plon' (sampleTs now p)
                          (sampleMeters rider0 p)
                        = Inr (r5, kmsGained, pointsGained, newlyBadges, challengeEvents)
                    \<and> rider' = refresh now plat' plon' (sampleTs now p) r5
                    \<and> bs = rider_update (r_id rider') (r_name rider') plat' plon'
                              (js_round (distance rider')) (score rider')
                           # (if kmsGained > 0 \<or> newlyBadges \<noteq> [] \<or> challengeEvents \<noteq> []
                              then [game_event (r_id rider') (r_name rider') kmsGained
                                      pointsGained newlyBadges challengeEvents]
                              else [])))
             \<and> (\<not> moves now rider0 p \<longrightarrow>
                  rider' = refresh now plat' plon' (sampleTs now p) rider0 \<and> bs = [])"
            apply (rule exI [of _ plat], rule exI [of _ plon], rule exI [of _ rider],
                   rule exI [of _ ?rider'])
            using v Some True Inr res d b
            apply (simp add: r_id_refresh r_name_refresh distance_refresh score_refresh)
            done
          with o show ?thesis by simp
        qed
      qed
    qed
  qed
qed


lemma still_sample:
  "handlePosition 0 3000 (oneRider (riderAt 0 0 1000)) (sample 0 0 2000) =
     (Returned (Accepted ''r1''),
      fst (snd (handlePosition 0 3000 (oneRider (riderAt 0 0 1000)) (sample 0 0 2000))),
      [rider_update ''r1'' ''Ada'' 0 0 0 0])"
proof -
  have v: "p_lat (sample 0 0 2000) = Some 0" "p_lon (sample 0 0 2000) = Some 0"
    "p_id (sample 0 0 2000) \<noteq> []"
    "riders (oneRider (riderAt 0 0 1000)) (p_id (sample 0 0 2000)) = Some (riderAt 0 0 1000)"
    by (simp_all add: sample_def oneRider_def)
  have ts: "sampleTs 3000 (sample 0 0 2000) = 2000"
    by (simp add: sampleTs_def sample_def)
  have mv: "moves 3000 (riderAt 0 0 1000) (sample 0 0 2000)"
    by (simp add: moves_def riderAt_def ts)
  have m: "sampleMeters (riderAt 0 0 1000) (sample 0 0 2000) = 0"
    by (simp add: sampleMeters_def riderAt_def sample_def haversine_same)
  have l: "r_last (riderAt 0 0 1000) = Some \<lparr>fix_lat = 0, fix_lon = 0, fix_ts = 1000\<rparr>"
    by (simp add: riderAt_def)
  have sp: "\<not> sampleSpeedKmh 3000 (riderAt 0 0 1000) (sample 0 0 2000) > MAX_SPEED_KMH"
    by (simp add: sampleSpeedKmh_def l m ts impliedSpeedKmh_def MAX_SPEED_KMH_def)
  have pm: "\<exists>r5. processMove 0 3000 (challenges (oneRider (riderAt 0 0 1000))) (riderAt 0 0 1000)
               0 0 2000 0 = Inr (r5, 0, 0, [], []) \<and> r_id r5 = ''r1'' \<and> r_name r5 = ''Ada''
              \<and> distance r5 = 0 \<and> score r5 = 0"
    by (simp add: processMove_eq updateChallengesForRider_def oneRider_def defaultChallenges_def
        challengeStep_def resetWindow_def dayKey_2000 weekKey_2000 rollover_def
        storedProgress_def freshProgress_def scoredRider_def riderAt_def newRider_def
        qualifies_def BADGE_MILESTONES_METERS_def Let_def)
  then obtain r5 where
    "processMove 0 3000 (challenges (oneRider (riderAt 0 0 1000))) (riderAt 0 0 1000)
               0 0 2000 0 = Inr (r5, 0, 0, [], [])" "r_id r5 = ''r1''" "r_name r5 = ''Ada''"
    "distance r5 = 0" "score r5 = 0"
    by blast
  then show ?thesis
    by (simp add: handlePosition_move [OF v mv sp] ts m js_round_def)
qed


theorem accepted_broadcasts_witness:
  "handlePosition 0 3000 (oneRider (riderAt 0 0 1000)) (sample 0 0 2000) =
     (Returned (Accepted ''r1''),
      fst (snd (handlePosition 0 3000 (oneRider (riderAt 0 0 1000)) (sample 0 0 2000))),
      [rider_update ''r1'' ''Ada'' 0 0 0 0])
   \<and> moves 3000 (riderAt 0 0 1000) (sample 0 0 2000)
   \<and> (\<exists>rider'.
         riders (fst (snd (handlePosition 0 3000 (oneRider (riderAt 0 0 1000)) (sample 0 0 2000))))
           ''r1'' = Some rider'
       \<and> rider_update (r_id rider') (r_name rider') 0 0 (js_round (distance rider')) (score rider')
           = rider_update ''r1'' ''Ada'' 0 0 0 0)"
proof -
  define D where "D = oneRider (riderAt 0 0 1000)"
  define p where "p = sample 0 0 2000"
  define D' where "D' = fst (snd (handlePosition 0 3000 D p))"
  have hp: "handlePosition 0 3000 D p =
              (Returned (Accepted ''r1''), D', [rider_update ''r1'' ''Ada'' 0 0 0 0])"
    unfolding D'_def D_def p_def by (rule still_sample)
  have mv: "moves 3000 (riderAt 0 0 1000) p"
    by (simp add: moves_def riderAt_def sampleTs_def sample_def p_def)
  have r: "riders D (p_id p) = Some (riderAt 0 0 1000)"
    and v: "p_lat p = Some 0" "p_lon p = Some 0" and i: "p_id p = ''r1''"
    by (simp_all add: sample_def oneRider_def p_def D_def)
  note t = accepted_broadcasts [OF hp, THEN conjunct1, rule_format, OF refl]
  from t obtain plat plon rider rider' where
    a: "p_lat p = Some plat" "p_lon p = Some plon" "riders D (p_id p) = Some rider"
       "riders D' (p_id p) = Some rider'" and
    b: "moves 3000 rider p \<longrightarrow>
          (\<exists>r5 kmsGained pointsGained newlyBadges challengeEvents.
              processMove 0 3000 (challenges D) rider plat plon (sampleTs 3000 p)
                          (sampleMeters rider p)
                        = Inr (r5, kmsGained, pointsGained, newlyBadges, challengeEvents)
              \<and> rider' = refresh 3000 plat plon (sampleTs 3000 p) r5
              \<and> [rider_update ''r1'' ''Ada'' 0 0 0 0]
                = rider_update (r_id rider') (r_name rider') plat plon
                              (js_round (distance rider')) (score rider')
                           # (if kmsGained > 0 \<or> newlyBadges \<noteq> [] \<or> challengeEvents \<noteq> []
                              then [game_event (r_id rider') (r_name rider') kmsGained
                                      pointsGained newlyBadges challengeEvents]
                              else []))"
    by (elim exE conjE) (rule that)
  from a r v have eq: "rider = riderAt 0 0 1000" "plat = 0" "plon = 0" by simp_all
  from b mv obtain bs' where
    "[rider_update ''r1'' ''Ada'' 0 0 0 0]
       = rider_update (r_id rider') (r_name rider') 0 0 (js_round (distance rider')) (score rider')
         # bs'"
    unfolding eq by (elim impE exE conjE) (assumption, rule that)
  then have "rider_update (r_id rider') (r_name rider') 0 0 (js_round (distance rider'))
                    (score rider') = rider_update ''r1'' ''Ada'' 0 0 0 0"
    by simp
  with a(4) i mv hp show ?thesis
    unfolding D'_def D_def p_def by simp
qed

subsection \<open>Accepted samples and the challenge progress\<close>

lemma accepted_cases:
  assumes hp: "handlePosition tz now D p = (Returned (Accepted i), D', bs)"
    and r: "riders D (p_id p) = Some rider"
  obtains (refreshed) plat plon where "\<not> moves now rider p"
      and "p_lat p = Some plat" and "p_lon p = Some plon"
      and "D' = D\<lparr>riders := (riders D)(p_id p \<mapsto> refresh now plat plon (sampleTs now p) rider)\<rparr>"
      and "bs = []"
  | (moved) plat plon r5 evs where "moves now rider p"
      and "\<not> sampleSpeedKmh now rider p > MAX_SPEED_KMH"
      and "p_lat p = Some plat" and "p_lon p = Some plon"
      and "challengeLoop tz now (sampleMeters rider p) (sampleTs now p)
             (scoredRider rider plat plon (sampleTs now p) (sampleMeters rider p), [])
             (challenges D) = Inr (r5, evs)"
      and "D' = D\<lparr>riders := (riders D)(p_id p \<mapsto> refresh now plat plon (sampleTs now p) r5)\<rparr>"
proof (cases "p_lat p = None \<or> p_lon p = None \<or> p_id p = []")
  case True
  from handlePosition_invalid [OF True, of tz now D] hp show ?thesis by simp
next
  case False
  then obtain plat plon where v: "p_lat p = Some plat" "p_lon p = Some plon" "p_id p \<noteq> []"
    by auto
  show ?thesis
  proof (cases "moves now rider p")
    case False
    from handlePosition_refresh [OF v r False, of tz] hp
    have "D' = D\<lparr>riders := (riders D)(p_id p \<mapsto> refresh now plat plon (sampleTs now p) rider)\<rparr>"
      and "bs = []"
      by simp_all
    with False v show ?thesis by (intro refreshed)
  next
    case True
    note chk = handlePosition_checked [OF v r True, of tz]
    show ?thesis
    proof (cases "sampleSpeedKmh now rider p > MAX_SPEED_KMH")
      case True
      with chk hp show ?thesis by simp
    next
      case slow: False
      let ?loop = "challengeLoop tz now (sampleMeters rider p) (sampleTs now p)
             (scoredRider rider plat plon (sampleTs now p) (sampleMeters rider p), [])
             (challenges D)"
      have pm: "processMove tz now (challenges D) rider plat plon (sampleTs now p)
                  (sampleMeters rider p)
                = (case ?loop of Inl r5 \<Rightarrow> Inl r5
                   | Inr (r5, challengeEvents) \<Rightarrow>
                       Inr (r5, max 0 (\<lfloor>(distance rider + sampleMeters rider p) / 1000\<rfloor>
                                        - \<lfloor>distance rider / 1000\<rfloor>),
                            max 0 (\<lfloor>(distance rider + sampleMeters rider p) / 1000\<rfloor>
                                        - \<lfloor>distance rider / 1000\<rfloor>) * 10,
                            map badgeOf (filter (qualifies rider (distance rider)
                                  (distance rider + sampleMeters rider p)) BADGE_MILESTONES_METERS),
                            challengeEvents))"
        by (simp only: processMove_eq updateChallengesForRider_def sampleTs_time)
      show ?thesis
      proof (cases ?loop)
        case (Inl r5)
        with chk hp slow pm show ?thesis by simp
      next
        case (Inr res)
        obtain r5 evs where res: "res = (r5, evs)" by (cases res)
        from chk hp slow pm Inr res
        have "D' = D\<lparr>riders := (riders D)(p_id p \<mapsto> refresh now plat plon (sampleTs now p) r5)\<rparr>"
          by simp
        with True slow v Inr res show ?thesis by (intro moved) simp_all
      qed
    qed
  qed
qed

lemma storedProgress_scoredRider:
  "storedProgress (scoredRider rider plat plon ts meters) cid = storedProgress rider cid"
  by (simp add: storedProgress_def scoredRider_def)

lemma resetWindow_key:
  "windowKey tz per t = Some k \<Longrightarrow> resetWindow tz per t prog = Some (rollover k prog)"
  by (cases per) (simp_all add: windowKey_def resetWindow_def)

text \<open>What a movement sample does to the progress of each challenge.\<close>

lemma moved_progress:
  assumes loop: "challengeLoop tz now d t (scoredRider rider plat plon ts d, []) chals = Inr (r5, evs)"
    and dist: "distinct (map fst chals)" and mem: "(cid, chal) \<in> set chals"
    and key: "windowKey tz (c_period chal) t = Some k"
  shows "r_challenges r5 cid = Some (accumulate now d chal (rollover k (storedProgress rider cid)))"
proof -
  from challengeLoop_progress [OF dist loop mem] obtain prog1 where
    "resetWindow tz (c_period chal) t (storedProgress rider cid) = Some prog1"
    "r_challenges r5 cid = Some (accumulate now d chal prog1)"
    by (auto simp: storedProgress_scoredRider)
  with resetWindow_key [OF key] show ?thesis by simp
qed

lemma handlePosition_accepts_move:
  assumes v: "p_lat p = Some plat" "p_lon p = Some plon" "p_id p \<noteq> []"
    and r: "riders D (p_id p) = Some rider"
    and mv: "moves now rider p"
    and slow: "\<not> sampleSpeedKmh now rider p > MAX_SPEED_KMH"
    and loop: "challengeLoop tz now (sampleMeters rider p) (sampleTs now p)
             (scoredRider rider plat plon (sampleTs now p) (sampleMeters rider p), [])
             (challenges D) = Inr (r5, evs)"
  shows "fst (handlePosition tz now D p) = Returned (Accepted (r_id r5))"
    and "fst (snd (handlePosition tz now D p))
           = D\<lparr>riders := (riders D)(p_id p \<mapsto> refresh now plat plon (sampleTs now p) r5)\<rparr>"
proof -
  have pm: "processMove tz now (challenges D) rider plat plon (sampleTs now p)
                  (sampleMeters rider p)
            = Inr (r5, max 0 (\<lfloor>(distance rider + sampleMeters rider p) / 1000\<rfloor>
                                        - \<lfloor>distance rider / 1000\<rfloor>),
                            max 0 (\<lfloor>(distance rider + sampleMeters rider p) / 1000\<rfloor>
                                        - \<lfloor>distance rider / 1000\<rfloor>) * 10,
                            map badgeOf (filter (qualifies rider (distance rider)
                                  (distance rider + sampleMeters rider p)) BADGE_MILESTONES_METERS),
                            evs)"
    by (simp add: processMove_eq updateChallengesForRider_def sampleTs_time loop)
  show "fst (handlePosition tz now D p) = Returned (Accepted (r_id r5))"
    and "fst (snd (handlePosition tz now D p))
           = D\<lparr>riders := (riders D)(p_id p \<mapsto> refresh now plat plon (sampleTs now p) r5)\<rparr>"
    by (simp_all add: handlePosition_move [OF v r mv slow] pm)
qed

lemma challengeLoop_returns:
  assumes "\<And>cid chal. (cid, chal) \<in> set cs \<Longrightarrow> c_period chal \<noteq> OtherPeriod
             \<Longrightarrow> \<exists>k. windowKey tz (c_period chal) t = Some k"
  shows "\<exists>r' evs'. challengeLoop tz clock d t (r, evs) cs = Inr (r', evs')"
  using assms
proof (induction cs arbitrary: r evs)
  case Nil
  show ?case by simp
next
  case (Cons e cs)
  obtain cid chal where e: "e = (cid, chal)" by (cases e)
  have "\<exists>prog1. resetWindow tz (c_period chal) t (storedProgress r cid) = Some prog1"
  proof (cases "c_period chal = OtherPeriod")
    case True
    then show ?thesis by (simp add: resetWindow_def)
  next
    case False
    with Cons.prems [of cid chal] obtain k where "windowKey tz (c_period chal) t = Some k"
      by (auto simp: e)
    then show ?thesis by (simp add: resetWindow_key)
  qed
  then obtain prog1 where rw: "resetWindow tz (c_period chal) t (storedProgress r cid) = Some prog1"
    by blast
  have "\<exists>r' evs'. challengeLoop tz clock d t
           (stepRider clock d chal cid prog1 r, evs @ completionEvents tz d t r (cid, chal)) cs
         = Inr (r', evs')"
  proof (rule Cons.IH)
    fix cid' chal'
    assume "(cid', chal') \<in> set cs" and "c_period chal' \<noteq> OtherPeriod"
    then show "\<exists>k. windowKey tz (c_period chal') t = Some k"
      using Cons.prems [of cid' chal'] by simp
  qed
  then show ?case
    by (simp add: e challengeStep_Inr [OF rw] stepRider_def)
qed

lemma day0:
  assumes "0 \<le> t" and "t < 86400000"
  shows "t div MS_PER_DAY = 0"
  using assms by (simp add: MS_PER_DAY_def)

lemma civil_0: "civil_from_days 0 = (1970, 1, 1)"
  unfolding civil_from_days_def Let_def by simp

lemma civil_m3: "civil_from_days (- 3) = (1969, 12, 29)"
  unfolding civil_from_days_def Let_def by simp

lemma civil_3: "civil_from_days 3 = (1970, 1, 4)"
  unfolding civil_from_days_def Let_def by simp

lemma dayKey_day0:
  assumes "0 \<le> t" and "t < 86400000"
  shows "dayKey t = Some ''1970-01-01''"
proof -
  have "validTime t" using assms by (simp add: validTime_def)
  then show ?thesis
    by (simp add: dayKey_def toISOString_slice_def isoDate10_def day0 [OF assms] civil_0
        pad_digits_2 pad_digits_4 digit_char_def)
qed

lemma weekKey_day0:
  assumes "0 \<le> t" and "t < 86400000"
  shows "weekKey 0 t = Some ''1969-12-29''"
proof -
  have v: "validTime t" "validTime (t - 259200000)"
    using assms by (simp_all add: validTime_def)
  have d: "(t - 259200000) div MS_PER_DAY = - 3"
    using assms by (simp add: MS_PER_DAY_def)
  have g: "getDay 0 t = 4"
    by (simp add: getDay_def day0 [OF assms] weekday_def)
  have s: "t - (4 + 6) mod 7 * MS_PER_DAY = t - 259200000"
    by (simp add: MS_PER_DAY_def)
  show ?thesis
    unfolding weekKey_def Let_def g s using v
    by (simp add: toISOString_slice_def isoDate10_def d civil_m3 pad_digits_2 pad_digits_4
        digit_char_def)
qed

lemma default_keys_day0:
  assumes "0 \<le> t" and "t < 86400000" and "(cid, chal) \<in> set defaultChallenges"
  shows "\<exists>k. windowKey 0 (c_period chal) t = Some k"
  using assms(3) dayKey_day0 [OF assms(1,2)] weekKey_day0 [OF assms(1,2)]
  by (auto simp: defaultChallenges_def windowKey_def)

lemma defaultChallenges_distinct: "distinct (map fst defaultChallenges)"
  by (simp add: defaultChallenges_def)

lemma r_id_scoredRider: "r_id (scoredRider rider plat plon ts d) = r_id rider"
  by (simp add: scoredRider_def)

lemma challengeLoop_r_id:
  assumes "challengeLoop tz clock d t (r, evs) cs = Inr (r', evs')"
  shows "r_id r' = r_id r"
  using challengeLoop_frame [OF assms] by (metis rider.select_convs(1) rider.surjective rider.update_convs(6,8))

text \<open>A zero-distance movement on day 0 of a rider whose fix is on day 0.\<close>

lemma still_move_day0:
  assumes l: "r_last rider = Some \<lparr>fix_lat = 0, fix_lon = 0, fix_ts = 2000\<rparr>"
    and i: "r_id rider = ''r1''"
  shows "handlePosition 0 4000 (oneRider rider) (sample 0 0 3000) =
     (Returned (Accepted ''r1''),
      fst (snd (handlePosition 0 4000 (oneRider rider) (sample 0 0 3000))),
      snd (snd (handlePosition 0 4000 (oneRider rider) (sample 0 0 3000))))"
    and "moves 4000 rider (sample 0 0 3000)"
    and "sampleMeters rider (sample 0 0 3000) = 0"
proof -
  have v: "p_lat (sample 0 0 3000) = Some 0" "p_lon (sample 0 0 3000) = Some 0"
    "p_id (sample 0 0 3000) \<noteq> []"
    and r: "riders (oneRider rider) (p_id (sample 0 0 3000)) = Some rider"
    by (simp_all add: sample_def oneRider_def)
  have ts: "sampleTs 4000 (sample 0 0 3000) = 3000"
    by (simp add: sampleTs_def sample_def)
  show mv: "moves 4000 rider (sample 0 0 3000)"
    by (simp add: moves_def l ts)
  show m: "sampleMeters rider (sample 0 0 3000) = 0"
    by (simp add: sampleMeters_def l sample_def haversine_same)
  have sp: "\<not> sampleSpeedKmh 4000 rider (sample 0 0 3000) > MAX_SPEED_KMH"
    by (simp add: sampleSpeedKmh_def l m ts impliedSpeedKmh_def MAX_SPEED_KMH_def)
  have "\<exists>r5 evs. challengeLoop 0 4000 0 3000 (scoredRider rider 0 0 3000 0, [])
                    defaultChallenges = Inr (r5, evs)"
    by (rule challengeLoop_returns) (rule default_keys_day0, simp_all)
  then obtain r5 evs where
    loop: "challengeLoop 0 4000 (sampleMeters rider (sample 0 0 3000))
             (sampleTs 4000 (sample 0 0 3000))
             (scoredRider rider 0 0 (sampleTs 4000 (sample 0 0 3000))
                (sampleMeters rider (sample 0 0 3000)), [])
             (challenges (oneRider rider)) = Inr (r5, evs)"
    unfolding m ts by (auto simp: oneRider_def)
  have "r_id r5 = ''r1''"
    using challengeLoop_r_id [OF loop] by (simp add: r_id_scoredRider i)
  with handlePosition_accepts_move(1) [OF v r mv sp loop]
  have "fst (handlePosition 0 4000 (oneRider rider) (sample 0 0 3000)) = Returned (Accepted ''r1'')"
    by simp
  then show "handlePosition 0 4000 (oneRider rider) (sample 0 0 3000) =
     (Returned (Accepted ''r1''),
      fst (snd (handlePosition 0 4000 (oneRider rider) (sample 0 0 3000))),
      snd (snd (handlePosition 0 4000 (oneRider rider) (sample 0 0 3000))))"
    by (metis prod.collapse)
qed

subsection \<open>When the window rollover is checked\<close>

text \<open>
  Claim C4 says that the rollover check also runs for an accepted sample whose timestamp
  is not greater than the stored one. Such a sample is accepted without the check: here
  the stored fix and the stored daily progress are of 1970-01-04, the sample is of
  1970-01-01, and the progress keeps its 500 metres and its key.
\<close>

theorem duplicate_sample_skips_rollover:
  "fst (handlePosition 0 259300000
          (oneRider (riderDaily 0 0 259200000
             \<lparr>progressMeters = 500, lastReset = Some ''1970-01-04'', completed = False,
              completedAt = None\<rparr>))
          (sample 0 0 2000)) = Returned (Accepted ''r1'')
   \<and> sampleTs 259300000 (sample 0 0 2000) \<le> 259200000
   \<and> windowKey 0 Daily (sampleTs 259300000 (sample 0 0 2000)) = Some ''1970-01-01''
   \<and> (\<exists>rider'.
         riders (fst (snd (handlePosition 0 259300000
          (oneRider (riderDaily 0 0 259200000
             \<lparr>progressMeters = 500, lastReset = Some ''1970-01-04'', completed = False,
              completedAt = None\<rparr>))
          (sample 0 0 2000)))) ''r1'' = Some rider'
       \<and> r_challenges rider' ''daily_1km''
           = Some \<lparr>progressMeters = 500, lastReset = Some ''1970-01-04'', completed = False,
                   completedAt = None\<rparr>)"
proof -
  have ts: "sampleTs 259300000 (sample 0 0 2000) = 2000"
    by (simp add: sampleTs_def sample_def)
  have key: "windowKey 0 Daily 2000 = Some ''1970-01-01''"
    by (simp add: windowKey_def dayKey_day0)
  show ?thesis
    unfolding ts key
    by (simp add: handlePosition_def oneRider_def riderDaily_def riderAt_def newRider_def
        sample_def sampleTs_def refresh_def Let_def)
qed


text \<open>
  Claim C4, amended. Take an accepted sample of a rider of the table and a challenge of
  the table (whose ids are distinct).
  \<^item> If the sample was compared with the stored fix (line 163: a last fix with a
    timestamp that is not 0 and older than the sample's), zero-distance samples included,
    the rollover check is executed: when the window key of the sample differs from the
    stored key, the progress restarts from 0 and from \<open>completed = false\<close> under the new
    key before the distance of the sample is added, so that afterwards
    \<open>progressMeters\<close> is that distance alone and \<open>completed\<close> tells whether it reaches
    the target.
  \<^item> Otherwise (a sample not newer than the stored fix, or a first sample) the check is
    not executed and the challenge progress of the rider is unchanged.
\<close>

theorem rollover_only_on_movement:
  assumes hp: "handlePosition tz now D p = (Returned (Accepted i), D', bs)"
    and r: "riders D (p_id p) = Some rider"
    and dist: "distinct (map fst (challenges D))"
    and mem: "(cid, chal) \<in> set (challenges D)"
  shows "\<exists>rider'. riders D' (p_id p) = Some rider'
          \<and> (moves now rider p \<longrightarrow>
               (\<forall>k. windowKey tz (c_period chal) (sampleTs now p) = Some k
                      \<and> lastReset (storedProgress rider cid) \<noteq> Some k \<longrightarrow>
                  (\<exists>prog'. r_challenges rider' cid = Some prog'
                      \<and> lastReset prog' = Some k
                      \<and> progressMeters prog' = 0 + sampleMeters rider p
                      \<and> (completed prog' \<longleftrightarrow> targetMeters chal \<le> 0 + sampleMeters rider p))))
          \<and> (\<not> moves now rider p \<longrightarrow> r_challenges rider' = r_challenges rider)"
  using hp r
proof (cases rule: accepted_cases)
  case (refreshed plat plon)
  then show ?thesis by (simp add: r_challenges_refresh)
next
  case (moved plat plon r5 evs)
  have "\<exists>prog'. r_challenges r5 cid = Some prog'
                      \<and> lastReset prog' = Some k
                      \<and> progressMeters prog' = 0 + sampleMeters rider p
                      \<and> (completed prog' \<longleftrightarrow> targetMeters chal \<le> 0 + sampleMeters rider p)"
    if key: "windowKey tz (c_period chal) (sampleTs now p) = Some k"
      and diff: "lastReset (storedProgress rider cid) \<noteq> Some k" for k
    using moved_progress [OF moved(5) dist mem key] diff
    by (simp add: rollover_def accumulate_def)
  with moved show ?thesis by (simp add: r_challenges_refresh)
qed


theorem rollover_only_on_movement_witness:
  "handlePosition 0 4000
      (oneRider (riderDaily 0 0 2000
         \<lparr>progressMeters = 500, lastReset = Some ''1969-12-31'', completed = True,
          completedAt = Some 1\<rparr>))
      (sample 0 0 3000)
    = (Returned (Accepted ''r1''),
       fst (snd (handlePosition 0 4000
         (oneRider (riderDaily 0 0 2000
            \<lparr>progressMeters = 500, lastReset = Some ''1969-12-31'', completed = True,
             completedAt = Some 1\<rparr>))
         (sample 0 0 3000))),
       snd (snd (handlePosition 0 4000
         (oneRider (riderDaily 0 0 2000
            \<lparr>progressMeters = 500, lastReset = Some ''1969-12-31'', completed = True,
             completedAt = Some 1\<rparr>))
         (sample 0 0 3000))))
   \<and> moves 4000 (riderDaily 0 0 2000
         \<lparr>progressMeters = 500, lastReset = Some ''1969-12-31'', completed = True,
          completedAt = Some 1\<rparr>) (sample 0 0 3000)
   \<and> windowKey 0 Daily (sampleTs 4000 (sample 0 0 3000)) = Some ''1970-01-01''
   \<and> (\<exists>rider' prog'.
         riders (fst (snd (handlePosition 0 4000
           (oneRider (riderDaily 0 0 2000
              \<lparr>progressMeters = 500, lastReset = Some ''1969-12-31'', completed = True,
               completedAt = Some 1\<rparr>))
           (sample 0 0 3000)))) ''r1'' = Some rider'
       \<and> r_challenges rider' ''daily_1km'' = Some prog'
       \<and> lastReset prog' = Some ''1970-01-01''
       \<and> progressMeters prog' = 0
       \<and> \<not> completed prog')"
proof -
  define old where "old = \<lparr>progressMeters = 500, lastReset = Some ''1969-12-31'',
    completed = True, completedAt = Some (1::int)\<rparr>"
  define rider where "rider = riderDaily 0 0 2000 old"
  define p where "p = sample 0 0 3000"
  define D' where "D' = fst (snd (handlePosition 0 4000 (oneRider rider) p))"
  define bs where "bs = snd (snd (handlePosition 0 4000 (oneRider rider) p))"
  have l: "r_last rider = Some \<lparr>fix_lat = 0, fix_lon = 0, fix_ts = 2000\<rparr>"
    and i: "r_id rider = ''r1''"
    by (simp_all add: rider_def riderDaily_def riderAt_def newRider_def)
  have hp: "handlePosition 0 4000 (oneRider rider) p = (Returned (Accepted ''r1''), D', bs)"
    and mv: "moves 4000 rider p" and m: "sampleMeters rider p = 0"
    unfolding D'_def bs_def p_def by (rule still_move_day0 [OF l i])+
  have r: "riders (oneRider rider) (p_id p) = Some rider" and pid: "p_id p = ''r1''"
    by (simp_all add: oneRider_def p_def sample_def)
  have mem: "(''daily_1km'', snd (hd defaultChallenges)) \<in> set (challenges (oneRider rider))"
    and dist: "distinct (map fst (challenges (oneRider rider)))"
    and per: "c_period (snd (hd defaultChallenges)) = Daily"
    and tgt: "targetMeters (snd (hd defaultChallenges)) = 1000"
    by (simp_all add: oneRider_def defaultChallenges_def)
  have key: "windowKey 0 Daily (sampleTs 4000 p) = Some ''1970-01-01''"
    by (simp add: windowKey_def dayKey_day0 sampleTs_def sample_def p_def)
  have diff: "lastReset (storedProgress rider ''daily_1km'') \<noteq> Some ''1970-01-01''"
    by (simp add: storedProgress_def rider_def riderDaily_def old_def)
  from rollover_only_on_movement [OF hp r dist mem] obtain rider' where
    a: "riders D' (p_id p) = Some rider'" and
    b: "moves 4000 rider p \<longrightarrow>
               (\<forall>k. windowKey 0 (c_period (snd (hd defaultChallenges))) (sampleTs 4000 p) = Some k
                      \<and> lastReset (storedProgress rider ''daily_1km'') \<noteq> Some k \<longrightarrow>
                  (\<exists>prog'. r_challenges rider' ''daily_1km'' = Some prog'
                      \<and> lastReset prog' = Some k
                      \<and> progressMeters prog' = 0 + sampleMeters rider p
                      \<and> (completed prog' \<longleftrightarrow>
                           targetMeters (snd (hd defaultChallenges)) \<le> 0 + sampleMeters rider p)))"
    by (elim exE conjE) (rule that)
  from b [rule_format, OF mv, of "''1970-01-01''"] key diff per obtain prog' where
    "r_challenges rider' ''daily_1km'' = Some prog'" "lastReset prog' = Some ''1970-01-01''"
    "progressMeters prog' = 0" "\<not> completed prog'"
    by (auto simp: m tgt)
  with a pid have "\<exists>rider' prog'. riders D' ''r1'' = Some rider'
       \<and> r_challenges rider' ''daily_1km'' = Some prog'
       \<and> lastReset prog' = Some ''1970-01-01''
       \<and> progressMeters prog' = 0
       \<and> \<not> completed prog'"
    by auto
  with hp mv key show ?thesis
    unfolding D'_def bs_def p_def rider_def old_def by simp
qed

subsection \<open>A completed challenge\<close>

lemma atan2_sin_cos:
  assumes "0 \<le> x" and "x < pi / 2"
  shows "atan2 (sin x) (cos x) = x"
proof -
  have c: "0 < cos x"
    using assms by (intro cos_gt_zero_pi) simp_all
  have "arctan (tan x) = x"
    using assms by (intro arctan_tan) simp_all
  with c show ?thesis by (simp add: atan2_def tan_def)
qed

lemma haversine_equator:
  assumes "0 \<le> d" and "d < 180"
  shows "haversineMeters \<lparr>lat = 0, lon = 0\<rparr> \<lparr>lat = 0, lon = d\<rparr> = 6371000 * toRad d"
proof -
  define x where "x = toRad d / 2"
  have x: "0 \<le> x" "x < pi / 2"
    using assms by (simp_all add: x_def toRad_def)
  have s: "0 \<le> sin x"
    using x by (intro sin_ge_zero) simp_all
  have c: "0 < cos x"
    using x by (intro cos_gt_zero_pi) simp_all
  have "1 - sin x * sin x = cos x * cos x"
    using sin_cos_squared_add [of x] by (simp add: power2_eq_square algebra_simps)
  then have "atan2 (sqrt (sin x * sin x)) (sqrt (1 - sin x * sin x)) = atan2 (sin x) (cos x)"
    using s c by simp
  also have "\<dots> = x" using x by (rule atan2_sin_cos)
  finally show ?thesis
    by (simp add: haversineMeters_def Let_def x_def [symmetric]) (simp add: x_def toRad_def)
qed


text \<open>A movement of 9 degrees along the equator within day 0.\<close>

lemma move_day0:
  assumes l: "r_last rider = Some \<lparr>fix_lat = 0, fix_lon = 0, fix_ts = 2000\<rparr>"
    and i: "r_id rider = ''r1''"
  shows "handlePosition 0 40003000 (oneRider rider) (sample 0 9 40002000) =
     (Returned (Accepted ''r1''),
      fst (snd (handlePosition 0 40003000 (oneRider rider) (sample 0 9 40002000))),
      snd (snd (handlePosition 0 40003000 (oneRider rider) (sample 0 9 40002000))))"
    and "moves 40003000 rider (sample 0 9 40002000)"
    and "sampleMeters rider (sample 0 9 40002000) = 6371000 * toRad 9"
proof -
  let ?p = "sample 0 9 40002000"
  have v: "p_lat ?p = Some 0" "p_lon ?p = Some 9" "p_id ?p \<noteq> []"
    and r: "riders (oneRider rider) (p_id ?p) = Some rider"
    by (simp_all add: sample_def oneRider_def)
  have ts: "sampleTs 40003000 ?p = 40002000"
    by (simp add: sampleTs_def sample_def)
  show mv: "moves 40003000 rider ?p"
    by (simp add: moves_def l ts)
  show m: "sampleMeters rider ?p = 6371000 * toRad 9"
    by (simp add: sampleMeters_def l sample_def haversine_equator)
  have sp: "\<not> sampleSpeedKmh 40003000 rider ?p > MAX_SPEED_KMH"
    using pi_less_4
    by (simp add: sampleSpeedKmh_def l m ts impliedSpeedKmh_def MAX_SPEED_KMH_def toRad_def)
  have "\<exists>r5 evs. challengeLoop 0 40003000 (6371000 * toRad 9) 40002000
                    (scoredRider rider 0 9 40002000 (6371000 * toRad 9), [])
                    defaultChallenges = Inr (r5, evs)"
    by (rule challengeLoop_returns) (rule default_keys_day0, simp_all)
  then obtain r5 evs where
    loop: "challengeLoop 0 40003000 (sampleMeters rider ?p) (sampleTs 40003000 ?p)
             (scoredRider rider 0 9 (sampleTs 40003000 ?p) (sampleMeters rider ?p), [])
             (challenges (oneRider rider)) = Inr (r5, evs)"
    unfolding m ts by (auto simp: oneRider_def)
  have "r_id r5 = ''r1''"
    using challengeLoop_r_id [OF loop] by (simp add: r_id_scoredRider i)
  with handlePosition_accepts_move(1) [OF v r mv sp loop]
  have "fst (handlePosition 0 40003000 (oneRider rider) ?p) = Returned (Accepted ''r1'')"
    by simp
  then show "handlePosition 0 40003000 (oneRider rider) ?p =
     (Returned (Accepted ''r1''),
      fst (snd (handlePosition 0 40003000 (oneRider rider) ?p)),
      snd (snd (handlePosition 0 40003000 (oneRider rider) ?p)))"
    by (metis prod.collapse)
qed

lemma sampleMeters_nonneg: "0 \<le> sampleMeters rider p"
  by (simp add: sampleMeters_def haversineMeters_nonneg split: option.splits)

lemma challengeLoop_distance:
  assumes "challengeLoop tz clock d t (r, evs) cs = Inr (r', evs')"
  shows "distance r' = distance r"
  using challengeLoop_frame [OF assms]
  by (metis rider.select_convs(5) rider.surjective rider.update_convs(6,8))

text \<open>
  Claim C10. Take an accepted sample of a rider of the table and a challenge of the table
  (whose ids are distinct) for which the rider's stored progress is completed under the
  window key of the sample. The call leaves that progress as it is, \<open>progressMeters\<close>
  included, while the cumulative distance of the rider grows by the distance of the
  sample when the sample was compared with the stored fix, and never decreases.
\<close>

theorem completed_progress_frozen:
  assumes hp: "handlePosition tz now D p = (Returned (Accepted i), D', bs)"
    and r: "riders D (p_id p) = Some rider"
    and dist: "distinct (map fst (challenges D))"
    and mem: "(cid, chal) \<in> set (challenges D)"
    and prog: "r_challenges rider cid = Some prog"
    and comp: "completed prog"
    and key: "windowKey tz (c_period chal) (sampleTs now p) = Some k"
    and same: "lastReset prog = Some k"
  shows "\<exists>rider'. riders D' (p_id p) = Some rider'
          \<and> r_challenges rider' cid = Some prog
          \<and> distance rider' = distance rider + (if moves now rider p then sampleMeters rider p else 0)
          \<and> distance rider \<le> distance rider'"
  using hp r
proof (cases rule: accepted_cases)
  case (refreshed plat plon)
  with prog show ?thesis
    by (simp add: r_challenges_refresh distance_refresh)
next
  case (moved plat plon r5 evs)
  have sp: "storedProgress rider cid = prog"
    by (simp add: storedProgress_def prog)
  have "r_challenges r5 cid = Some prog"
    using moved_progress [OF moved(5) dist mem key] same comp
    by (simp add: sp rollover_def accumulate_def)
  moreover have "distance r5 = distance rider + sampleMeters rider p"
    using challengeLoop_distance [OF moved(5)] by (simp add: scoredRider_def)
  ultimately show ?thesis
    using moved(1,6) sampleMeters_nonneg [of rider p]
    by (simp add: r_challenges_refresh distance_refresh)
qed

theorem completed_progress_frozen_witness:
  "handlePosition 0 40003000
      (oneRider ((riderDaily 0 0 2000
         \<lparr>progressMeters = 1200, lastReset = Some ''1970-01-01'', completed = True,
          completedAt = Some 5\<rparr>)\<lparr>distance := 1200\<rparr>))
      (sample 0 9 40002000)
    = (Returned (Accepted ''r1''),
       fst (snd (handlePosition 0 40003000
         (oneRider ((riderDaily 0 0 2000
            \<lparr>progressMeters = 1200, lastReset = Some ''1970-01-01'', completed = True,
             completedAt = Some 5\<rparr>)\<lparr>distance := 1200\<rparr>))
         (sample 0 9 40002000))),
       snd (snd (handlePosition 0 40003000
         (oneRider ((riderDaily 0 0 2000
            \<lparr>progressMeters = 1200, lastReset = Some ''1970-01-01'', completed = True,
             completedAt = Some 5\<rparr>)\<lparr>distance := 1200\<rparr>))
         (sample 0 9 40002000))))
   \<and> windowKey 0 Daily (sampleTs 40003000 (sample 0 9 40002000)) = Some ''1970-01-01''
   \<and> (\<exists>rider'.
         riders (fst (snd (handlePosition 0 40003000
           (oneRider ((riderDaily 0 0 2000
              \<lparr>progressMeters = 1200, lastReset = Some ''1970-01-01'', completed = True,
               completedAt = Some 5\<rparr>)\<lparr>distance := 1200\<rparr>))
           (sample 0 9 40002000)))) ''r1'' = Some rider'
       \<and> r_challenges rider' ''daily_1km''
           = Some \<lparr>progressMeters = 1200, lastReset = Some ''1970-01-01'', completed = True,
                   completedAt = Some 5\<rparr>
       \<and> distance rider' = 1200 + 6371000 * toRad 9
       \<and> 1200 < distance rider')"
proof -
  define old where "old = \<lparr>progressMeters = 1200, lastReset = Some ''1970-01-01'',
    completed = True, completedAt = Some (5::int)\<rparr>"
  define rider where "rider = (riderDaily 0 0 2000 old)\<lparr>distance := 1200\<rparr>"
  define p where "p = sample 0 9 40002000"
  define D' where "D' = fst (snd (handlePosition 0 40003000 (oneRider rider) p))"
  define bs where "bs = snd (snd (handlePosition 0 40003000 (oneRider rider) p))"
  have l: "r_last rider = Some \<lparr>fix_lat = 0, fix_lon = 0, fix_ts = 2000\<rparr>"
    and i: "r_id rider = ''r1''"
    by (simp_all add: rider_def riderDaily_def riderAt_def newRider_def)
  have hp: "handlePosition 0 40003000 (oneRider rider) p = (Returned (Accepted ''r1''), D', bs)"
    and mv: "moves 40003000 rider p" and m: "sampleMeters rider p = 6371000 * toRad 9"
    unfolding D'_def bs_def p_def by (rule move_day0 [OF l i])+
  have r: "riders (oneRider rider) (p_id p) = Some rider" and pid: "p_id p = ''r1''"
    by (simp_all add: oneRider_def p_def sample_def)
  have mem: "(''daily_1km'', snd (hd defaultChallenges)) \<in> set (challenges (oneRider rider))"
    and dist: "distinct (map fst (challenges (oneRider rider)))"
    and per: "c_period (snd (hd defaultChallenges)) = Daily"
    by (simp_all add: oneRider_def defaultChallenges_def)
  have key: "windowKey 0 Daily (sampleTs 40003000 p) = Some ''1970-01-01''"
    by (simp add: windowKey_def dayKey_day0 sampleTs_def sample_def p_def)
  have prog: "r_challenges rider ''daily_1km'' = Some old" and comp: "completed old"
    and same: "lastReset old = Some ''1970-01-01''" and d0: "distance rider = 1200"
    by (simp_all add: rider_def riderDaily_def old_def)
  have pos: "0 < 6371000 * toRad 9"
    by (simp add: toRad_def)
  from completed_progress_frozen [OF hp r dist mem prog comp key [folded per] same]
  obtain rider' where "riders D' (p_id p) = Some rider'"
    "r_challenges rider' ''daily_1km'' = Some old"
    "distance rider' = distance rider + (if moves 40003000 rider p then sampleMeters rider p else 0)"
    by (elim exE conjE) (rule that)
  with mv m d0 pid pos have "\<exists>rider'. riders D' ''r1'' = Some rider'
       \<and> r_challenges rider' ''daily_1km'' = Some old
       \<and> distance rider' = 1200 + 6371000 * toRad 9
       \<and> 1200 < distance rider'"
    by auto
  with hp key show ?thesis
    unfolding D'_def bs_def p_def rider_def old_def by simp
qed

subsection \<open>The completion bonus\<close>

lemma completionEvents_id:
  "e \<in> set (completionEvents tz d t r entry) \<Longrightarrow> e_challengeId e = fst entry"
  by (auto simp: completionEvents_def split: option.splits if_splits)

lemma filter_completionEvents_other:
  "fst entry \<noteq> cid \<Longrightarrow>
   filter (\<lambda>e. e_challengeId e = cid) (completionEvents tz d t r entry) = []"
  by (auto simp: filter_empty_conv dest: completionEvents_id)

lemma filter_completionEvents_same:
  "filter (\<lambda>e. e_challengeId e = cid) (completionEvents tz d t r (cid, chal))
     = completionEvents tz d t r (cid, chal)"
  by (auto simp: filter_id_conv dest: completionEvents_id)

lemma filter_events_for:
  "distinct (map fst cs) \<Longrightarrow> (cid, chal) \<in> set cs \<Longrightarrow>
   filter (\<lambda>e. e_challengeId e = cid) (concat (map (completionEvents tz d t r) cs))
     = completionEvents tz d t r (cid, chal)"
proof (induction cs)
  case Nil
  then show ?case by simp
next
  case (Cons e cs)
  show ?case
  proof (cases "e = (cid, chal)")
    case True
    with Cons.prems(1) have "\<And>e'. e' \<in> set cs \<Longrightarrow> fst e' \<noteq> cid"
      by force
    then have "filter (\<lambda>e. e_challengeId e = cid) (concat (map (completionEvents tz d t r) cs)) = []"
      by (induction cs) (simp_all add: filter_completionEvents_other)
    with True show ?thesis
      by (simp add: filter_completionEvents_same)
  next
    case False
    with Cons.prems have mem: "(cid, chal) \<in> set cs" and d: "distinct (map fst cs)"
      by auto
    from mem have "cid \<in> fst ` set cs" by force
    with Cons.prems(1) have ne: "fst e \<noteq> cid" by auto
    with Cons.IH mem d show ?thesis
      by (simp add: filter_completionEvents_other)
  qed
qed

lemma completed_rollover:
  "completed (rollover k (storedProgress r cid)) \<longleftrightarrow> completedIn k r cid"
  by (simp add: rollover_def storedProgress_def completedIn_def freshProgress_def
      split: option.splits)

lemma completed_accumulate:
  "completed (accumulate clock d chal prog) \<longleftrightarrow> completed prog \<or> completes d chal prog"
  by (simp add: accumulate_def completes_def)

lemma lastReset_accumulate_rollover:
  "lastReset (accumulate clock d chal (rollover k prog)) = Some k"
  by (simp add: accumulate_def rollover_def)

text \<open>One call, for a challenge whose window key for the sample is \<open>k\<close>.\<close>

lemma call_in_window:
  assumes dist: "distinct (map fst chals)" and mem: "(cid, chal) \<in> set chals"
    and key: "windowKey tz (c_period chal) (if ts = 0 then clock else ts) = Some k"
    and call: "updateChallengesForRider tz clock chals r d ts = Inr (r', evs)"
  shows "filter (\<lambda>e. e_challengeId e = cid) evs
           = (if completedIn k r' cid \<and> \<not> completedIn k r cid
              then [\<lparr>e_challengeId = cid, e_riderId = r_id r, e_bonusPoints = bonusOf chal\<rparr>]
              else [])"
    and "completedIn k r cid \<Longrightarrow> completedIn k r' cid"
    and "score r' = score r + sum_list (map e_bonusPoints evs)"
    and "r_id r' = r_id r"
proof -
  let ?t = "if ts = 0 then clock else ts"
  let ?p1 = "rollover k (storedProgress r cid)"
  from call have loop: "challengeLoop tz clock d ?t (r, []) chals = Inr (r', evs)"
    by (simp add: updateChallengesForRider_def)
  have evs: "evs = concat (map (completionEvents tz d ?t r) chals)"
    using challengeLoop_events [OF dist loop] by simp
  have rw: "resetWindow tz (c_period chal) ?t (storedProgress r cid) = Some ?p1"
    using key by (rule resetWindow_key)
  from challengeLoop_progress [OF dist loop mem] rw
  have after: "r_challenges r' cid = Some (accumulate clock d chal ?p1)"
    by simp
  have c': "completedIn k r' cid \<longleftrightarrow> completedIn k r cid \<or> completes d chal ?p1"
    by (simp add: completedIn_def after lastReset_accumulate_rollover completed_accumulate
        completed_rollover)
  have excl: "completes d chal ?p1 \<Longrightarrow> \<not> completedIn k r cid"
    by (simp add: completes_def completed_rollover)
  have "filter (\<lambda>e. e_challengeId e = cid) evs = completionEvents tz d ?t r (cid, chal)"
    unfolding evs using dist mem by (rule filter_events_for)
  also have "\<dots> = (if completes d chal ?p1
              then [\<lparr>e_challengeId = cid, e_riderId = r_id r, e_bonusPoints = bonusOf chal\<rparr>]
              else [])"
    by (simp add: completionEvents_def rw)
  finally show "filter (\<lambda>e. e_challengeId e = cid) evs
           = (if completedIn k r' cid \<and> \<not> completedIn k r cid
              then [\<lparr>e_challengeId = cid, e_riderId = r_id r, e_bonusPoints = bonusOf chal\<rparr>]
              else [])"
    using c' excl by auto
  show "completedIn k r cid \<Longrightarrow> completedIn k r' cid"
    using c' by simp
  show "score r' = score r + sum_list (map e_bonusPoints evs)"
    using challengeLoop_score [OF dist loop] by (simp add: evs)
  show "r_id r' = r_id r"
    using loop by (rule challengeLoop_r_id)
qed

lemma three_calls_day0:
  "\<exists>rider'. updateAll 0 defaultChallenges (newRider ''r1'' ''Ada'' 1)
       [(5000, 600, 1000), (5000, 600, 2000), (5000, 600, 3000)]
     = Inr (rider', [\<lparr>e_challengeId = ''daily_1km'', e_riderId = ''r1'', e_bonusPoints = 5\<rparr>])"
  by (simp add: updateChallengesForRider_def defaultChallenges_def challengeStep_def
      resetWindow_def dayKey_day0 weekKey_day0 rollover_def storedProgress_def freshProgress_def
      newRider_def Let_def)

text \<open>
  Claim C7, amended. Take a challenge of the table (whose ids are distinct) and successive
  calls of \<^verbatim>\<open>updateChallengesForRider\<close> for a rider, as the accepted movements make them,
  all with samples that compute one window key \<open>k\<close> for the challenge, so that no sample
  with another key comes in between. Among all the
  events of these calls there is exactly one \<^verbatim>\<open>challenge_completed\<close> event for the
  challenge if the progress reaches \<open>completed\<close> in that window during the calls, and
  none otherwise; in particular none once the progress is completed in the window, and it
  then stays completed. The event carries the bonus \<open>floor (targetMeters / 1000) * 5\<close>,
  and the score grows by exactly the bonuses of the events emitted, so the bonus of the
  challenge is added once in such a run. A sample with another key ends the run: it resets
  the progress, also when its key is an earlier one.
\<close>

theorem completion_bonus_once:
  assumes dist: "distinct (map fst chals)" and mem: "(cid, chal) \<in> set chals"
    and win: "\<forall>(clock, d, ts) \<in> set samples.
                windowKey tz (c_period chal) (if ts = 0 then clock else ts) = Some k"
    and run: "updateAll tz chals rider samples = Inr (rider', evs)"
  shows "filter (\<lambda>e. e_challengeId e = cid) evs
           = (if completedIn k rider' cid \<and> \<not> completedIn k rider cid
              then [\<lparr>e_challengeId = cid, e_riderId = r_id rider,
                     e_bonusPoints = \<lfloor>targetMeters chal / 1000\<rfloor> * 5\<rparr>]
              else [])
       \<and> (completedIn k rider cid \<longrightarrow> completedIn k rider' cid)
       \<and> score rider' = score rider + sum_list (map e_bonusPoints evs)"
proof -
  have "filter (\<lambda>e. e_challengeId e = cid) evs
           = (if completedIn k rider' cid \<and> \<not> completedIn k rider cid
              then [\<lparr>e_challengeId = cid, e_riderId = r_id rider, e_bonusPoints = bonusOf chal\<rparr>]
              else [])
       \<and> (completedIn k rider cid \<longrightarrow> completedIn k rider' cid)
       \<and> score rider' = score rider + sum_list (map e_bonusPoints evs)
       \<and> r_id rider' = r_id rider"
    using win run
  proof (induction samples arbitrary: rider evs)
    case Nil
    then show ?case by simp
  next
    case (Cons s samples)
    obtain clock d ts where s: "s = (clock, d, ts)" by (cases s)
    from Cons.prems(1) have key: "windowKey tz (c_period chal) (if ts = 0 then clock else ts) = Some k"
      and win': "\<forall>(clock, d, ts) \<in> set samples.
                windowKey tz (c_period chal) (if ts = 0 then clock else ts) = Some k"
      by (simp_all add: s)
    from Cons.prems(2) obtain r1 ev1 ev2 where
      call: "updateChallengesForRider tz clock chals rider d ts = Inr (r1, ev1)" and
      rest: "updateAll tz chals r1 samples = Inr (rider', ev2)" and
      evs: "evs = ev1 @ ev2"
      by (auto simp: s split: sum.splits)
    note one = call_in_window [OF dist mem key call]
    note ih = Cons.IH [OF win' rest]
    show ?case
      using one(1) one(2) one(3) one(4) ih unfolding evs
      by (cases "completedIn k rider cid"; cases "completedIn k r1 cid";
          cases "completedIn k rider' cid") simp_all
  qed
  then show ?thesis by (simp add: bonusOf_def)
qed


theorem completion_bonus_once_witness:
  "\<exists>rider'. updateAll 0 defaultChallenges (newRider ''r1'' ''Ada'' 1)
       [(5000, 600, 1000), (5000, 600, 2000), (5000, 600, 3000)]
     = Inr (rider', [\<lparr>e_challengeId = ''daily_1km'', e_riderId = ''r1'', e_bonusPoints = 5\<rparr>])
   \<and> completedIn ''1970-01-01'' rider' ''daily_1km''
   \<and> \<not> completedIn ''1970-01-01'' (newRider ''r1'' ''Ada'' 1) ''daily_1km''
   \<and> score rider' = 5"
proof -
  define S where "S = [(5000::int, 600::real, 1000::int), (5000, 600, 2000), (5000, 600, 3000)]"
  define ev where
    "ev = \<lparr>e_challengeId = ''daily_1km'', e_riderId = ''r1'', e_bonusPoints = (5::int)\<rparr>"
  from three_calls_day0 obtain rider' where
    run: "updateAll 0 defaultChallenges (newRider ''r1'' ''Ada'' 1) S = Inr (rider', [ev])"
    unfolding S_def ev_def by blast
  have mem: "(''daily_1km'', snd (hd defaultChallenges)) \<in> set defaultChallenges"
    and per: "c_period (snd (hd defaultChallenges)) = Daily"
    by (simp_all add: defaultChallenges_def)
  have win: "\<forall>(clock, d, ts) \<in> set S.
               windowKey 0 (c_period (snd (hd defaultChallenges))) (if ts = 0 then clock else ts)
                 = Some ''1970-01-01''"
    by (simp add: S_def per windowKey_def dayKey_day0)
  have before: "\<not> completedIn ''1970-01-01'' (newRider ''r1'' ''Ada'' 1) ''daily_1km''"
    by (simp add: completedIn_def newRider_def)
  note t = completion_bonus_once [OF defaultChallenges_distinct mem win run]
  from t have "filter (\<lambda>e. e_challengeId e = ''daily_1km'') [ev] \<noteq> []
                 \<longrightarrow> completedIn ''1970-01-01'' rider' ''daily_1km''"
    by (auto split: if_splits)
  then have after: "completedIn ''1970-01-01'' rider' ''daily_1km''"
    by (simp add: ev_def)
  from t have "score rider' = score (newRider ''r1'' ''Ada'' 1) + sum_list (map e_bonusPoints [ev])"
    by (elim conjE)
  then have "score rider' = 5"
    by (simp add: newRider_def ev_def)
  with run after before show ?thesis
    unfolding S_def ev_def by blast
qed

subsection \<open>Distance and score never decrease\<close>

lemma bonusOf_nonneg: "0 \<le> targetMeters chal \<Longrightarrow> 0 \<le> bonusOf chal"
  by (simp add: bonusOf_def)

lemma challengeLoop_mono:
  assumes "\<forall>(cid, chal) \<in> set cs. 0 \<le> targetMeters chal"
    and "challengeLoop tz clock d t (r, evs) cs = Inl r'
         \<or> challengeLoop tz clock d t (r, evs) cs = Inr (r', evs')"
  shows "distance r' = distance r \<and> score r \<le> score r'"
  using assms
proof (induction cs arbitrary: r evs)
  case Nil
  then show ?case by simp
next
  case (Cons e cs)
  obtain cid chal where e: "e = (cid, chal)" by (cases e)
  from Cons.prems(1) have tg: "0 \<le> targetMeters chal"
    and tgs: "\<forall>(cid, chal) \<in> set cs. 0 \<le> targetMeters chal"
    by (simp_all add: e)
  show ?case
  proof (cases "resetWindow tz (c_period chal) t (storedProgress r cid)")
    case None
    with Cons.prems(2) show ?thesis
      by (auto simp: e challengeStep_Inl)
  next
    case (Some prog1)
    let ?r1 = "stepRider clock d chal cid prog1 r"
    from Cons.prems(2) Some
    have "challengeLoop tz clock d t (?r1, evs @ completionEvents tz d t r (cid, chal)) cs = Inl r'
         \<or> challengeLoop tz clock d t (?r1, evs @ completionEvents tz d t r (cid, chal)) cs
             = Inr (r', evs')"
      by (simp add: e challengeStep_Inr stepRider_def)
    from Cons.IH [OF tgs this] have "distance r' = distance ?r1" "score ?r1 \<le> score r'"
      by simp_all
    moreover have "distance ?r1 = distance r" "score r \<le> score ?r1"
      using bonusOf_nonneg [OF tg] by (simp_all add: stepRider_def)
    ultimately show ?thesis by simp
  qed
qed

lemma scoredRider_mono:
  "0 \<le> d \<Longrightarrow> distance rider \<le> distance (scoredRider rider plat plon ts d)"
  "score rider \<le> score (scoredRider rider plat plon ts d)"
  by (simp_all add: scoredRider_def)

lemma handlePosition_challenges:
  "challenges (fst (snd (handlePosition tz now D p))) = challenges D"
  by (simp add: handlePosition_def Let_def split: option.splits sum.splits prod.splits)

lemma handlePosition_others:
  "rid \<noteq> p_id p \<Longrightarrow> riders (fst (snd (handlePosition tz now D p))) rid = riders D rid"
  by (simp add: handlePosition_def Let_def split: option.splits sum.splits prod.splits)

lemma handlePosition_mono:
  assumes tg: "\<forall>(cid, chal) \<in> set (challenges D). 0 \<le> targetMeters chal"
    and r: "riders D rid = Some rider"
  shows "\<exists>rider'. riders (fst (snd (handlePosition tz now D p))) rid = Some rider'
           \<and> distance rider \<le> distance rider' \<and> score rider \<le> score rider'"
proof (cases "rid = p_id p")
  case False
  with r show ?thesis by (simp add: handlePosition_others)
next
  case rid: True
  show ?thesis
  proof (cases "p_lat p = None \<or> p_lon p = None \<or> p_id p = []")
    case True
    from handlePosition_invalid [OF True, of tz now D] r show ?thesis by simp
  next
    case False
    then obtain plat plon where v: "p_lat p = Some plat" "p_lon p = Some plon" "p_id p \<noteq> []"
      by auto
    from r rid have r': "riders D (p_id p) = Some rider" by simp
    show ?thesis
    proof (cases "moves now rider p")
      case False
      from handlePosition_refresh [OF v r' False, of tz] rid show ?thesis
        by (simp add: refresh_def)
    next
      case True
      note chk = handlePosition_checked [OF v r' True, of tz]
      show ?thesis
      proof (cases "sampleSpeedKmh now rider p > MAX_SPEED_KMH")
        case True
        with chk rid show ?thesis by simp
      next
        case slow: False
        let ?s = "scoredRider rider plat plon (sampleTs now p) (sampleMeters rider p)"
        let ?loop = "challengeLoop tz now (sampleMeters rider p) (sampleTs now p) (?s, [])
             (challenges D)"
        have pm: "processMove tz now (challenges D) rider plat plon (sampleTs now p)
                  (sampleMeters rider p)
                = (case ?loop of Inl r5 \<Rightarrow> Inl r5
                   | Inr (r5, challengeEvents) \<Rightarrow>
                       Inr (r5, max 0 (\<lfloor>(distance rider + sampleMeters rider p) / 1000\<rfloor>
                                        - \<lfloor>distance rider / 1000\<rfloor>),
                            max 0 (\<lfloor>(distance rider + sampleMeters rider p) / 1000\<rfloor>
                                        - \<lfloor>distance rider / 1000\<rfloor>) * 10,
                            map badgeOf (filter (qualifies rider (distance rider)
                                  (distance rider + sampleMeters rider p)) BADGE_MILESTONES_METERS),
                            challengeEvents))"
          by (simp only: processMove_eq updateChallengesForRider_def sampleTs_time)
        have base: "distance rider \<le> distance ?s" "score rider \<le> score ?s"
          using sampleMeters_nonneg [of rider p] by (simp_all add: scoredRider_mono)
        show ?thesis
        proof (cases ?loop)
          case (Inl r5)
          with challengeLoop_mono [OF tg, of tz now "sampleMeters rider p" "sampleTs now p" ?s "[]" r5]
          have "distance r5 = distance ?s" "score ?s \<le> score r5" by simp_all
          with base chk slow pm Inl rid show ?thesis by simp
        next
          case (Inr res)
          obtain r5 evs where res: "res = (r5, evs)" by (cases res)
          with Inr challengeLoop_mono [OF tg, of tz now "sampleMeters rider p" "sampleTs now p" ?s "[]"
              r5 evs]
          have "distance r5 = distance ?s" "score ?s \<le> score r5" by simp_all
          with base chk slow pm Inr res rid show ?thesis
            by (simp add: distance_refresh score_refresh)
        qed
      qed
    qed
  qed
qed

lemma handleAll_append: "handleAll tz D (xs @ ys) = handleAll tz (handleAll tz D xs) ys"
  by (induction xs arbitrary: D) auto

lemma handleAll_challenges: "challenges (handleAll tz D xs) = challenges D"
  by (induction xs arbitrary: D) (auto simp: handlePosition_challenges)

lemma handleAll_mono:
  assumes "\<forall>(cid, chal) \<in> set (challenges D). 0 \<le> targetMeters chal"
    and "riders D rid = Some rider"
  shows "\<exists>rider'. riders (handleAll tz D ys) rid = Some rider'
           \<and> distance rider \<le> distance rider' \<and> score rider \<le> score rider'"
  using assms
proof (induction ys arbitrary: D rider)
  case Nil
  then show ?case by simp
next
  case (Cons s ys)
  obtain now p where s: "s = (now, p)" by (cases s)
  let ?D1 = "fst (snd (handlePosition tz now D p))"
  from handlePosition_mono [OF Cons.prems, of tz now p] obtain r1 where
    r1: "riders ?D1 rid = Some r1" "distance rider \<le> distance r1" "score rider \<le> score r1"
    by blast
  have tg1: "\<forall>(cid, chal) \<in> set (challenges ?D1). 0 \<le> targetMeters chal"
    using Cons.prems(1) by (simp add: handlePosition_challenges)
  from Cons.IH [OF tg1 r1(1)] obtain r' where
    "riders (handleAll tz ?D1 ys) rid = Some r'" "distance r1 \<le> distance r'" "score r1 \<le> score r'"
    by blast
  with r1 show ?case
    by (auto simp: s)
qed

text \<open>
  Monotonicity in exact arithmetic. Let the targets of the challenges of the table be
  non-negative, as the data model has them. Process any sequence of messages (valid or
  not, accepted, rejected or raising, for any riders), then any further messages: every
  rider of the table is still in the table, and neither their cumulative distance nor
  their score is smaller than it was before the further messages. With one further
  message this is a single step.
\<close>

theorem distance_score_monotone:
  assumes tg: "\<forall>(cid, chal) \<in> set (challenges D). 0 \<le> targetMeters chal"
    and r: "riders (handleAll tz D xs) rid = Some rider"
  shows "\<exists>rider'. riders (handleAll tz D (xs @ ys)) rid = Some rider'
           \<and> distance rider \<le> distance rider' \<and> score rider \<le> score rider'"
proof -
  have "\<forall>(cid, chal) \<in> set (challenges (handleAll tz D xs)). 0 \<le> targetMeters chal"
    using tg by (simp add: handleAll_challenges)
  from handleAll_mono [OF this r] show ?thesis
    by (simp add: handleAll_append)
qed

theorem distance_score_monotone_witness:
  "map (\<lambda>(cid, chal). targetMeters chal)
       (challenges (oneRider ((riderAt 0 0 2000)\<lparr>distance := 1200, score := 10\<rparr>)))
     = [1000, 5000]
   \<and> (\<exists>rider'.
        riders (handleAll 0 (oneRider ((riderAt 0 0 2000)\<lparr>distance := 1200, score := 10\<rparr>))
                  ([] @ [(40003000, sample 0 9 40002000), (40004000, sample 0 0 1500)]))
          ''r1'' = Some rider'
      \<and> 1200 \<le> distance rider' \<and> 10 \<le> score rider')"
proof -
  let ?D = "oneRider ((riderAt 0 0 2000)\<lparr>distance := 1200, score := 10\<rparr>)"
  have tg: "\<forall>(cid, chal) \<in> set (challenges ?D). 0 \<le> targetMeters chal"
    by (simp add: oneRider_def defaultChallenges_def)
  have r: "riders (handleAll 0 ?D []) ''r1'' = Some ((riderAt 0 0 2000)\<lparr>distance := 1200, score := 10\<rparr>)"
    by (simp add: oneRider_def)
  from distance_score_monotone [OF tg r, of "[(40003000, sample 0 9 40002000), (40004000, sample 0 0 1500)]"]
  show ?thesis
    by (simp add: oneRider_def defaultChallenges_def)
qed

text \<open>
  Claim C2 (no processing step makes the cumulative distance or the score of a rider
  smaller) does not hold for the distance that the runtime computes. A rider with 1200
  metres and the stored fix (8, 0) sends the sample (-8, 180), for which line 37 computes
  \<open>1 + 1 / 2 ^ 52\<close>: the sample is accepted and the stored distance becomes \<^verbatim>\<open>NaN\<close>.
  The rider then sends a newer sample from the same place, whose distance is 0: line 167
  reads the stored \<^verbatim>\<open>NaN\<close> as 0, and the cumulative distance is 0.
\<close>

theorem nan_distance_restarts_from_zero:
  "acceptedDistance (Num 1200) (metersOfInside (1 + 1 / 2 ^ 52)) 1001 1000 = Some NaN
   \<and> acceptedDistance NaN
        (metersOfInside (haversineInside \<lparr>lat = - 8, lon = 180\<rparr> \<lparr>lat = - 8, lon = 180\<rparr>))
        2000 1001 = Some (Num 0)"
proof -
  have "impliedSpeedKmh 0 2000 1001 = 0"
    by (simp add: impliedSpeedKmh_def)
  then have "acceptedDistance NaN (Num 0) 2000 1001 = Some (Num 0)"
    by (simp add: acceptedDistance_def exceedsMaxSpeed_def speedKmhOf_Num addMeters_def
        MAX_SPEED_KMH_def)
  then show ?thesis
    by (simp add: metersOfInside_above_one acceptedDistance_NaN metersOfInside_exact
        haversine_same)
qed

subsection \<open>Window keys and the rollover\<close>

lemma isoDate10_day: "t div MS_PER_DAY = t' div MS_PER_DAY \<Longrightarrow> isoDate10 t = isoDate10 t'"
  by (simp add: isoDate10_def)

lemma monday_before:
  fixes n :: int
  defines "m \<equiv> n - (weekday n + 6) mod 7"
  shows "weekday m = 1" and "m \<le> n" and "n < m + 7"
  unfolding m_def weekday_def by presburger+

lemma weekKey_utc:
  assumes "weekKey 0 t = Some k"
  shows "\<exists>m. weekday m = 1 \<and> m \<le> t div MS_PER_DAY \<and> t div MS_PER_DAY < m + 7
             \<and> k = isoDate10 (m * MS_PER_DAY)"
proof -
  let ?n = "t div MS_PER_DAY"
  let ?diff = "(weekday ?n + 6) mod 7"
  let ?m = "?n - ?diff"
  from assms have k: "k = isoDate10 (t - ?diff * MS_PER_DAY)"
    by (simp add: weekKey_def getDay_def Let_def toISOString_slice_def split: if_splits)
  have "(t - ?diff * MS_PER_DAY) div MS_PER_DAY = ?m"
    by (simp add: MS_PER_DAY_def)
  moreover have "(?m * MS_PER_DAY) div MS_PER_DAY = ?m"
    by (simp add: MS_PER_DAY_def)
  ultimately have "isoDate10 (t - ?diff * MS_PER_DAY) = isoDate10 (?m * MS_PER_DAY)"
    by (intro isoDate10_day) simp
  with k monday_before [of ?n] show ?thesis
    by blast
qed


lemma resetWindow_Some:
  assumes "per \<noteq> OtherPeriod" and "resetWindow tz per t prog = Some prog1"
  obtains k where "windowKey tz per t = Some k" and "prog1 = rollover k prog"
  using assms by (cases per) (auto simp: resetWindow_def windowKey_def)

text \<open>
  The weekly key reads the day of the week in local time and prints the date in UTC. On a
  server two hours ahead of UTC, at 2024-06-09T22:30:00Z (Monday 00:30 local time) the key
  is the date of a Sunday, and two hours later it is another one; with local time UTC the
  key at the first instant is the Monday before.
\<close>

lemma weekKey_local_time:
  "weekKey 120 1717972200000 = Some ''2024-06-09''"
  "weekKey 120 1717979400000 = Some ''2024-06-10''"
  "weekKey 0 1717972200000 = Some ''2024-06-03''"
  unfolding weekKey_def getDay_def weekday_def toISOString_slice_def validTime_def
      isoDate10_def MS_PER_DAY_def civil_from_days_def Let_def
  by (simp_all add: pad_digits_2 pad_digits_4 digit_char_def)

lemma weekday_2024_06_09: "weekday (1717972200000 div MS_PER_DAY) = 0"
  by (simp add: weekday_def MS_PER_DAY_def)

text \<open>
  Claim C6 says that for every accepted sample the progress is reset exactly when the
  window key of the sample differs from the stored key. An accepted sample that is not
  newer than the stored fix is not compared with the stored key: here the stored fix and
  the weekly progress are of the week of 1970-01-05, the sample is of 1970-01-01, whose
  weekly key is 1969-12-29, and the progress keeps its 3000 metres and its key.
\<close>

theorem stale_sample_keeps_week:
  "fst (handlePosition 0 518500000
          (oneRider (riderWeekly 0 0 518400000
             \<lparr>progressMeters = 3000, lastReset = Some ''1970-01-05'', completed = False,
              completedAt = None\<rparr>))
          (sample 0 0 2000)) = Returned (Accepted ''r1'')
   \<and> windowKey 0 Weekly (sampleTs 518500000 (sample 0 0 2000)) = Some ''1969-12-29''
   \<and> (\<exists>rider'.
         riders (fst (snd (handlePosition 0 518500000
          (oneRider (riderWeekly 0 0 518400000
             \<lparr>progressMeters = 3000, lastReset = Some ''1970-01-05'', completed = False,
              completedAt = None\<rparr>))
          (sample 0 0 2000)))) ''r1'' = Some rider'
       \<and> r_challenges rider' ''weekly_5km''
           = Some \<lparr>progressMeters = 3000, lastReset = Some ''1970-01-05'', completed = False,
                   completedAt = None\<rparr>)"
proof -
  have ts: "sampleTs 518500000 (sample 0 0 2000) = 2000"
    by (simp add: sampleTs_def sample_def)
  have key: "windowKey 0 Weekly 2000 = Some ''1969-12-29''"
    by (simp add: windowKey_def weekKey_day0)
  show ?thesis
    unfolding ts key
    by (simp add: handlePosition_def oneRider_def riderWeekly_def riderAt_def newRider_def
        sample_def sampleTs_def refresh_def Let_def)
qed

text \<open>
  Claim C6, amended. Take a sample that \<^verbatim>\<open>handlePosition\<close> accepts after comparing it
  with the stored fix (line 163), its distance \<open>d\<close>, and a daily or weekly challenge of
  the table (whose ids are distinct). The sample has a window key \<open>k\<close> for the challenge,
  and afterwards the progress of the rider is stored under \<open>k\<close>.
  \<^item> If \<open>k\<close> differs from the stored key, the progress was reset: \<open>progressMeters\<close> is
    \<open>0 + d\<close> and \<open>completed\<close> tells whether this reaches the target. Nothing of the
    earlier window is carried over.
  \<^item> If \<open>k\<close> is the stored key, the progress was not reset: it is the stored one with lines
    143 to 150 applied.
  \<^item> For a daily challenge \<open>k\<close> is the first ten characters of the ISO rendering of the
    timestamp of the sample, which is in UTC: the calendar date for the years 0 to 9999.
  \<^item> For a weekly challenge, on a server whose local time is UTC, \<open>k\<close> is that date for
    the Monday on or before the timestamp: a day \<open>m\<close> that is a Monday, with the day of
    the sample among the seven days from \<open>m\<close> on.
\<close>

theorem window_rollover:
  assumes hp: "handlePosition tz now D p = (Returned (Accepted i), D', bs)"
    and r: "riders D (p_id p) = Some rider"
    and mv: "moves now rider p"
    and dist: "distinct (map fst (challenges D))"
    and mem: "(cid, chal) \<in> set (challenges D)"
    and per: "c_period chal \<noteq> OtherPeriod"
  shows "\<exists>rider' prog' k.
            riders D' (p_id p) = Some rider' \<and> r_challenges rider' cid = Some prog'
          \<and> windowKey tz (c_period chal) (sampleTs now p) = Some k
          \<and> lastReset prog' = Some k
          \<and> (lastReset (storedProgress rider cid) \<noteq> Some k \<longrightarrow>
                progressMeters prog' = 0 + sampleMeters rider p
              \<and> (completed prog' \<longleftrightarrow> targetMeters chal \<le> 0 + sampleMeters rider p))
          \<and> (lastReset (storedProgress rider cid) = Some k \<longrightarrow>
                prog' = accumulate now (sampleMeters rider p) chal (storedProgress rider cid))
          \<and> (c_period chal = Daily \<longrightarrow> Some k = toISOString_slice (sampleTs now p))
          \<and> (c_period chal = Weekly \<and> tz = 0 \<longrightarrow>
                (\<exists>m. weekday m = 1 \<and> m \<le> sampleTs now p div MS_PER_DAY
                    \<and> sampleTs now p div MS_PER_DAY < m + 7
                    \<and> k = isoDate10 (m * MS_PER_DAY)))"
  using hp r
proof (cases rule: accepted_cases)
  case (refreshed plat plon)
  with mv show ?thesis by simp
next
  case (moved plat plon r5 evs)
  let ?d = "sampleMeters rider p" and ?t = "sampleTs now p"
  let ?old = "storedProgress rider cid"
  from challengeLoop_progress [OF dist moved(5) mem] obtain prog1 where
    rw: "resetWindow tz (c_period chal) ?t ?old = Some prog1" and
    r5: "r_challenges r5 cid = Some (accumulate now ?d chal prog1)"
    by (auto simp: storedProgress_scoredRider)
  from per rw obtain k where key: "windowKey tz (c_period chal) ?t = Some k"
    and p1: "prog1 = rollover k ?old"
    by (rule resetWindow_Some)
  let ?new = "accumulate now ?d chal (rollover k ?old)"
  have a: "lastReset ?new = Some k"
    by (rule lastReset_accumulate_rollover)
  have b: "lastReset ?old \<noteq> Some k \<longrightarrow>
             progressMeters ?new = 0 + ?d \<and> (completed ?new \<longleftrightarrow> targetMeters chal \<le> 0 + ?d)"
    by (simp add: rollover_def accumulate_def)
  have c: "lastReset ?old = Some k \<longrightarrow> ?new = accumulate now ?d chal ?old"
    by (simp add: rollover_def)
  have d: "c_period chal = Daily \<longrightarrow> Some k = toISOString_slice ?t"
    using key by (auto simp: windowKey_def dayKey_def)
  have e: "c_period chal = Weekly \<and> tz = 0 \<longrightarrow>
             (\<exists>m. weekday m = 1 \<and> m \<le> ?t div MS_PER_DAY \<and> ?t div MS_PER_DAY < m + 7
                 \<and> k = isoDate10 (m * MS_PER_DAY))"
    using key by (auto simp: windowKey_def dest: weekKey_utc)
  have "riders D' (p_id p) = Some (refresh now plat plon ?t r5)"
    using moved(6) by simp
  moreover have "r_challenges (refresh now plat plon ?t r5) cid = Some ?new"
    using r5 p1 by (simp add: r_challenges_refresh)
  ultimately show ?thesis
    using key a b c d e by blast
qed

theorem window_rollover_witness:
  "handlePosition 0 40003000
      (oneRider (riderWeekly 0 0 2000
         \<lparr>progressMeters = 3000, lastReset = Some ''1969-12-22'', completed = False,
          completedAt = None\<rparr>))
      (sample 0 9 40002000)
    = (Returned (Accepted ''r1''),
       fst (snd (handlePosition 0 40003000
         (oneRider (riderWeekly 0 0 2000
            \<lparr>progressMeters = 3000, lastReset = Some ''1969-12-22'', completed = False,
             completedAt = None\<rparr>))
         (sample 0 9 40002000))),
       snd (snd (handlePosition 0 40003000
         (oneRider (riderWeekly 0 0 2000
            \<lparr>progressMeters = 3000, lastReset = Some ''1969-12-22'', completed = False,
             completedAt = None\<rparr>))
         (sample 0 9 40002000))))
   \<and> moves 40003000 (riderWeekly 0 0 2000
         \<lparr>progressMeters = 3000, lastReset = Some ''1969-12-22'', completed = False,
          completedAt = None\<rparr>) (sample 0 9 40002000)
   \<and> (\<exists>rider' prog'.
         riders (fst (snd (handlePosition 0 40003000
           (oneRider (riderWeekly 0 0 2000
              \<lparr>progressMeters = 3000, lastReset = Some ''1969-12-22'', completed = False,
               completedAt = None\<rparr>))
           (sample 0 9 40002000)))) ''r1'' = Some rider'
       \<and> r_challenges rider' ''weekly_5km'' = Some prog'
       \<and> lastReset prog' = Some ''1969-12-29''
       \<and> progressMeters prog' = 6371000 * toRad 9
       \<and> completed prog')"
proof -
  define old where "old = \<lparr>progressMeters = 3000, lastReset = Some ''1969-12-22'',
    completed = False, completedAt = None :: int option\<rparr>"
  define rider where "rider = riderWeekly 0 0 2000 old"
  define p where "p = sample 0 9 40002000"
  define D' where "D' = fst (snd (handlePosition 0 40003000 (oneRider rider) p))"
  define bs where "bs = snd (snd (handlePosition 0 40003000 (oneRider rider) p))"
  define chal where "chal = snd (defaultChallenges ! 1)"
  have l: "r_last rider = Some \<lparr>fix_lat = 0, fix_lon = 0, fix_ts = 2000\<rparr>"
    and i: "r_id rider = ''r1''"
    by (simp_all add: rider_def riderWeekly_def riderAt_def newRider_def)
  have hp: "handlePosition 0 40003000 (oneRider rider) p = (Returned (Accepted ''r1''), D', bs)"
    and mv: "moves 40003000 rider p" and m: "sampleMeters rider p = 6371000 * toRad 9"
    unfolding D'_def bs_def p_def by (rule move_day0 [OF l i])+
  have r: "riders (oneRider rider) (p_id p) = Some rider" and pid: "p_id p = ''r1''"
    by (simp_all add: oneRider_def p_def sample_def)
  have mem: "(''weekly_5km'', chal) \<in> set (challenges (oneRider rider))"
    and dist: "distinct (map fst (challenges (oneRider rider)))"
    and per: "c_period chal = Weekly" and tgt: "targetMeters chal = 5000"
    by (simp_all add: oneRider_def defaultChallenges_def chal_def)
  have per': "c_period chal \<noteq> OtherPeriod" by (simp add: per)
  have key: "windowKey 0 (c_period chal) (sampleTs 40003000 p) = Some ''1969-12-29''"
    by (simp add: per windowKey_def weekKey_day0 sampleTs_def sample_def p_def)
  have diff: "lastReset (storedProgress rider ''weekly_5km'') \<noteq> Some ''1969-12-29''"
    by (simp add: storedProgress_def rider_def riderWeekly_def old_def)
  have far: "5000 \<le> 6371000 * toRad 9"
    using pi_ge_two by (simp add: toRad_def)
  from window_rollover [OF hp r mv dist mem per'] obtain rider' prog' k where
    a: "riders D' (p_id p) = Some rider'" "r_challenges rider' ''weekly_5km'' = Some prog'"
       "windowKey 0 (c_period chal) (sampleTs 40003000 p) = Some k" "lastReset prog' = Some k" and
    b: "lastReset (storedProgress rider ''weekly_5km'') \<noteq> Some k \<longrightarrow>
                progressMeters prog' = 0 + sampleMeters rider p
              \<and> (completed prog' \<longleftrightarrow> targetMeters chal \<le> 0 + sampleMeters rider p)"
    by (elim exE conjE) (rule that)
  from a(3) key have k: "k = ''1969-12-29''" by simp
  from b diff far have "progressMeters prog' = 6371000 * toRad 9" "completed prog'"
    by (simp_all add: k m tgt)
  with a pid have "\<exists>rider' prog'. riders D' ''r1'' = Some rider'
       \<and> r_challenges rider' ''weekly_5km'' = Some prog'
       \<and> lastReset prog' = Some ''1969-12-29''
       \<and> progressMeters prog' = 6371000 * toRad 9
       \<and> completed prog'"
    by (auto simp: k)
  with hp mv show ?thesis
    unfolding D'_def bs_def p_def rider_def old_def by simp
qed

subsection \<open>Samples that come again\<close>

text \<open>
  A movement of the only rider of the table, under the seeded challenges and with local
  time UTC: what the call returns, the table and the events afterwards, and the distance,
  the progress and the score of the rider.
\<close>

lemma oneRider_update:
  "(oneRider r)\<lparr>riders := (riders (oneRider r))(''r1'' \<mapsto> r')\<rparr> = oneRider r'"
  by (simp add: oneRider_def)

lemma completionEvents_scoredRider:
  "completionEvents tz d t (scoredRider rider plat plon ts meters) = completionEvents tz d t rider"
  by (rule ext)
     (simp add: completionEvents_def storedProgress_scoredRider r_id_scoredRider
        split: option.splits)

lemma oneRider_move:
  assumes l: "r_last rider = Some \<lparr>fix_lat = la, fix_lon = lo, fix_ts = t0\<rparr>"
    and t0: "t0 \<noteq> 0" "t0 < ts" "ts \<noteq> 0"
    and i: "r_id rider = ''r1''"
    and m: "haversineMeters \<lparr>lat = la, lon = lo\<rparr> \<lparr>lat = pla, lon = plo\<rparr> = d"
    and slow: "\<not> impliedSpeedKmh d ts t0 > MAX_SPEED_KMH"
    and kd: "dayKey ts = Some kd" and kw: "weekKey 0 ts = Some kw"
  obtains r5 where
      "fst (handlePosition 0 now (oneRider rider) (sample pla plo ts)) = Returned (Accepted ''r1'')"
    and "fst (snd (handlePosition 0 now (oneRider rider) (sample pla plo ts)))
           = oneRider (refresh now pla plo ts r5)"
    and "concat (map challengeEventsOf
            (snd (snd (handlePosition 0 now (oneRider rider) (sample pla plo ts)))))
           = concat (map (completionEvents 0 d ts rider) defaultChallenges)"
    and "r_id r5 = ''r1''"
    and "distance r5 = distance rider + d"
    and "storedProgress r5 ''daily_1km''
           = accumulate now d (snd (defaultChallenges ! 0))
               (rollover kd (storedProgress rider ''daily_1km''))"
    and "storedProgress r5 ''weekly_5km''
           = accumulate now d (snd (defaultChallenges ! 1))
               (rollover kw (storedProgress rider ''weekly_5km''))"
    and "score r5 = score rider
           + max 0 (\<lfloor>(distance rider + d) / 1000\<rfloor> - \<lfloor>distance rider / 1000\<rfloor>) * 10
           + sum_list (map e_bonusPoints
               (concat (map (completionEvents 0 d ts rider) defaultChallenges)))"
proof -
  let ?p = "sample pla plo ts"
  have v: "p_lat ?p = Some pla" "p_lon ?p = Some plo" "p_id ?p \<noteq> []"
    and r: "riders (oneRider rider) (p_id ?p) = Some rider"
    and pid: "p_id ?p = ''r1''"
    by (simp_all add: sample_def oneRider_def)
  have ts: "sampleTs now ?p = ts"
    using t0(3) by (simp add: sampleTs_def sample_def)
  have mv: "moves now rider ?p"
    using t0 by (simp add: moves_def l ts)
  have sm: "sampleMeters rider ?p = d"
    by (simp add: sampleMeters_def l sample_def m)
  have sp: "\<not> sampleSpeedKmh now rider ?p > MAX_SPEED_KMH"
    using slow by (simp add: sampleSpeedKmh_def l sm ts)
  have keys: "\<exists>k. windowKey 0 (c_period chal) ts = Some k"
    if "(cid, chal) \<in> set defaultChallenges" for cid chal
    using that kd kw by (auto simp: defaultChallenges_def windowKey_def)
  have "\<exists>r5 evs. challengeLoop 0 now d ts (scoredRider rider pla plo ts d, []) defaultChallenges
                    = Inr (r5, evs)"
    by (rule challengeLoop_returns) (rule keys)
  then obtain r5 evs where
    loop0: "challengeLoop 0 now d ts (scoredRider rider pla plo ts d, []) defaultChallenges
             = Inr (r5, evs)"
    by blast
  then have loop: "challengeLoop 0 now (sampleMeters rider ?p) (sampleTs now ?p)
             (scoredRider rider pla plo (sampleTs now ?p) (sampleMeters rider ?p), [])
             (challenges (oneRider rider)) = Inr (r5, evs)"
    unfolding sm ts by (simp add: oneRider_def)
  have id5: "r_id r5 = ''r1''"
    using challengeLoop_r_id [OF loop0] by (simp add: r_id_scoredRider i)
  have evs: "evs = concat (map (completionEvents 0 d ts rider) defaultChallenges)"
    using challengeLoop_events [OF defaultChallenges_distinct loop0]
    by (simp add: completionEvents_scoredRider)
  have pm: "processMove 0 now (challenges (oneRider rider)) rider pla plo (sampleTs now ?p)
                  (sampleMeters rider ?p)
            = Inr (r5, max 0 (\<lfloor>(distance rider + sampleMeters rider ?p) / 1000\<rfloor>
                                        - \<lfloor>distance rider / 1000\<rfloor>),
                            max 0 (\<lfloor>(distance rider + sampleMeters rider ?p) / 1000\<rfloor>
                                        - \<lfloor>distance rider / 1000\<rfloor>) * 10,
                            map badgeOf (filter (qualifies rider (distance rider)
                                  (distance rider + sampleMeters rider ?p)) BADGE_MILESTONES_METERS),
                            evs)"
    by (simp add: processMove_eq updateChallengesForRider_def sampleTs_time loop)
  note hp = handlePosition_move [OF v r mv sp, of 0, unfolded pm]
  have 1: "fst (handlePosition 0 now (oneRider rider) ?p) = Returned (Accepted ''r1'')"
    by (simp add: hp id5)
  have 2: "fst (snd (handlePosition 0 now (oneRider rider) ?p))
           = oneRider (refresh now pla plo ts r5)"
    by (simp add: hp pid ts oneRider_update)
  have 3: "concat (map challengeEventsOf (snd (snd (handlePosition 0 now (oneRider rider) ?p))))
           = concat (map (completionEvents 0 d ts rider) defaultChallenges)"
    by (simp add: hp evs [symmetric])
  have 5: "distance r5 = distance rider + d"
    using challengeLoop_distance [OF loop0] by (simp add: scoredRider_def)
  have 6: "r_challenges r5 cid
              = Some (accumulate now d chal (rollover k (storedProgress rider cid)))"
    if "(cid, chal) \<in> set defaultChallenges" "windowKey 0 (c_period chal) ts = Some k"
    for cid chal k
    using moved_progress [OF loop0 defaultChallenges_distinct that] .
  have 7: "storedProgress r5 ''daily_1km''
           = accumulate now d (snd (defaultChallenges ! 0))
               (rollover kd (storedProgress rider ''daily_1km''))"
    using 6 [of "''daily_1km''" "snd (defaultChallenges ! 0)" kd] kd
    by (simp add: defaultChallenges_def windowKey_def storedProgress_def)
  have 8: "storedProgress r5 ''weekly_5km''
           = accumulate now d (snd (defaultChallenges ! 1))
               (rollover kw (storedProgress rider ''weekly_5km''))"
    using 6 [of "''weekly_5km''" "snd (defaultChallenges ! 1)" kw] kw
    by (simp add: defaultChallenges_def windowKey_def storedProgress_def)
  have 9: "score r5 = score rider
           + max 0 (\<lfloor>(distance rider + d) / 1000\<rfloor> - \<lfloor>distance rider / 1000\<rfloor>) * 10
           + sum_list (map e_bonusPoints
               (concat (map (completionEvents 0 d ts rider) defaultChallenges)))"
    using challengeLoop_score [OF defaultChallenges_distinct loop0]
    by (simp add: completionEvents_scoredRider) (simp add: scoredRider_def)
  from 1 2 3 id5 5 7 8 9 show ?thesis by (rule that)
qed

lemma slow_9_degrees: "\<not> impliedSpeedKmh (6371000 * toRad 9) 40002000 2000 > MAX_SPEED_KMH"
  using pi_less_4 by (simp add: impliedSpeedKmh_def MAX_SPEED_KMH_def toRad_def)

lemma oneRider_stale:
  assumes l: "r_last rider = Some l" and le: "ts \<le> fix_ts l" and ts: "ts \<noteq> 0"
    and i: "r_id rider = ''r1''"
  shows "handlePosition tz now (oneRider rider) (sample pla plo ts)
           = (Returned (Accepted ''r1''), oneRider (refresh now pla plo ts rider), [])"
    and "stale now (oneRider rider) (sample pla plo ts)"
proof -
  let ?p = "sample pla plo ts"
  have v: "p_lat ?p = Some pla" "p_lon ?p = Some plo" "p_id ?p \<noteq> []"
    and r: "riders (oneRider rider) (p_id ?p) = Some rider"
    and pid: "p_id ?p = ''r1''"
    by (simp_all add: sample_def oneRider_def)
  have t: "sampleTs now ?p = ts"
    using ts by (simp add: sampleTs_def sample_def)
  have nm: "\<not> moves now rider ?p"
    using le by (simp add: moves_def l t)
  show "handlePosition tz now (oneRider rider) ?p
           = (Returned (Accepted ''r1''), oneRider (refresh now pla plo ts rider), [])"
    by (simp add: handlePosition_refresh [OF v r nm] pid t i oneRider_update)
  show "stale now (oneRider rider) ?p"
    using le by (simp add: stale_def v r l t)
qed

text \<open>
  Claim C5 says that no sequence of out-of-order or duplicate samples makes a distance
  count twice. An accepted sample replaces the stored fix also when it is older, so the
  samples of a movement, sent again in their order, are counted again. Here the rider
  moves 9 degrees along the equator, from the fix of timestamp 2000 to a sample of
  timestamp 40002000; then the sample of timestamp 2000 comes again (it is not newer than
  the stored fix, and is accepted with no distance), and the sample of timestamp 40002000
  comes again: it is newer than the stored fix now, and its distance is added a second
  time.
\<close>

theorem replayed_delta_counted_twice:
  "outcomes 0 (oneRider (riderAt 0 0 2000))
      [(40003000, sample 0 9 40002000), (40004000, sample 0 0 2000),
       (40005000, sample 0 9 40002000)]
     = [Returned (Accepted ''r1''), Returned (Accepted ''r1''), Returned (Accepted ''r1'')]
   \<and> (\<exists>rider1. riders (handleAll 0 (oneRider (riderAt 0 0 2000))
                          [(40003000, sample 0 9 40002000)]) ''r1'' = Some rider1
         \<and> distance rider1 = 6371000 * toRad 9)
   \<and> stale 40004000
         (handleAll 0 (oneRider (riderAt 0 0 2000)) [(40003000, sample 0 9 40002000)])
         (sample 0 0 2000)
   \<and> (\<exists>rider3. riders (handleAll 0 (oneRider (riderAt 0 0 2000))
                          [(40003000, sample 0 9 40002000), (40004000, sample 0 0 2000),
                           (40005000, sample 0 9 40002000)]) ''r1'' = Some rider3
         \<and> distance rider3 = 2 * (6371000 * toRad 9))"
proof -
  define d :: real where "d = 6371000 * toRad 9"
  define r0 where "r0 = riderAt 0 0 2000"
  have hav: "haversineMeters \<lparr>lat = 0, lon = 0\<rparr> \<lparr>lat = 0, lon = 9\<rparr> = d"
    by (simp add: haversine_equator d_def)
  have slow: "\<not> impliedSpeedKmh d 40002000 2000 > MAX_SPEED_KMH"
    unfolding d_def by (rule slow_9_degrees)
  have kd: "dayKey 40002000 = Some ''1970-01-01''" by (rule dayKey_day0) simp_all
  have kw: "weekKey 0 40002000 = Some ''1969-12-29''" by (rule weekKey_day0) simp_all
  have l0: "r_last r0 = Some \<lparr>fix_lat = 0, fix_lon = 0, fix_ts = 2000\<rparr>"
    and i0: "r_id r0 = ''r1''" and d0: "distance r0 = 0"
    by (simp_all add: r0_def riderAt_def newRider_def)
  from l0 _ _ _ i0 hav slow kd kw obtain ra where
    a1: "fst (handlePosition 0 40003000 (oneRider r0) (sample 0 9 40002000))
           = Returned (Accepted ''r1'')" and
    a2: "fst (snd (handlePosition 0 40003000 (oneRider r0) (sample 0 9 40002000)))
           = oneRider (refresh 40003000 0 9 40002000 ra)" and
    ia: "r_id ra = ''r1''" and da: "distance ra = distance r0 + d"
    by (rule oneRider_move) simp_all
  define r1 where "r1 = refresh 40003000 0 9 40002000 ra"
  have l1: "r_last r1 = Some \<lparr>fix_lat = 0, fix_lon = 9, fix_ts = 40002000\<rparr>"
    and i1: "r_id r1 = ''r1''" and d1: "distance r1 = d"
    by (simp_all add: r1_def refresh_def ia da d0)
  have b: "handlePosition 0 40004000 (oneRider r1) (sample 0 0 2000)
           = (Returned (Accepted ''r1''), oneRider (refresh 40004000 0 0 2000 r1), [])"
    and st: "stale 40004000 (oneRider r1) (sample 0 0 2000)"
    by (rule oneRider_stale [OF l1 _ _ i1]; simp)+
  define r2 where "r2 = refresh 40004000 0 0 2000 r1"
  have l2: "r_last r2 = Some \<lparr>fix_lat = 0, fix_lon = 0, fix_ts = 2000\<rparr>"
    and i2: "r_id r2 = ''r1''" and d2: "distance r2 = d"
    by (simp_all add: r2_def refresh_def i1 d1)
  from l2 _ _ _ i2 hav slow kd kw obtain rc where
    c1: "fst (handlePosition 0 40005000 (oneRider r2) (sample 0 9 40002000))
           = Returned (Accepted ''r1'')" and
    c2: "fst (snd (handlePosition 0 40005000 (oneRider r2) (sample 0 9 40002000)))
           = oneRider (refresh 40005000 0 9 40002000 rc)" and
    dc: "distance rc = distance r2 + d"
    by (rule oneRider_move) simp_all
  have "distance (refresh 40005000 0 9 40002000 rc) = 2 * d"
    by (simp add: refresh_def dc d2)
  then show ?thesis
    unfolding r0_def [symmetric] d_def [symmetric]
    by (simp add: a1 a2 r1_def [symmetric] b st r2_def [symmetric] c1 c2 d1)
       (simp add: oneRider_def d1)
qed

lemma dayKey_day1: "dayKey 126402000 = Some ''1970-01-02''"
  unfolding dayKey_def toISOString_slice_def validTime_def isoDate10_def MS_PER_DAY_def
    civil_from_days_def Let_def
  by (simp add: pad_digits_2 pad_digits_4 digit_char_def)

lemma weekKey_day1: "weekKey 0 126402000 = Some ''1969-12-29''"
  unfolding weekKey_def getDay_def weekday_def toISOString_slice_def validTime_def
      isoDate10_def MS_PER_DAY_def civil_from_days_def Let_def
  by (simp add: pad_digits_2 pad_digits_4 digit_char_def)

lemma storedProgress_refresh:
  "storedProgress (refresh now plat plon ts r) cid = storedProgress r cid"
  by (simp add: storedProgress_def refresh_def)

lemma far_9_degrees: "5000 \<le> 6371000 * toRad 9"
  using pi_ge_two by (simp add: toRad_def)

text \<open>
  Claim C7 says that a challenge emits one \<^verbatim>\<open>challenge_completed\<close> event and adds one
  bonus per window. The window of a progress is its stored key, and a sample with another
  key resets it, also when the key is an earlier one. Here the rider completes both
  challenges by a movement on 1970-01-01, sends a sample on 1970-01-02 (which resets the
  daily progress), then a sample of 1970-01-01 again (not newer than the stored fix:
  accepted, and the stored timestamp is of 1970-01-01 again), and repeats the movement
  with its timestamp of 1970-01-01: the daily challenge is completed a second time in the
  window of 1970-01-01, with a second event and a second bonus of 5 points.
\<close>

theorem daily_bonus_twice_in_one_day:
  "outcomes 0 (oneRider (riderAt 0 0 2000))
      [(40003000, sample 0 9 40002000), (126403000, sample 0 9 126402000),
       (126404000, sample 0 0 2000), (126405000, sample 0 9 40002000)]
     = [Returned (Accepted ''r1''), Returned (Accepted ''r1''), Returned (Accepted ''r1''),
        Returned (Accepted ''r1'')]
   \<and> concat (map challengeEventsOf
        (broadcasts 0 (oneRider (riderAt 0 0 2000))
           [(40003000, sample 0 9 40002000), (126403000, sample 0 9 126402000),
            (126404000, sample 0 0 2000), (126405000, sample 0 9 40002000)]))
     = [\<lparr>e_challengeId = ''daily_1km'', e_riderId = ''r1'', e_bonusPoints = 5\<rparr>,
        \<lparr>e_challengeId = ''weekly_5km'', e_riderId = ''r1'', e_bonusPoints = 25\<rparr>,
        \<lparr>e_challengeId = ''daily_1km'', e_riderId = ''r1'', e_bonusPoints = 5\<rparr>]
   \<and> windowKey 0 Daily (sampleTs 40003000 (sample 0 9 40002000)) = Some ''1970-01-01''
   \<and> windowKey 0 Daily (sampleTs 126405000 (sample 0 9 40002000)) = Some ''1970-01-01''
   \<and> (\<exists>rider'. riders (handleAll 0 (oneRider (riderAt 0 0 2000))
           [(40003000, sample 0 9 40002000), (126403000, sample 0 9 126402000),
            (126404000, sample 0 0 2000), (126405000, sample 0 9 40002000)]) ''r1'' = Some rider'
        \<and> score rider' = \<lfloor>2 * (6371000 * toRad 9) / 1000\<rfloor> * 10 + (5 + 25 + 5))"
proof -
  define d :: real where "d = 6371000 * toRad 9"
  define r0 where "r0 = riderAt 0 0 2000"
  define daily where "daily = snd (defaultChallenges ! 0)"
  define weekly where "weekly = snd (defaultChallenges ! 1)"
  have chals: "defaultChallenges = [(''daily_1km'', daily), (''weekly_5km'', weekly)]"
    and daily: "c_period daily = Daily" "targetMeters daily = 1000"
    and weekly: "c_period weekly = Weekly" "targetMeters weekly = 5000"
    by (simp_all add: daily_def weekly_def defaultChallenges_def)
  have far: "5000 \<le> d" "1000 \<le> d" "0 \<le> d"
    using far_9_degrees by (simp_all add: d_def)
  have hav: "haversineMeters \<lparr>lat = 0, lon = 0\<rparr> \<lparr>lat = 0, lon = 9\<rparr> = d"
    by (simp add: haversine_equator d_def)
  have hav0: "haversineMeters \<lparr>lat = 0, lon = 9\<rparr> \<lparr>lat = 0, lon = 9\<rparr> = 0"
    by (rule haversine_same)
  have slow: "\<not> impliedSpeedKmh d 40002000 2000 > MAX_SPEED_KMH"
    unfolding d_def by (rule slow_9_degrees)
  have slow0: "\<not> impliedSpeedKmh 0 126402000 40002000 > MAX_SPEED_KMH"
    by (simp add: impliedSpeedKmh_def MAX_SPEED_KMH_def)
  have kd: "dayKey 40002000 = Some ''1970-01-01''" by (rule dayKey_day0) simp_all
  have kw: "weekKey 0 40002000 = Some ''1969-12-29''" by (rule weekKey_day0) simp_all
  note ev = completionEvents_def resetWindow_def rollover_def completes_def accumulate_def
    bonusOf_def
  have l0: "r_last r0 = Some \<lparr>fix_lat = 0, fix_lon = 0, fix_ts = 2000\<rparr>"
    and i0: "r_id r0 = ''r1''" and d0: "distance r0 = 0" and s0: "score r0 = 0"
    and p0: "storedProgress r0 ''daily_1km'' = freshProgress"
      "storedProgress r0 ''weekly_5km'' = freshProgress"
    by (simp_all add: r0_def riderAt_def newRider_def storedProgress_def)
  from l0 _ _ _ i0 hav slow kd kw obtain ra where
    a1: "fst (handlePosition 0 40003000 (oneRider r0) (sample 0 9 40002000))
           = Returned (Accepted ''r1'')" and
    a2: "fst (snd (handlePosition 0 40003000 (oneRider r0) (sample 0 9 40002000)))
           = oneRider (refresh 40003000 0 9 40002000 ra)" and
    a3: "concat (map challengeEventsOf
            (snd (snd (handlePosition 0 40003000 (oneRider r0) (sample 0 9 40002000)))))
           = concat (map (completionEvents 0 d 40002000 r0) defaultChallenges)" and
    ia: "r_id ra = ''r1''" and da: "distance ra = distance r0 + d" and
    pa: "storedProgress ra ''daily_1km''
           = accumulate 40003000 d (snd (defaultChallenges ! 0))
               (rollover ''1970-01-01'' (storedProgress r0 ''daily_1km''))"
        "storedProgress ra ''weekly_5km''
           = accumulate 40003000 d (snd (defaultChallenges ! 1))
               (rollover ''1969-12-29'' (storedProgress r0 ''weekly_5km''))" and
    sa: "score ra = score r0
           + max 0 (\<lfloor>(distance r0 + d) / 1000\<rfloor> - \<lfloor>distance r0 / 1000\<rfloor>) * 10
           + sum_list (map e_bonusPoints
               (concat (map (completionEvents 0 d 40002000 r0) defaultChallenges)))"
    by (rule oneRider_move) simp_all
  have e1: "concat (map (completionEvents 0 d 40002000 r0) defaultChallenges)
        = [\<lparr>e_challengeId = ''daily_1km'', e_riderId = ''r1'', e_bonusPoints = 5\<rparr>,
           \<lparr>e_challengeId = ''weekly_5km'', e_riderId = ''r1'', e_bonusPoints = 25\<rparr>]"
    using far by (simp add: chals ev daily weekly kd kw p0 freshProgress_def i0)
  define r1 where "r1 = refresh 40003000 0 9 40002000 ra"
  have l1: "r_last r1 = Some \<lparr>fix_lat = 0, fix_lon = 9, fix_ts = 40002000\<rparr>"
    and i1: "r_id r1 = ''r1''" and d1: "distance r1 = d"
    by (simp_all add: r1_def refresh_def ia da d0)
  have p1: "storedProgress r1 ''daily_1km''
              = \<lparr>progressMeters = d, lastReset = Some ''1970-01-01'', completed = True,
                  completedAt = Some 40003000\<rparr>"
      "storedProgress r1 ''weekly_5km''
              = \<lparr>progressMeters = d, lastReset = Some ''1969-12-29'', completed = True,
                  completedAt = Some 40003000\<rparr>"
    using far
    by (simp_all add: r1_def storedProgress_refresh pa [folded daily_def weekly_def] p0
        freshProgress_def rollover_def accumulate_def daily weekly)
  have s1: "score r1 = \<lfloor>d / 1000\<rfloor> * 10 + 30"
    using far by (simp add: r1_def score_refresh sa s0 d0 e1)
  from l1 _ _ _ i1 hav0 slow0 dayKey_day1 weekKey_day1 obtain rb where
    b1: "fst (handlePosition 0 126403000 (oneRider r1) (sample 0 9 126402000))
           = Returned (Accepted ''r1'')" and
    b2: "fst (snd (handlePosition 0 126403000 (oneRider r1) (sample 0 9 126402000)))
           = oneRider (refresh 126403000 0 9 126402000 rb)" and
    b3: "concat (map challengeEventsOf
            (snd (snd (handlePosition 0 126403000 (oneRider r1) (sample 0 9 126402000)))))
           = concat (map (completionEvents 0 0 126402000 r1) defaultChallenges)" and
    ib: "r_id rb = ''r1''" and db: "distance rb = distance r1 + 0" and
    pb: "storedProgress rb ''daily_1km''
           = accumulate 126403000 0 (snd (defaultChallenges ! 0))
               (rollover ''1970-01-02'' (storedProgress r1 ''daily_1km''))"
        "storedProgress rb ''weekly_5km''
           = accumulate 126403000 0 (snd (defaultChallenges ! 1))
               (rollover ''1969-12-29'' (storedProgress r1 ''weekly_5km''))" and
    sb: "score rb = score r1
           + max 0 (\<lfloor>(distance r1 + 0) / 1000\<rfloor> - \<lfloor>distance r1 / 1000\<rfloor>) * 10
           + sum_list (map e_bonusPoints
               (concat (map (completionEvents 0 0 126402000 r1) defaultChallenges)))"
    by (rule oneRider_move) simp_all
  have e2: "concat (map (completionEvents 0 0 126402000 r1) defaultChallenges) = []"
    by (simp add: chals ev daily weekly dayKey_day1 weekKey_day1 p1)
  define r2 where "r2 = refresh 126403000 0 9 126402000 rb"
  have l2: "r_last r2 = Some \<lparr>fix_lat = 0, fix_lon = 9, fix_ts = 126402000\<rparr>"
    and i2: "r_id r2 = ''r1''" and d2: "distance r2 = d" and s2: "score r2 = \<lfloor>d / 1000\<rfloor> * 10 + 30"
    by (simp_all add: r2_def refresh_def ib db d1 sb s1 e2)
  have p2: "storedProgress r2 ''daily_1km''
              = \<lparr>progressMeters = 0, lastReset = Some ''1970-01-02'', completed = False,
                  completedAt = Some 40003000\<rparr>"
      "storedProgress r2 ''weekly_5km''
              = \<lparr>progressMeters = d, lastReset = Some ''1969-12-29'', completed = True,
                  completedAt = Some 40003000\<rparr>"
    by (simp_all add: r2_def storedProgress_refresh pb [folded daily_def weekly_def] p1
        rollover_def accumulate_def daily weekly)
  have c: "handlePosition 0 126404000 (oneRider r2) (sample 0 0 2000)
           = (Returned (Accepted ''r1''), oneRider (refresh 126404000 0 0 2000 r2), [])"
    by (rule oneRider_stale [OF l2 _ _ i2]; simp)
  define r3 where "r3 = refresh 126404000 0 0 2000 r2"
  have l3: "r_last r3 = Some \<lparr>fix_lat = 0, fix_lon = 0, fix_ts = 2000\<rparr>"
    and i3: "r_id r3 = ''r1''" and d3: "distance r3 = d" and s3: "score r3 = \<lfloor>d / 1000\<rfloor> * 10 + 30"
    and p3: "storedProgress r3 ''daily_1km''
              = \<lparr>progressMeters = 0, lastReset = Some ''1970-01-02'', completed = False,
                  completedAt = Some 40003000\<rparr>"
      "storedProgress r3 ''weekly_5km''
              = \<lparr>progressMeters = d, lastReset = Some ''1969-12-29'', completed = True,
                  completedAt = Some 40003000\<rparr>"
    by (simp_all add: r3_def storedProgress_refresh p2) (simp_all add: refresh_def i2 d2 s2)
  from l3 _ _ _ i3 hav slow kd kw obtain rd where
    d1': "fst (handlePosition 0 126405000 (oneRider r3) (sample 0 9 40002000))
           = Returned (Accepted ''r1'')" and
    d2': "fst (snd (handlePosition 0 126405000 (oneRider r3) (sample 0 9 40002000)))
           = oneRider (refresh 126405000 0 9 40002000 rd)" and
    d3': "concat (map challengeEventsOf
            (snd (snd (handlePosition 0 126405000 (oneRider r3) (sample 0 9 40002000)))))
           = concat (map (completionEvents 0 d 40002000 r3) defaultChallenges)" and
    sd: "score rd = score r3
           + max 0 (\<lfloor>(distance r3 + d) / 1000\<rfloor> - \<lfloor>distance r3 / 1000\<rfloor>) * 10
           + sum_list (map e_bonusPoints
               (concat (map (completionEvents 0 d 40002000 r3) defaultChallenges)))"
    by (rule oneRider_move) simp_all
  have e4: "concat (map (completionEvents 0 d 40002000 r3) defaultChallenges)
        = [\<lparr>e_challengeId = ''daily_1km'', e_riderId = ''r1'', e_bonusPoints = 5\<rparr>]"
    using far by (simp add: chals ev daily weekly kd kw p3 i3)
  have "\<lfloor>d / 1000\<rfloor> \<le> \<lfloor>(d + d) / 1000\<rfloor>"
    using far by (intro floor_mono) simp
  then have s4: "score (refresh 126405000 0 9 40002000 rd) = \<lfloor>2 * d / 1000\<rfloor> * 10 + (5 + 25 + 5)"
    by (simp add: score_refresh sd s3 d3 e4)
  have keys: "windowKey 0 Daily (sampleTs 40003000 (sample 0 9 40002000)) = Some ''1970-01-01''"
    "windowKey 0 Daily (sampleTs 126405000 (sample 0 9 40002000)) = Some ''1970-01-01''"
    by (simp_all add: windowKey_def sampleTs_def sample_def kd)
  show ?thesis
    unfolding r0_def [symmetric] d_def [symmetric]
    by (simp add: a1 a2 a3 e1 r1_def [symmetric] b1 b2 b3 e2 r2_def [symmetric] c
        r3_def [symmetric] d1' d2' d3' e4 keys)
       (simp add: oneRider_def s4)
qed

text \<open>
  With a local time that is not UTC the weekly key goes back and forth for increasing
  timestamps (see \<open>weekKey_local_time\<close>), with the same effect. On a server two hours
  ahead of UTC, three calls for samples of Monday 12:00, Tuesday 00:30 and Tuesday 12:00
  local time have the weekly keys 2024-06-10, 2024-06-09 and 2024-06-10, and the weekly
  challenge is completed twice in that week.
\<close>

lemma keys_2024_06:
  "dayKey 1718013600000 = Some ''2024-06-10''"
  "dayKey 1718058600000 = Some ''2024-06-10''"
  "dayKey 1718100000000 = Some ''2024-06-11''"
  "weekKey 120 1718013600000 = Some ''2024-06-10''"
  "weekKey 120 1718058600000 = Some ''2024-06-09''"
  "weekKey 120 1718100000000 = Some ''2024-06-10''"
  unfolding dayKey_def weekKey_def getDay_def weekday_def toISOString_slice_def validTime_def
      isoDate10_def MS_PER_DAY_def civil_from_days_def Let_def
  by (simp_all add: pad_digits_2 pad_digits_4 digit_char_def)

lemma weekly_bonus_twice_local_time:
  "\<exists>rider'. updateAll 120 defaultChallenges (newRider ''r1'' ''Ada'' 1)
       [(1718013601000, 6000, 1718013600000), (1718058601000, 0, 1718058600000),
        (1718100001000, 6000, 1718100000000)]
     = Inr (rider',
         [\<lparr>e_challengeId = ''daily_1km'', e_riderId = ''r1'', e_bonusPoints = 5\<rparr>,
          \<lparr>e_challengeId = ''weekly_5km'', e_riderId = ''r1'', e_bonusPoints = 25\<rparr>,
          \<lparr>e_challengeId = ''daily_1km'', e_riderId = ''r1'', e_bonusPoints = 5\<rparr>,
          \<lparr>e_challengeId = ''weekly_5km'', e_riderId = ''r1'', e_bonusPoints = 25\<rparr>])"
  by (simp add: updateChallengesForRider_def defaultChallenges_def challengeStep_def
      resetWindow_def keys_2024_06 rollover_def storedProgress_def freshProgress_def
      newRider_def Let_def)

subsection \<open>Stored timestamps\<close>

lemma sampleTs_nonzero: "now \<noteq> 0 \<Longrightarrow> sampleTs now p \<noteq> 0"
  by (simp add: sampleTs_def split: option.splits)

lemma challengeLoop_last:
  assumes "challengeLoop tz clock d t (r, evs) cs = Inl r'
         \<or> challengeLoop tz clock d t (r, evs) cs = Inr (r', evs')"
  shows "r_last r' = r_last r"
  using assms
proof (induction cs arbitrary: r evs)
  case Nil
  then show ?case by simp
next
  case (Cons e cs)
  obtain cid chal where e: "e = (cid, chal)" by (cases e)
  show ?case
  proof (cases "resetWindow tz (c_period chal) t (storedProgress r cid)")
    case None
    with Cons.prems show ?thesis
      by (auto simp: e challengeStep_Inl)
  next
    case (Some prog1)
    let ?r1 = "stepRider clock d chal cid prog1 r"
    from Cons.prems Some
    have "challengeLoop tz clock d t (?r1, evs @ completionEvents tz d t r (cid, chal)) cs = Inl r'
         \<or> challengeLoop tz clock d t (?r1, evs @ completionEvents tz d t r (cid, chal)) cs
             = Inr (r', evs')"
      by (simp add: e challengeStep_Inr stepRider_def)
    from Cons.IH [OF this] show ?thesis
      by (simp add: stepRider_def)
  qed
qed

text \<open>
  While the clock is not 0, \<^verbatim>\<open>handlePosition\<close> stores no fix with the timestamp 0: the
  fixes that line 163 treats as absent do not arise.
\<close>

lemma stored_timestamps_nonzero:
  assumes clock: "now \<noteq> 0"
    and inv: "\<And>rid rider l. riders D rid = Some rider \<Longrightarrow> r_last rider = Some l \<Longrightarrow> fix_ts l \<noteq> 0"
    and after: "riders (fst (snd (handlePosition tz now D p))) rid = Some rider'"
    and l': "r_last rider' = Some l'"
  shows "fix_ts l' \<noteq> 0"
proof (cases "rid = p_id p")
  case False
  with after have "riders D rid = Some rider'" by (simp add: handlePosition_others)
  from inv [OF this l'] show ?thesis .
next
  case rid: True
  show ?thesis
  proof (cases "p_lat p = None \<or> p_lon p = None \<or> p_id p = []")
    case True
    from handlePosition_invalid [OF True, of tz now D] after inv l' show ?thesis by auto
  next
    case False
    then obtain plat plon where v: "p_lat p = Some plat" "p_lon p = Some plon" "p_id p \<noteq> []"
      by auto
    show ?thesis
    proof (cases "riders D (p_id p)")
      case None
      from handlePosition_unknown [OF v None, of tz now] after inv l' show ?thesis by auto
    next
      case (Some rider)
      note old = inv [OF Some]
      show ?thesis
      proof (cases "moves now rider p")
        case False
        from handlePosition_refresh [OF v Some False, of tz] after rid l'
        show ?thesis
          using sampleTs_nonzero [OF clock, of p] by (auto simp: refresh_def)
      next
        case True
        note chk = handlePosition_checked [OF v Some True, of tz]
        show ?thesis
        proof (cases "sampleSpeedKmh now rider p > MAX_SPEED_KMH")
          case True
          with chk after rid l' old show ?thesis by auto
        next
          case slow: False
          let ?s = "scoredRider rider plat plon (sampleTs now p) (sampleMeters rider p)"
          let ?loop = "challengeLoop tz now (sampleMeters rider p) (sampleTs now p) (?s, [])
               (challenges D)"
          have pm: "processMove tz now (challenges D) rider plat plon (sampleTs now p)
                    (sampleMeters rider p)
                  = (case ?loop of Inl r5 \<Rightarrow> Inl r5
                     | Inr (r5, challengeEvents) \<Rightarrow>
                         Inr (r5, max 0 (\<lfloor>(distance rider + sampleMeters rider p) / 1000\<rfloor>
                                          - \<lfloor>distance rider / 1000\<rfloor>),
                              max 0 (\<lfloor>(distance rider + sampleMeters rider p) / 1000\<rfloor>
                                          - \<lfloor>distance rider / 1000\<rfloor>) * 10,
                              map badgeOf (filter (qualifies rider (distance rider)
                                    (distance rider + sampleMeters rider p)) BADGE_MILESTONES_METERS),
                              challengeEvents))"
            by (simp only: processMove_eq updateChallengesForRider_def sampleTs_time)
          have s: "r_last ?s = r_last rider" by (simp add: scoredRider_def)
          show ?thesis
          proof (cases ?loop)
            case (Inl r5)
            with challengeLoop_last [of tz now "sampleMeters rider p" "sampleTs now p" ?s "[]"
                "challenges D" r5]
            have "r_last r5 = r_last rider" by (simp add: s)
            with chk slow pm Inl after rid l' old show ?thesis by auto
          next
            case (Inr res)
            obtain r5 evs where res: "res = (r5, evs)" by (cases res)
            from chk slow pm Inr res after rid l'
            show ?thesis
              using sampleTs_nonzero [OF clock, of p] by (auto simp: refresh_def)
          qed
        qed
      qed
    qed
  qed
qed

end
